(* ===== verification/Jobflow_Prelude.thy ===== *)
theory Jobflow_Prelude
  imports Main "HOL-Library.Word" "HOL-Library.Stream"
begin

text \<open>
  Shared vocabulary of the development: the pieces of the Go language and of its standard library
  that several packages of the repository use (\<^verbatim>\<open>time\<close>, \<^verbatim>\<open>strings\<close>, UTF-8 decoding of a string by
  \<^verbatim>\<open>for range\<close>), the result type of fallible calls, and the generic lemmas on lists, maps and
  sums that the component theories rely on.

  \<^item> A Go string is a byte sequence: \<open>string\<close>, whose characters are bytes.
  \<^item> A \<^verbatim>\<open>time.Time\<close> is its number of nanoseconds since the Unix epoch (\<open>int\<close>); a
    \<^verbatim>\<open>time.Duration\<close> is a 64-bit count of nanoseconds, with the saturation of \<^verbatim>\<open>Time.Sub\<close> and the
    wrap-around of multiplication written out.
  \<^item> \<^verbatim>\<open>time.Now()\<close> reads the next value of a stream of clock readings that the state carries.
\<close>

section \<open>Collections of rewrite rules\<close>

named_theorems go_time \<open>definitions of the time package used by the model\<close>
named_theorems go_strings \<open>definitions of the strings package used by the model\<close>
named_theorems repo_defs \<open>definitions of the repository methods\<close>

section \<open>Results\<close>

type_synonym 'a or_error = "string + 'a"

section \<open>Time\<close>

type_synonym time = int
type_synonym duration = int
type_synonym clock = "time stream"

definition Millisecond :: duration where [go_time]: "Millisecond = 1000000"
definition Second :: duration where [go_time]: "Second = 1000000000"
definition Minute :: duration where [go_time]: "Minute = 60 * Second"
definition Hour :: duration where [go_time]: "Hour = 60 * Minute"

definition maxDuration :: duration where [go_time]: "maxDuration = 9223372036854775807"
definition minDuration :: duration where [go_time]: "minDuration = - 9223372036854775808"

text \<open>The zero \<^verbatim>\<open>time.Time\<close>: January 1, year 1, 00:00:00 UTC.\<close>

definition zeroTime :: time where [go_time]: "zeroTime = - 62135596800 * 1000000000"

text \<open>\<^verbatim>\<open>time.Now\<close>, \<^verbatim>\<open>Time.Sub\<close> (saturating) and \<^verbatim>\<open>time.Until\<close>.\<close>

definition time_Now :: "clock \<Rightarrow> time \<times> clock" where
  "time_Now c = (shd c, stl c)"

definition time_Sub :: "time \<Rightarrow> time \<Rightarrow> duration" where
  "time_Sub t u = max minDuration (min maxDuration (t - u))"

definition dur_Milliseconds :: "duration \<Rightarrow> int" where
  \<comment> \<open>\<^verbatim>\<open>int64(d) / 1e6\<close>: truncated towards zero\<close>
  "dur_Milliseconds d = sgn d * (\<bar>d\<bar> div Millisecond)"

text \<open>The product of two \<^verbatim>\<open>int64\<close> values, and a left shift of \<^verbatim>\<open>1\<close>, both at width 64.\<close>

definition dur_mult :: "64 word \<Rightarrow> duration \<Rightarrow> duration" where
  "dur_mult w d = sint (w * word_of_int d)"

definition shl1 :: "nat \<Rightarrow> 64 word" where
  "shl1 n = push_bit n 1"

section \<open>Strings\<close>

text \<open>
  \<^verbatim>\<open>strings.SplitN(s, sep, n)\<close> for a one-byte separator and \<open>n > 0\<close>: at most \<open>n\<close> pieces, the
  last one the unsplit rest.
\<close>

fun SplitN :: "string \<Rightarrow> char \<Rightarrow> nat \<Rightarrow> string list" where
  "SplitN s c 0 = []"
| "SplitN s c (Suc 0) = [s]"
| "SplitN s c (Suc (Suc n)) =
     (if c \<in> set s
      then takeWhile (\<lambda>x. x \<noteq> c) s # SplitN (tl (dropWhile (\<lambda>x. x \<noteq> c) s)) c (Suc n)
      else [s])"

definition byte :: "char \<Rightarrow> nat" where
  "byte c = of_char c"

text \<open>
  UTF-8 decoding as \<^verbatim>\<open>for _, r := range s\<close> and \<^verbatim>\<open>utf8.DecodeRune\<close> do it: a well-formed sequence
  gives its code point and width, any other byte gives \<^verbatim>\<open>U+FFFD\<close> with width 1.
\<close>

definition RuneError :: nat where "RuneError = 65533"

definition contByte :: "nat \<Rightarrow> bool" where
  "contByte b \<longleftrightarrow> 128 \<le> b \<and> b < 192"

definition second_ok :: "nat \<Rightarrow> nat \<Rightarrow> bool" where
  \<comment> \<open>the range of the second byte that the first one admits: no overlong form, no surrogate,
      nothing above U+10FFFF\<close>
  "second_ok b0 b1 \<longleftrightarrow>
     (if b0 = 224 then 160 \<le> b1 \<and> b1 < 192
      else if b0 = 237 then 128 \<le> b1 \<and> b1 < 160
      else if b0 = 240 then 144 \<le> b1 \<and> b1 < 192
      else if b0 = 244 then 128 \<le> b1 \<and> b1 < 144
      else contByte b1)"

definition DecodeRune :: "nat list \<Rightarrow> nat \<times> nat" where
  "DecodeRune bs = (case bs of
       [] \<Rightarrow> (RuneError, 0)
     | b0 # rest \<Rightarrow>
         if b0 < 128 then (b0, 1)
         else if 194 \<le> b0 \<and> b0 < 224 then
           (case rest of b1 # _ \<Rightarrow>
              if contByte b1 then ((b0 - 192) * 64 + (b1 - 128), 2) else (RuneError, 1)
            | [] \<Rightarrow> (RuneError, 1))
         else if 224 \<le> b0 \<and> b0 < 240 then
           (case rest of b1 # b2 # _ \<Rightarrow>
              if second_ok b0 b1 \<and> contByte b2
              then ((b0 - 224) * 4096 + (b1 - 128) * 64 + (b2 - 128), 3) else (RuneError, 1)
            | _ \<Rightarrow> (RuneError, 1))
         else if 240 \<le> b0 \<and> b0 < 245 then
           (case rest of b1 # b2 # b3 # _ \<Rightarrow>
              if second_ok b0 b1 \<and> contByte b2 \<and> contByte b3
              then ((b0 - 240) * 262144 + (b1 - 128) * 4096 + (b2 - 128) * 64 + (b3 - 128), 4)
              else (RuneError, 1)
            | _ \<Rightarrow> (RuneError, 1))
         else (RuneError, 1))"

text \<open>The string cut into the pieces that decode to one rune each.\<close>

function utf8_chunks :: "string \<Rightarrow> (nat \<times> string) list" where
  "utf8_chunks s = (if s = [] then []
     else (let (r, w) = DecodeRune (map byte s) in (r, take w s) # utf8_chunks (drop (max 1 w) s)))"
  by pat_completeness auto
termination
  by (relation "measure length") (auto simp: max_def)

declare utf8_chunks.simps [simp del]

definition runes :: "string \<Rightarrow> nat list" where
  "runes s = map fst (utf8_chunks s)"

text \<open>\<^verbatim>\<open>unicode.IsSpace\<close> and \<^verbatim>\<open>strings.TrimSpace\<close>.\<close>

definition IsSpace :: "nat \<Rightarrow> bool" where
  "IsSpace r \<longleftrightarrow> r \<in> {9, 10, 11, 12, 13, 32, 133, 160, 5760, 8232, 8233, 8239, 8287, 12288}
     \<or> 8192 \<le> r \<and> r \<le> 8202"

definition TrimSpace :: "string \<Rightarrow> string" where
  "TrimSpace s =
     (let space = (\<lambda>ch. IsSpace (fst ch));
          left = dropWhile space (utf8_chunks s)
      in concat (map snd (rev (dropWhile space (rev left)))))"

text \<open>
  \<^verbatim>\<open>strings.EqualFold\<close> against a string whose letters fold within ASCII only (the one literal the
  code compares with, \<^verbatim>\<open>Bearer\<close>, has no letter with a fold outside ASCII).
\<close>

definition ascii_lower :: "char \<Rightarrow> char" where
  "ascii_lower c = (if 65 \<le> byte c \<and> byte c \<le> 90 then char_of (byte c + 32) else c)"

definition EqualFold :: "string \<Rightarrow> string \<Rightarrow> bool" where
  "EqualFold s t \<longleftrightarrow> map ascii_lower s = map ascii_lower t"

text \<open>\<^verbatim>\<open>strconv.Itoa\<close> and the verb \<^verbatim>\<open>%d\<close>.\<close>

fun dec_digits :: "nat \<Rightarrow> string" where
  "dec_digits n = (if n < 10 then [char_of (48 + n)] else dec_digits (n div 10) @ [char_of (48 + n mod 10)])"

declare dec_digits.simps [simp del]

definition Itoa :: "int \<Rightarrow> string" where
  "Itoa i = (if i < 0 then ''-'' @ dec_digits (nat (- i)) else dec_digits (nat i))"

text \<open>
  A string as \<^verbatim>\<open>encoding/json\<close> writes it (with HTML escaping, the default of \<^verbatim>\<open>json.Marshal\<close>): invalid UTF-8
  becomes the escape of \<^verbatim>\<open>U+FFFD\<close>, the line separators \<^verbatim>\<open>U+2028\<close> and \<^verbatim>\<open>U+2029\<close> are escaped.
\<close>

definition hex_digit :: "nat \<Rightarrow> char" where
  "hex_digit n = (if n < 10 then char_of (48 + n) else char_of (87 + n))"

definition backslash :: char where "backslash = char_of (92::nat)"
definition dquote :: char where "dquote = char_of (34::nat)"

definition json_ascii :: "nat \<Rightarrow> string" where
  "json_ascii b =
     (if b = 92 \<or> b = 34 then [backslash, char_of b]
      else if b = 8 then [backslash, CHR ''b'']
      else if b = 12 then [backslash, CHR ''f'']
      else if b = 10 then [backslash, CHR ''n'']
      else if b = 13 then [backslash, CHR ''r'']
      else if b = 9 then [backslash, CHR ''t'']
      else if b < 32 \<or> b = 60 \<or> b = 62 \<or> b = 38
        then backslash # ''u00'' @ [hex_digit (b div 16), hex_digit (b mod 16)]
      else [char_of b])"

definition json_rune :: "nat \<times> string \<Rightarrow> string" where
  "json_rune chunk = (case chunk of (r, bytes) \<Rightarrow>
     if r < 128 then json_ascii r
     else if r = RuneError \<and> length bytes = 1 then backslash # ''ufffd''
     else if r = 8232 then backslash # ''u2028''
     else if r = 8233 then backslash # ''u2029''
     else bytes)"

definition json_quote :: "string \<Rightarrow> string" where
  "json_quote s = dquote # concat (map json_rune (utf8_chunks s)) @ [dquote]"

section \<open>Lemmas on time and durations\<close>

lemma time_Sub_exact:
  "minDuration \<le> t - u \<Longrightarrow> t - u \<le> maxDuration \<Longrightarrow> time_Sub t u = t - u"
  by (simp add: time_Sub_def)

lemma time_Sub_nonpos_iff: "time_Sub t u \<le> 0 \<longleftrightarrow> t \<le> u"
  by (auto simp: time_Sub_def go_time min_def max_def)

lemma dur_Milliseconds_mono_zero: "d \<le> 0 \<Longrightarrow> dur_Milliseconds d \<le> 0"
proof -
  assume "d \<le> 0"
  moreover have "0 \<le> \<bar>d\<bar> div Millisecond" by (simp add: go_time pos_imp_zdiv_nonneg_iff)
  ultimately show ?thesis by (auto simp: dur_Milliseconds_def sgn_if)
qed

lemma dur_Milliseconds_nonneg: "0 \<le> d \<Longrightarrow> dur_Milliseconds d = d div Millisecond"
  by (auto simp: dur_Milliseconds_def sgn_if)

section \<open>Lemmas on strings\<close>

lemma takeWhile_sep [simp]: "c \<notin> set p \<Longrightarrow> takeWhile (\<lambda>x. x \<noteq> c) (p @ c # s) = p"
  by (induction p) auto

lemma dropWhile_sep [simp]: "c \<notin> set p \<Longrightarrow> dropWhile (\<lambda>x. x \<noteq> c) (p @ c # s) = c # s"
  by (induction p) auto

lemma SplitN_piece:
  "c \<notin> set p \<Longrightarrow> SplitN (p @ c # s) c (Suc (Suc n)) = p # SplitN s c (Suc n)"
  by simp

lemma SplitN_length: "0 < n \<Longrightarrow> 0 < length (SplitN s c n) \<and> length (SplitN s c n) \<le> n"
  by (induction s c n rule: SplitN.induct) auto

lemma SplitN_pieces_free:
  "n < length (SplitN s c m) - 1 \<Longrightarrow> c \<notin> set (SplitN s c m ! n)"
proof (induction s c m arbitrary: n rule: SplitN.induct)
  case (3 s c m)
  then show ?case
    by (cases n) (auto dest: set_takeWhileD split: if_splits)
qed auto

section \<open>Lemmas on maps and sums\<close>

lemma map_option_eq_None_iff: "map_option f x = None \<longleftrightarrow> x = None"
  by (cases x) auto

lemma ran_upd_subset: "r \<in> ran (m(k \<mapsto> v)) \<Longrightarrow> r = v \<or> r \<in> ran m"
  by (auto simp: ran_def split: if_splits)

end
