(* ===== verification/Gorm.thy ===== *)
theory Gorm
  imports Jobflow_Prelude
begin

text \<open>
  The object-relational mapper (\<^verbatim>\<open>gorm.io/gorm\<close>) and the database behind it are not part of the
  repository. The model takes them as a parameter: a record of the calls the repositories make,
  acting on an abstract database state, each of which may fail. What the code relies on is the
  locale \<open>gorm_model\<close> below, the documented behaviour of these calls on the table of one model
  type, and its two extensions for a model with and without a \<^verbatim>\<open>gorm.DeletedAt\<close> field.

  The last section is a reference store, a table kept in memory with a script of faults; it
  satisfies all the laws, so the hypotheses of the properties are satisfiable, and the witnesses
  run on it.
\<close>

section \<open>The calls\<close>

datatype gorm_error = ErrRecordNotFound | DBError string

definition gorm_error_text :: "gorm_error \<Rightarrow> string" where
  "gorm_error_text e = (case e of ErrRecordNotFound \<Rightarrow> ''record not found'' | DBError m \<Rightarrow> m)"

text \<open>
  A condition (\<^verbatim>\<open>Where\<close>) is a predicate on rows, a set of assignments (\<^verbatim>\<open>Update\<close>, \<^verbatim>\<open>Updates\<close>) a
  function on rows. \<^verbatim>\<open>Updates\<close> and \<^verbatim>\<open>Delete\<close> report the number of affected rows.
\<close>

record ('db, 'r) gorm =
  gorm_Create :: "'db \<Rightarrow> 'r list \<Rightarrow> 'db \<times> (gorm_error + 'r list)"
  gorm_Take :: "'db \<Rightarrow> ('r \<Rightarrow> bool) \<Rightarrow> 'db \<times> (gorm_error + 'r)"
  gorm_Find :: "'db \<Rightarrow> ('r \<Rightarrow> bool) \<Rightarrow> 'db \<times> (gorm_error + 'r list)"
  gorm_Updates :: "'db \<Rightarrow> ('r \<Rightarrow> bool) \<Rightarrow> ('r \<Rightarrow> 'r) \<Rightarrow> 'db \<times> (gorm_error + nat)"
  gorm_Delete :: "'db \<Rightarrow> ('r \<Rightarrow> bool) \<Rightarrow> 'db \<times> (gorm_error + nat)"

section \<open>What the code relies on\<close>

text \<open>
  \<open>tbl db\<close> is the content of the table, by primary key. A row that is not \<open>live\<close> (soft-deleted) is
  invisible to every call. \<open>filled r r'\<close> says that \<open>r'\<close> is the given row \<open>r\<close> with the defaults of its
  zero-valued fields filled in, \<open>tracked r r'\<close> that \<open>r'\<close> is \<open>r\<close> up to the fields \<^verbatim>\<open>gorm\<close> keeps track of
  itself (\<^verbatim>\<open>UpdatedAt\<close>).
\<close>

locale gorm_model =
  fixes g :: "('db, 'r) gorm"
    and tbl :: "'db \<Rightarrow> 'k \<Rightarrow> 'r option"
    and key :: "'r \<Rightarrow> 'k"
    and live :: "'r \<Rightarrow> bool"
    and filled :: "'r \<Rightarrow> 'r \<Rightarrow> bool"
    and tracked :: "'r \<Rightarrow> 'r \<Rightarrow> bool"
  assumes key_tbl: "tbl db k = Some r \<Longrightarrow> key r = k"
    and create_Inr: "gorm_Create g db rs = (db', Inr rs') \<Longrightarrow>
          list_all2 filled rs rs' \<and> distinct (map key rs')
          \<and> (\<forall>r\<in>set rs'. tbl db (key r) = None)
          \<and> tbl db' = tbl db ++ map_of (map (\<lambda>r. (key r, r)) rs')"
    and create_Inl: "gorm_Create g db rs = (db', Inl e) \<Longrightarrow> tbl db' = tbl db"
    and take_tbl: "gorm_Take g db P = (db', res) \<Longrightarrow> tbl db' = tbl db"
    and take_Inr: "gorm_Take g db P = (db', Inr r) \<Longrightarrow> tbl db (key r) = Some r \<and> live r \<and> P r"
    and take_not_found: "gorm_Take g db P = (db', Inl ErrRecordNotFound) \<Longrightarrow>
          tbl db k = Some r \<Longrightarrow> live r \<Longrightarrow> \<not> P r"
    and find_tbl: "gorm_Find g db P = (db', found) \<Longrightarrow> tbl db' = tbl db"
    and find_Inr: "gorm_Find g db P = (db', Inr rs) \<Longrightarrow>
          distinct (map key rs)
          \<and> (\<forall>r. r \<in> set rs \<longleftrightarrow> tbl db (key r) = Some r \<and> live r \<and> P r)"
    and updates_Inl: "gorm_Updates g db P f = (db', Inl e) \<Longrightarrow> tbl db' = tbl db"
    and updates_None: "gorm_Updates g db P f = (db', Inr n) \<Longrightarrow> tbl db k = None \<Longrightarrow> tbl db' k = None"
    and updates_hit: "gorm_Updates g db P f = (db', Inr n) \<Longrightarrow>
          tbl db k = Some r \<Longrightarrow> live r \<Longrightarrow> P r \<Longrightarrow> key (f r) = k \<Longrightarrow>
          \<exists>r'. tbl db' k = Some r' \<and> tracked (f r) r'"
    and updates_miss: "gorm_Updates g db P f = (db', Inr n) \<Longrightarrow>
          tbl db k = Some r \<Longrightarrow> \<not> (live r \<and> P r) \<Longrightarrow> tbl db' k = Some r"
    and updates_rows: "gorm_Updates g db P f = (db', Inr n) \<Longrightarrow>
          n = 0 \<longleftrightarrow> (\<forall>k r. tbl db k = Some r \<longrightarrow> live r \<longrightarrow> \<not> P r)"
    and delete_Inl: "gorm_Delete g db P = (db', Inl e) \<Longrightarrow> tbl db' = tbl db"
begin

lemmas no_effect = take_tbl find_tbl create_Inl updates_Inl delete_Inl

lemma create_one:
  assumes "gorm_Create g db [r] = (db', Inr rs')"
  shows "\<exists>r'. rs' = [r'] \<and> filled r r' \<and> tbl db (key r') = None \<and> tbl db' = (tbl db)(key r' \<mapsto> r')"
  using create_Inr [OF assms] by (auto simp: list_all2_Cons1)

lemma create_old:
  assumes "gorm_Create g db rs = (db', Inr rs')" and "tbl db k = Some r"
  shows "tbl db' k = Some r"
proof -
  note created = create_Inr [OF assms(1)]
  have "map_of (map (\<lambda>r. (key r, r)) rs') k = None"
    using created assms(2) by (force simp: map_of_eq_None_iff)
  with created assms(2) show ?thesis by (simp add: map_add_Some_iff)
qed

lemma create_new:
  assumes "gorm_Create g db rs = (db', Inr rs')" and "r \<in> set rs'"
  shows "tbl db' (key r) = Some r"
proof -
  note created = create_Inr [OF assms(1)]
  have "map_of (map (\<lambda>r. (key r, r)) rs') (key r) = Some r"
    using created assms(2) by (intro map_of_is_SomeI) (auto simp: comp_def)
  with created show ?thesis by (simp add: map_add_Some_iff)
qed

lemma create_other:
  assumes "gorm_Create g db rs = (db', Inr rs')" and "k \<notin> key ` set rs'"
  shows "tbl db' k = tbl db k"
proof -
  have "map_of (map (\<lambda>r. (key r, r)) rs') k = None"
    using assms(2) by (simp add: map_of_eq_None_iff image_image)
  then show ?thesis using create_Inr [OF assms(1)] by (simp add: map_add_def)
qed

lemma create_fresh:
  assumes "gorm_Create g db rs = (db', Inr rs')"
  shows "list_all2 filled rs rs'" and "distinct (map key rs')" and "k \<in> key ` set rs' \<Longrightarrow> tbl db k = None"
  using create_Inr [OF assms] by auto

text \<open>An update changes only live rows that match its condition.\<close>

lemma updates_frame:
  assumes "gorm_Updates g db P f = (db', res)" and "\<And>r. tbl db k = Some r \<Longrightarrow> \<not> (live r \<and> P r)"
  shows "tbl db' k = tbl db k"
proof (cases res)
  case (Inl e)
  with assms(1) show ?thesis by (simp add: updates_Inl)
next
  case (Inr n)
  with assms show ?thesis
    by (cases "tbl db k") (auto simp: updates_None updates_miss)
qed

lemma updates_cases:
  assumes "gorm_Updates g db P f = (db', res)" and "tbl db k = Some r" and "key (f r) = k"
  shows "tbl db' k = Some r \<or> (\<exists>r' n. res = Inr n \<and> live r \<and> P r \<and> tbl db' k = Some r' \<and> tracked (f r) r')"
proof (cases res)
  case (Inl e)
  with assms show ?thesis by (simp add: updates_Inl)
next
  case (Inr n)
  with assms show ?thesis
    by (cases "live r \<and> P r") (auto dest: updates_hit updates_miss)
qed

end

text \<open>A model with a \<^verbatim>\<open>gorm.DeletedAt\<close> field: \<^verbatim>\<open>Delete\<close> marks the matching rows.\<close>

locale gorm_soft_delete = gorm_model +
  fixes marked :: "'b \<Rightarrow> 'b \<Rightarrow> bool"
  assumes marked_dead: "marked r r' \<Longrightarrow> \<not> live r'"
    and delete_None: "gorm_Delete g db P = (db', Inr n) \<Longrightarrow> tbl db k = None \<Longrightarrow> tbl db' k = None"
    and delete_hit: "gorm_Delete g db P = (db', Inr n) \<Longrightarrow>
          tbl db k = Some r \<Longrightarrow> live r \<Longrightarrow> P r \<Longrightarrow> \<exists>r'. tbl db' k = Some r' \<and> marked r r'"
    and delete_miss: "gorm_Delete g db P = (db', Inr n) \<Longrightarrow>
          tbl db k = Some r \<Longrightarrow> \<not> (live r \<and> P r) \<Longrightarrow> tbl db' k = Some r"
begin

lemma delete_frame:
  assumes "gorm_Delete g db P = (db', res)" and "\<And>r. tbl db k = Some r \<Longrightarrow> \<not> (live r \<and> P r)"
  shows "tbl db' k = tbl db k"
proof (cases res)
  case (Inl e)
  with assms(1) show ?thesis by (simp add: delete_Inl)
next
  case (Inr n)
  with assms show ?thesis
    by (cases "tbl db k") (auto simp: delete_None delete_miss)
qed

end

text \<open>A model without one: \<^verbatim>\<open>Delete\<close> removes the matching rows.\<close>

locale gorm_hard_delete = gorm_model +
  assumes delete_eq: "gorm_Delete g db P = (db', Inr n) \<Longrightarrow>
          tbl db' k = (case tbl db k of None \<Rightarrow> None
                       | Some r \<Rightarrow> if live r \<and> P r then None else Some r)"

section \<open>A reference store\<close>

text \<open>
  A table kept in memory. \<open>mem_faults\<close> scripts the outcome of the coming calls (an entry
  \<open>Some m\<close> makes a call fail with message \<open>m\<close>), \<open>mem_supply\<close> numbers the generated keys. Where two
  rows had the same key, the first one counts.
\<close>

record 'r mem_db =
  mem_rows :: "'r list"
  mem_faults :: "string option list"
  mem_supply :: nat

fun first_by :: "('r \<Rightarrow> 'k) \<Rightarrow> 'r list \<Rightarrow> 'r list" where
  "first_by key [] = []"
| "first_by key (r # rs) = r # filter (\<lambda>x. key x \<noteq> key r) (first_by key rs)"

definition mem_tbl :: "('r \<Rightarrow> 'k) \<Rightarrow> 'r mem_db \<Rightarrow> 'k \<Rightarrow> 'r option" where
  "mem_tbl key db = map_of (map (\<lambda>r. (key r, r)) (mem_rows db))"

definition mem_call :: "'r mem_db \<Rightarrow> ('r mem_db \<Rightarrow> 'r mem_db \<times> (gorm_error + 'a)) \<Rightarrow> 'r mem_db \<times> (gorm_error + 'a)" where
  "mem_call db body = (case mem_faults db of
       [] \<Rightarrow> body db
     | None # fs \<Rightarrow> body (db\<lparr>mem_faults := fs\<rparr>)
     | Some m # fs \<Rightarrow> (db\<lparr>mem_faults := fs\<rparr>, Inl (DBError m)))"

fun number_from :: "(nat \<Rightarrow> 'r \<Rightarrow> 'r) \<Rightarrow> nat \<Rightarrow> 'r list \<Rightarrow> 'r list" where
  "number_from fill n [] = []"
| "number_from fill n (r # rs) = fill n r # number_from fill (Suc n) rs"

definition mem_create :: "('r \<Rightarrow> 'k) \<Rightarrow> (nat \<Rightarrow> 'r \<Rightarrow> 'r) \<Rightarrow> 'r list \<Rightarrow> 'r mem_db \<Rightarrow> 'r mem_db \<times> (gorm_error + 'r list)" where
  "mem_create key fill rs db =
     (let rs' = number_from fill (mem_supply db) rs;
          db' = db\<lparr>mem_supply := mem_supply db + length rs\<rparr>
      in if distinct (map key (first_by key (mem_rows db) @ rs'))
         then (db'\<lparr>mem_rows := first_by key (mem_rows db) @ rs'\<rparr>, Inr rs')
         else (db', Inl (DBError ''duplicate key'')))"

definition mem_find :: "('r \<Rightarrow> 'k) \<Rightarrow> ('r \<Rightarrow> bool) \<Rightarrow> 'r mem_db \<Rightarrow> 'r list" where
  "mem_find key Q db = filter Q (first_by key (mem_rows db))"

definition mem_updates :: "('r \<Rightarrow> 'k) \<Rightarrow> ('r \<Rightarrow> bool) \<Rightarrow> ('r \<Rightarrow> 'r) \<Rightarrow> 'r mem_db \<Rightarrow> 'r mem_db \<times> (gorm_error + nat)" where
  "mem_updates key Q f db =
     (let hit = mem_find key Q db
      in if list_all (\<lambda>r. key (f r) = key r) hit
         then (db\<lparr>mem_rows := map (\<lambda>r. if Q r then f r else r) (first_by key (mem_rows db))\<rparr>, Inr (length hit))
         else (db, Inl (DBError ''key changed'')))"

definition mem_delete :: "('r \<Rightarrow> 'k) \<Rightarrow> ('r \<Rightarrow> bool) \<Rightarrow> ('r \<Rightarrow> 'r option) \<Rightarrow> 'r mem_db \<Rightarrow> 'r mem_db \<times> (gorm_error + nat)" where
  "mem_delete key Q mark db =
     (db\<lparr>mem_rows := List.map_filter (\<lambda>r. if Q r then mark r else Some r) (first_by key (mem_rows db))\<rparr>,
      Inr (length (mem_find key Q db)))"

definition mem_gorm :: "('r \<Rightarrow> 'k) \<Rightarrow> ('r \<Rightarrow> bool) \<Rightarrow> (nat \<Rightarrow> 'r \<Rightarrow> 'r) \<Rightarrow> ('r \<Rightarrow> 'r option) \<Rightarrow> ('r mem_db, 'r) gorm" where
  "mem_gorm key live fill mark =
     \<lparr>gorm_Create = (\<lambda>db rs. mem_call db (mem_create key fill rs)),
      gorm_Take = (\<lambda>db P. mem_call db (\<lambda>db'. (db', case mem_find key (\<lambda>r. live r \<and> P r) db' of
                     [] \<Rightarrow> Inl ErrRecordNotFound | r # _ \<Rightarrow> Inr r))),
      gorm_Find = (\<lambda>db P. mem_call db (\<lambda>db'. (db', Inr (mem_find key (\<lambda>r. live r \<and> P r) db')))),
      gorm_Updates = (\<lambda>db P f. mem_call db (mem_updates key (\<lambda>r. live r \<and> P r) f)),
      gorm_Delete = (\<lambda>db P. mem_call db (mem_delete key (\<lambda>r. live r \<and> P r) mark))\<rparr>"

lemmas mem_defs = mem_gorm_def mem_call_def mem_create_def mem_find_def mem_updates_def
  mem_delete_def mem_tbl_def

abbreviation by_key :: "('r \<Rightarrow> 'k) \<Rightarrow> 'r list \<Rightarrow> 'k \<Rightarrow> 'r option" where
  "by_key key rs \<equiv> map_of (map (\<lambda>r. (key r, r)) rs)"

lemma by_key_SomeD: "by_key key rs k = Some r \<Longrightarrow> key r = k \<and> r \<in> set rs"
  by (auto dest: map_of_SomeD)

lemma by_key_filter_other:
  "k \<noteq> x \<Longrightarrow> by_key key (filter (\<lambda>r. key r \<noteq> x) rs) k = by_key key rs k"
  by (induction rs) auto

lemma by_key_first_by: "by_key key (first_by key rs) = by_key key rs"
proof
  show "by_key key (first_by key rs) k = by_key key rs k" for k
    by (induction rs) (auto simp: by_key_filter_other)
qed

lemma distinct_first_by: "distinct (map key (first_by key rs))"
proof (induction rs)
  case (Cons r rs)
  then show ?case by (auto simp: distinct_map inj_on_def)
qed simp

lemma in_first_by: "r \<in> set (first_by key rs) \<longleftrightarrow> by_key key rs (key r) = Some r"
proof
  assume "r \<in> set (first_by key rs)"
  then have "by_key key (first_by key rs) (key r) = Some r"
    using distinct_first_by [of key rs] by (intro map_of_is_SomeI) (auto simp: comp_def)
  then show "by_key key rs (key r) = Some r" by (simp only: by_key_first_by)
next
  assume "by_key key rs (key r) = Some r"
  then have "by_key key (first_by key rs) (key r) = Some r" by (simp only: by_key_first_by)
  then show "r \<in> set (first_by key rs)" by (auto dest: by_key_SomeD)
qed

lemma first_by_distinct [simp]: "distinct (map key rs) \<Longrightarrow> first_by key rs = rs"
proof (induction rs)
  case (Cons r rs)
  then have "filter (\<lambda>x. key x \<noteq> key r) rs = rs" by (intro filter_True) (auto simp: image_iff)
  with Cons show ?case by simp
qed simp

lemma by_key_map:
  assumes "\<And>r. r \<in> set rs \<Longrightarrow> key (h r) = key r"
  shows "by_key key (map h rs) k = map_option h (by_key key rs k)"
  using assms by (induction rs) auto

lemma length_number_from [simp]: "length (number_from fill n rs) = length rs"
  by (induction rs arbitrary: n) auto

lemma number_from_filled:
  "(\<And>n r. filled r (fill n r)) \<Longrightarrow> list_all2 filled rs (number_from fill n rs)"
  by (induction rs arbitrary: n) auto

lemma by_key_map_filter:
  assumes "\<And>r r'. h r = Some r' \<Longrightarrow> key r' = key r" and "distinct (map key rs)"
  shows "by_key key (List.map_filter h rs) k = Option.bind (by_key key rs k) h"
  using assms(2)
proof (induction rs)
  case (Cons r rs)
  have none: "by_key key (List.map_filter h rs) (key r) = None"
    using Cons.prems assms(1) by (force simp: map_of_eq_None_iff List.map_filter_def)
  have none': "by_key key rs (key r) = None"
    using Cons.prems by (force simp: map_of_eq_None_iff)
  show ?case
    using Cons none none' assms(1) by (cases "h r") (auto simp: List.map_filter_simps)
qed (simp add: List.map_filter_simps)

text \<open>The reference store satisfies the laws.\<close>

lemma mem_call_cases:
  obtains m fs where "mem_faults db = Some m # fs" "mem_call db body = (db\<lparr>mem_faults := fs\<rparr>, Inl (DBError m))"
  | fs where "mem_call db body = body (db\<lparr>mem_faults := fs\<rparr>)"
proof (cases "mem_faults db")
  case Nil
  then have "db\<lparr>mem_faults := []\<rparr> = db" by (cases db) simp
  then have "mem_call db body = body (db\<lparr>mem_faults := []\<rparr>)"
    unfolding mem_call_def Nil by (simp del: mem_db.update_convs)
  then show ?thesis by (rule that(2))
next
  case (Cons f fs)
  then show ?thesis by (cases f) (auto simp: mem_call_def intro: that)
qed

lemma mem_call_InrE:
  assumes "mem_call db body = (db', Inr x)"
  obtains fs where "body (db\<lparr>mem_faults := fs\<rparr>) = (db', Inr x)"
  using assms by (rule_tac mem_call_cases [of db body]) auto

lemma mem_call_InlE:
  assumes "mem_call db body = (db', Inl e)"
  obtains fs where "db' = db\<lparr>mem_faults := fs\<rparr>" "e \<noteq> ErrRecordNotFound"
  | fs where "body (db\<lparr>mem_faults := fs\<rparr>) = (db', Inl e)"
  using assms by (rule_tac mem_call_cases [of db body]) auto

lemma mem_tbl_faults [simp]: "mem_tbl key (db\<lparr>mem_faults := fs\<rparr>) = mem_tbl key db"
  by (simp add: mem_tbl_def)

lemma mem_find_faults [simp]: "mem_find key Q (db\<lparr>mem_faults := fs\<rparr>) = mem_find key Q db"
  by (simp add: mem_find_def)

lemma in_mem_find: "r \<in> set (mem_find key Q db) \<longleftrightarrow> mem_tbl key db (key r) = Some r \<and> Q r"
  by (auto simp: mem_find_def in_first_by mem_tbl_def)

lemma mem_find_hit: "mem_tbl key db k = Some r \<Longrightarrow> Q r \<Longrightarrow> r \<in> set (mem_find key Q db)"
  using by_key_SomeD [of key "mem_rows db" k r] by (auto simp: in_mem_find mem_tbl_def)

lemma mem_find_empty: "mem_find key Q db = [] \<longleftrightarrow> (\<forall>k r. mem_tbl key db k = Some r \<longrightarrow> \<not> Q r)"
proof
  assume "mem_find key Q db = []"
  then show "\<forall>k r. mem_tbl key db k = Some r \<longrightarrow> \<not> Q r" using mem_find_hit [of key db _ _ Q] by auto
next
  assume none: "\<forall>k r. mem_tbl key db k = Some r \<longrightarrow> \<not> Q r"
  have "r \<notin> set (mem_find key Q db)" for r using none by (auto simp: in_mem_find)
  then show "mem_find key Q db = []" by (metis list.set_intros(1) neq_Nil_conv)
qed

lemma mem_create_Inr:
  assumes "mem_create key fill rs db = (db', Inr rs')" and "\<And>n r. filled r (fill n r)"
  shows "list_all2 filled rs rs' \<and> distinct (map key rs') \<and> (\<forall>r\<in>set rs'. mem_tbl key db (key r) = None)
    \<and> mem_tbl key db' = mem_tbl key db ++ by_key key rs'"
proof -
  let ?old = "first_by key (mem_rows db)"
  from assms(1) have d: "distinct (map key (?old @ rs'))" and rows: "mem_rows db' = ?old @ rs'"
    and rs': "rs' = number_from fill (mem_supply db) rs"
    by (auto simp: mem_create_def Let_def split: if_splits)
  have fresh: "by_key key (mem_rows db) (key r) = None" if "r \<in> set rs'" for r
  proof -
    from d that have "key r \<notin> key ` set ?old" by auto
    then have "by_key key ?old (key r) = None" by (force simp: map_of_eq_None_iff)
    then show ?thesis by (simp only: by_key_first_by)
  qed
  have "by_key key (?old @ rs') = by_key key (mem_rows db) ++ by_key key rs'"
  proof
    fix k
    have "by_key key rs' k = None" if "by_key key (mem_rows db) k = Some r" for r
    proof (cases "by_key key rs' k")
      case (Some r')
      from by_key_SomeD [OF this] have "key r' = k" and "r' \<in> set rs'" by simp_all
      with fresh [of r'] that show ?thesis by simp
    qed
    then show "by_key key (?old @ rs') k = (by_key key (mem_rows db) ++ by_key key rs') k"
      by (simp only: map_append map_of_append map_add_def by_key_first_by)
         (auto split: option.splits)
  qed
  with d rows fresh number_from_filled [of filled fill, OF assms(2)] rs' show ?thesis
    by (auto simp: mem_tbl_def)
qed

lemma mem_updates_Inr:
  assumes "mem_updates key Q f db = (db', Inr n)"
  shows "n = length (mem_find key Q db)
    \<and> mem_tbl key db' k = map_option (\<lambda>r. if Q r then f r else r) (mem_tbl key db k)"
proof -
  from assms have keys: "\<And>r. r \<in> set (mem_find key Q db) \<Longrightarrow> key (f r) = key r"
    and rows: "mem_rows db' = map (\<lambda>r. if Q r then f r else r) (first_by key (mem_rows db))"
    and n: "n = length (mem_find key Q db)"
    by (auto simp: mem_updates_def Let_def list_all_iff split: if_splits)
  have "key (if Q r then f r else r) = key r" if "r \<in> set (first_by key (mem_rows db))" for r
    using that keys [of r] by (auto simp: mem_find_def)
  then have "mem_tbl key db' k = map_option (\<lambda>r. if Q r then f r else r) (by_key key (first_by key (mem_rows db)) k)"
    unfolding mem_tbl_def rows by (intro by_key_map) auto
  with n show ?thesis by (simp only: by_key_first_by mem_tbl_def)
qed

lemma mem_delete_tbl:
  assumes "mem_delete key Q mark db = (db', res)" and "\<And>r r'. mark r = Some r' \<Longrightarrow> key r' = key r"
  shows "mem_tbl key db' k = Option.bind (mem_tbl key db k) (\<lambda>r. if Q r then mark r else Some r)"
proof -
  from assms(1) have rows: "mem_rows db' =
      List.map_filter (\<lambda>r. if Q r then mark r else Some r) (first_by key (mem_rows db))"
    by (auto simp: mem_delete_def)
  have "mem_tbl key db' k =
      Option.bind (by_key key (first_by key (mem_rows db)) k) (\<lambda>r. if Q r then mark r else Some r)"
    unfolding mem_tbl_def rows
    by (rule by_key_map_filter) (auto simp: assms(2) distinct_first_by split: if_splits)
  then show ?thesis by (simp only: by_key_first_by mem_tbl_def)
qed

lemma mem_gorm_model:
  assumes "\<And>n r. filled r (fill n r)" and "\<And>r. tracked r r"
  shows "gorm_model (mem_gorm key live fill mark) (mem_tbl key) key live filled tracked"
proof
  fix db k r assume "mem_tbl key db k = Some r"
  then show "key r = k" by (auto simp: mem_tbl_def dest: by_key_SomeD)
next
  fix db rs db' rs' assume "gorm_Create (mem_gorm key live fill mark) db rs = (db', Inr rs')"
  then obtain fs where *: "mem_create key fill rs (db\<lparr>mem_faults := fs\<rparr>) = (db', Inr rs')"
    by (auto simp: mem_gorm_def elim: mem_call_InrE)
  show "list_all2 filled rs rs' \<and> distinct (map key rs') \<and> (\<forall>r\<in>set rs'. mem_tbl key db (key r) = None)
      \<and> mem_tbl key db' = mem_tbl key db ++ by_key key rs'"
    using mem_create_Inr [where filled = filled, OF * assms(1)] by simp
next
  fix db rs db' e assume "gorm_Create (mem_gorm key live fill mark) db rs = (db', Inl e)"
  then show "mem_tbl key db' = mem_tbl key db"
    by (simp add: mem_gorm_def)
      (erule mem_call_InlE, auto simp: mem_create_def mem_tbl_def Let_def split: if_splits)
next
  fix db P db' and res :: "gorm_error + 'a" assume "gorm_Take (mem_gorm key live fill mark) db P = (db', res)"
  then show "mem_tbl key db' = mem_tbl key db"
    by (auto simp: mem_gorm_def mem_call_def split: list.splits option.splits)
next
  fix db P db' r assume "gorm_Take (mem_gorm key live fill mark) db P = (db', Inr r)"
  then have "r \<in> set (mem_find key (\<lambda>r. live r \<and> P r) db)"
    by (auto simp: mem_gorm_def elim!: mem_call_InrE split: list.splits)
  then show "mem_tbl key db (key r) = Some r \<and> live r \<and> P r" by (simp add: in_mem_find)
next
  fix db P db' k r
  assume "gorm_Take (mem_gorm key live fill mark) db P = (db', Inl ErrRecordNotFound)"
  then have "mem_find key (\<lambda>r. live r \<and> P r) db = []"
    by (auto simp: mem_gorm_def elim!: mem_call_InlE split: list.splits)
  moreover assume "mem_tbl key db k = Some r" and "live r"
  ultimately show "\<not> P r" using mem_find_hit [of key db k r "\<lambda>r. live r \<and> P r"] by auto
next
  fix db P db' and found :: "gorm_error + 'a list"
  assume "gorm_Find (mem_gorm key live fill mark) db P = (db', found)"
  then show "mem_tbl key db' = mem_tbl key db"
    by (auto simp: mem_gorm_def mem_call_def split: list.splits option.splits)
next
  fix db P db' rs assume "gorm_Find (mem_gorm key live fill mark) db P = (db', Inr rs)"
  then have "rs = mem_find key (\<lambda>r. live r \<and> P r) db"
    by (auto simp: mem_gorm_def elim!: mem_call_InrE)
  then show "distinct (map key rs) \<and> (\<forall>r. r \<in> set rs \<longleftrightarrow> mem_tbl key db (key r) = Some r \<and> live r \<and> P r)"
    using distinct_map_filter [OF distinct_first_by] by (auto simp: in_mem_find) (simp add: mem_find_def)
next
  fix db P f db' e assume "gorm_Updates (mem_gorm key live fill mark) db P f = (db', Inl e)"
  then show "mem_tbl key db' = mem_tbl key db"
    by (simp add: mem_gorm_def) (erule mem_call_InlE, auto simp: mem_updates_def Let_def split: if_splits)
next
  fix db P f db' n k assume "gorm_Updates (mem_gorm key live fill mark) db P f = (db', Inr n)"
  then obtain fs where *: "mem_updates key (\<lambda>r. live r \<and> P r) f (db\<lparr>mem_faults := fs\<rparr>) = (db', Inr n)"
    by (auto simp: mem_gorm_def elim: mem_call_InrE)
  note upd = mem_updates_Inr [OF *, simplified]
  show "mem_tbl key db k = None \<Longrightarrow> mem_tbl key db' k = None" using upd by simp
  show "\<exists>r'. mem_tbl key db' k = Some r' \<and> tracked (f r) r'"
    if "mem_tbl key db k = Some r" "live r" "P r" for r using that upd assms(2) by simp
  show "mem_tbl key db' k = Some r" if "mem_tbl key db k = Some r" "\<not> (live r \<and> P r)" for r
    using that upd by auto
  show "n = 0 \<longleftrightarrow> (\<forall>k r. mem_tbl key db k = Some r \<longrightarrow> live r \<longrightarrow> \<not> P r)"
    using upd mem_find_empty [of key "\<lambda>r. live r \<and> P r" db] by auto
next
  fix db P db' e assume "gorm_Delete (mem_gorm key live fill mark) db P = (db', Inl e)"
  then show "mem_tbl key db' = mem_tbl key db"
    by (auto simp: mem_gorm_def mem_delete_def elim!: mem_call_InlE)
qed

lemma mem_gorm_delete_tbl:
  assumes "gorm_Delete (mem_gorm key live fill mark) db P = (db', Inr n)"
    and "\<And>r r'. mark r = Some r' \<Longrightarrow> key r' = key r"
  shows "mem_tbl key db' =
    (\<lambda>k. Option.bind (mem_tbl key db k) (\<lambda>r. if live r \<and> P r then mark r else Some r))"
proof
  fix k
  from assms(1) obtain fs where
    *: "mem_delete key (\<lambda>r. live r \<and> P r) mark (db\<lparr>mem_faults := fs\<rparr>) = (db', Inr n)"
    by (auto simp: mem_gorm_def elim: mem_call_InrE)
  show "mem_tbl key db' k = Option.bind (mem_tbl key db k) (\<lambda>r. if live r \<and> P r then mark r else Some r)"
    using mem_delete_tbl [where key = key and mark = mark, OF * assms(2)] by simp
qed

lemma mem_gorm_soft_delete:
  assumes "\<And>n r. filled r (fill n r)" and "\<And>r. tracked r r"
    and "\<And>r. mark r = Some (dead r)" and "\<And>r. key (dead r) = key r" and "\<And>r. marked r (dead r)"
    and "\<And>r r'. marked r r' \<Longrightarrow> \<not> live r'"
  shows "gorm_soft_delete (mem_gorm key live fill mark) (mem_tbl key) key live filled tracked marked"
  by (intro gorm_soft_delete.intro gorm_soft_delete_axioms.intro mem_gorm_model)
     (use assms in \<open>auto dest!: mem_gorm_delete_tbl\<close>)

lemma mem_gorm_hard_delete:
  assumes "\<And>n r. filled r (fill n r)" and "\<And>r. tracked r r" and "\<And>r. mark r = None"
  shows "gorm_hard_delete (mem_gorm key live fill mark) (mem_tbl key) key live filled tracked"
  by (intro gorm_hard_delete.intro gorm_hard_delete_axioms.intro mem_gorm_model)
     (use assms in \<open>auto dest!: mem_gorm_delete_tbl split: option.splits\<close>)

section \<open>Building larger reference stores\<close>

text \<open>
  A store with a further constraint on the table after an insert (a unique index), and a store that is one
  part of a larger state.
\<close>

text \<open>A store whose calls are calls of another one on a part of its state inherits the laws.\<close>

lemma gorm_model_via:
  assumes law: "gorm_model g tbl key live filled tracked"
    and create: "\<And>s rs s' x. gorm_Create g' s rs = (s', Inr x) \<Longrightarrow> gorm_Create g (get s) rs = (get s', Inr x)"
    and create_fail: "\<And>s rs s' e. gorm_Create g' s rs = (s', Inl e) \<Longrightarrow> tbl (get s') = tbl (get s)"
    and take: "\<And>s P s' x. gorm_Take g' s P = (s', x) \<Longrightarrow> gorm_Take g (get s) P = (get s', x)"
    and find: "\<And>s P s' x. gorm_Find g' s P = (s', x) \<Longrightarrow> gorm_Find g (get s) P = (get s', x)"
    and updates: "\<And>s P f s' x. gorm_Updates g' s P f = (s', x) \<Longrightarrow> gorm_Updates g (get s) P f = (get s', x)"
    and delete: "\<And>s P s' x. gorm_Delete g' s P = (s', x) \<Longrightarrow> gorm_Delete g (get s) P = (get s', x)"
  shows "gorm_model g' (\<lambda>s. tbl (get s)) key live filled tracked"
proof (rule gorm_model.intro, goal_cases)
  case 1
  show ?case by (rule gorm_model.key_tbl [OF law 1])
next
  case 2
  show ?case by (rule gorm_model.create_Inr [OF law create [OF 2]])
next
  case 3
  show ?case by (rule create_fail [OF 3])
next
  case 4
  show ?case by (rule gorm_model.take_tbl [OF law take [OF 4]])
next
  case 5
  show ?case by (rule gorm_model.take_Inr [OF law take [OF 5]])
next
  case 6
  show ?case by (rule gorm_model.take_not_found [OF law take [OF 6(1)] 6(2,3)])
next
  case 7
  show ?case by (rule gorm_model.find_tbl [OF law find [OF 7]])
next
  case 8
  show ?case by (rule gorm_model.find_Inr [OF law find [OF 8]])
next
  case 9
  show ?case by (rule gorm_model.updates_Inl [OF law updates [OF 9]])
next
  case 10
  show ?case by (rule gorm_model.updates_None [OF law updates [OF 10(1)] 10(2)])
next
  case 11
  show ?case by (rule gorm_model.updates_hit [OF law updates [OF 11(1)] 11(2,3,4,5)])
next
  case 12
  show ?case by (rule gorm_model.updates_miss [OF law updates [OF 12(1)] 12(2,3)])
next
  case 13
  show ?case by (rule gorm_model.updates_rows [OF law updates [OF 13]])
next
  case 14
  show ?case by (rule gorm_model.delete_Inl [OF law delete [OF 14]])
qed

definition with_check :: "('db \<Rightarrow> bool) \<Rightarrow> ('db, 'r) gorm \<Rightarrow> ('db, 'r) gorm" where
  "with_check ok g = g\<lparr>gorm_Create := (\<lambda>db rs. case gorm_Create g db rs of
       (db', Inr rs') \<Rightarrow> if ok db' then (db', Inr rs') else (db, Inl (DBError ''duplicate key value''))
     | (db', Inl e) \<Rightarrow> (db', Inl e))\<rparr>"

lemma with_check_create:
  "gorm_Create (with_check ok g) db rs = (db', Inr rs') \<Longrightarrow> gorm_Create g db rs = (db', Inr rs') \<and> ok db'"
  by (auto simp: with_check_def split: prod.splits sum.splits if_splits)

lemma with_check_sel [simp]:
  "gorm_Take (with_check ok g) = gorm_Take g" "gorm_Find (with_check ok g) = gorm_Find g"
  "gorm_Updates (with_check ok g) = gorm_Updates g" "gorm_Delete (with_check ok g) = gorm_Delete g"
  by (simp_all add: with_check_def)

lemma with_check_model:
  assumes "gorm_model g tbl key live filled tracked"
  shows "gorm_model (with_check ok g) tbl key live filled tracked"
proof (rule gorm_model_via [OF assms, where get = "\<lambda>s. s"])
  show "tbl s' = tbl s" if "gorm_Create (with_check ok g) s rs = (s', Inl e)" for s rs s' e
    using that gorm_model.create_Inl [OF assms] by (auto simp: with_check_def split: prod.splits sum.splits if_splits)
qed (auto dest: with_check_create)

lemma with_check_hard_delete:
  assumes "gorm_hard_delete g tbl key live filled tracked"
  shows "gorm_hard_delete (with_check ok g) tbl key live filled tracked"
  using assms with_check_model [of g tbl key live filled tracked ok]
  by (simp add: gorm_hard_delete_def gorm_hard_delete_axioms_def)

definition on_part :: "('s \<Rightarrow> 'db) \<Rightarrow> ('db \<Rightarrow> 's \<Rightarrow> 's) \<Rightarrow> ('db, 'r) gorm \<Rightarrow> ('s, 'r) gorm" where
  "on_part get put g =
     \<lparr>gorm_Create = (\<lambda>s rs. case gorm_Create g (get s) rs of (db, x) \<Rightarrow> (put db s, x)),
      gorm_Take = (\<lambda>s P. case gorm_Take g (get s) P of (db, x) \<Rightarrow> (put db s, x)),
      gorm_Find = (\<lambda>s P. case gorm_Find g (get s) P of (db, x) \<Rightarrow> (put db s, x)),
      gorm_Updates = (\<lambda>s P f. case gorm_Updates g (get s) P f of (db, x) \<Rightarrow> (put db s, x)),
      gorm_Delete = (\<lambda>s P. case gorm_Delete g (get s) P of (db, x) \<Rightarrow> (put db s, x))\<rparr>"

lemma on_part_calls:
  assumes "\<And>d s. get (put d s) = d"
  shows "gorm_Create (on_part get put g) s rs = (s', x1) \<Longrightarrow> gorm_Create g (get s) rs = (get s', x1) \<and> s' = put (get s') s"
    "gorm_Take (on_part get put g) s P = (s', x2) \<Longrightarrow> gorm_Take g (get s) P = (get s', x2) \<and> s' = put (get s') s"
    "gorm_Find (on_part get put g) s P = (s', x3) \<Longrightarrow> gorm_Find g (get s) P = (get s', x3) \<and> s' = put (get s') s"
    "gorm_Updates (on_part get put g) s P f = (s', x4) \<Longrightarrow> gorm_Updates g (get s) P f = (get s', x4) \<and> s' = put (get s') s"
    "gorm_Delete (on_part get put g) s P = (s', x5) \<Longrightarrow> gorm_Delete g (get s) P = (get s', x5) \<and> s' = put (get s') s"
  using assms by (auto simp: on_part_def split: prod.splits)

lemma on_part_model:
  assumes "\<And>d s. get (put d s) = d" and "gorm_model g tbl key live filled tracked"
  shows "gorm_model (on_part get put g) (\<lambda>s. tbl (get s)) key live filled tracked"
  by (rule gorm_model_via [OF assms(2), where get = get])
     (auto dest: on_part_calls [of get put, OF assms(1)] gorm_model.create_Inl [OF assms(2)])

lemma on_part_soft_delete:
  assumes "\<And>d s. get (put d s) = d" and "gorm_soft_delete g tbl key live filled tracked marked"
  shows "gorm_soft_delete (on_part get put g) (\<lambda>s. tbl (get s)) key live filled tracked marked"
proof (intro gorm_soft_delete.intro gorm_soft_delete_axioms.intro)
  note law = assms(2) and call = on_part_calls(5) [of get put g, OF assms(1), THEN conjunct1]
  show "gorm_model (on_part get put g) (\<lambda>s. tbl (get s)) key live filled tracked"
    by (rule on_part_model [of get put, OF assms(1)]) (use law in \<open>simp add: gorm_soft_delete_def\<close>)
  show "\<not> live r'" if "marked r r'" for r r' by (rule gorm_soft_delete.marked_dead [OF law that])
  fix db P db' n k
  assume "gorm_Delete (on_part get put g) db P = (db', Inr n)"
  note del = call [OF this]
  show "tbl (get db) k = None \<Longrightarrow> tbl (get db') k = None" by (rule gorm_soft_delete.delete_None [OF law del])
  show "tbl (get db) k = Some r \<Longrightarrow> live r \<Longrightarrow> P r \<Longrightarrow> \<exists>r'. tbl (get db') k = Some r' \<and> marked r r'" for r
    by (rule gorm_soft_delete.delete_hit [OF law del])
  show "tbl (get db) k = Some r \<Longrightarrow> \<not> (live r \<and> P r) \<Longrightarrow> tbl (get db') k = Some r" for r
    by (rule gorm_soft_delete.delete_miss [OF law del])
qed

lemma on_part_hard_delete:
  assumes "\<And>d s. get (put d s) = d" and "gorm_hard_delete g tbl key live filled tracked"
  shows "gorm_hard_delete (on_part get put g) (\<lambda>s. tbl (get s)) key live filled tracked"
proof (intro gorm_hard_delete.intro gorm_hard_delete_axioms.intro)
  note law = assms(2) and call = on_part_calls(5) [of get put g, OF assms(1), THEN conjunct1]
  show "gorm_model (on_part get put g) (\<lambda>s. tbl (get s)) key live filled tracked"
    by (rule on_part_model [of get put, OF assms(1)]) (use law in \<open>simp add: gorm_hard_delete_def\<close>)
  show "tbl (get db') k = (case tbl (get db) k of None \<Rightarrow> None | Some r \<Rightarrow> if live r \<and> P r then None else Some r)"
    if "gorm_Delete (on_part get put g) db P = (db', Inr n)" for db P db' n k
    by (rule gorm_hard_delete.delete_eq [OF law call [OF that]])
qed

end
