(* ===== verification/Rate_Limit.thy ===== *)
theory Rate_Limit
  imports Jobflow_Prelude "HOL-Library.Signed_Division"
begin

text \<open>
  Packages \<^verbatim>\<open>internal/ratelimit\<close> (\<^verbatim>\<open>token_bucket.go\<close>) and \<^verbatim>\<open>internal/middleware/ratelimit.go\<close>. The buffered channel of
  tokens is the number of tokens in it. The refill goroutine and the callers interleave, so the bucket is a labelled step
  relation: a tick received by the goroutine, an acquire by a caller (with its answer), the cancellation
  by \<^verbatim>\<open>Stop\<close>, and the end of the goroutine. After a cancellation the goroutine may still take a tick that is
  ready, as \<^verbatim>\<open>select\<close> chooses freely.
\<close>

section \<open>Model\<close>

record TokenBucket =
  tb_capacity :: int
  tb_tokens :: nat
  tb_interval :: duration
  tb_cancelled :: bool
  tb_running :: bool

datatype tb_panic = PanicMakeChan | PanicDivideByZero | PanicTicker

definition everyMs :: "int \<Rightarrow> int" where
  \<comment> \<open>integer division, truncated towards zero\<close>
  "everyMs rate = 1000 sdiv rate"

definition NewTokenBucket :: "int \<Rightarrow> int \<Rightarrow> tb_panic + TokenBucket" where
  "NewTokenBucket rate capacity =
     (if capacity < 0 then Inl PanicMakeChan
      else if rate = 0 then Inl PanicDivideByZero
      else if everyMs rate * Millisecond \<le> 0 then Inl PanicTicker
      else Inr \<lparr>tb_capacity = capacity, tb_tokens = nat capacity, tb_interval = everyMs rate * Millisecond,
                tb_cancelled = False, tb_running = True\<rparr>)"

definition refill :: "TokenBucket \<Rightarrow> TokenBucket" where
  \<comment> \<open>a send on the channel, dropped when the buffer is full\<close>
  "refill tb = (if int (tb_tokens tb) < tb_capacity tb then tb\<lparr>tb_tokens := Suc (tb_tokens tb)\<rparr> else tb)"

definition TryAcquire :: "TokenBucket \<Rightarrow> TokenBucket \<times> bool" where
  "TryAcquire tb = (if tb_tokens tb = 0 then (tb, False) else (tb\<lparr>tb_tokens := tb_tokens tb - 1\<rparr>, True))"

definition Stop :: "TokenBucket \<Rightarrow> TokenBucket" where
  "Stop tb = tb\<lparr>tb_cancelled := True\<rparr>"

datatype tb_event = Tick | Acquire bool | StopCall | GoroutineExit

inductive tb_step :: "TokenBucket \<Rightarrow> tb_event \<Rightarrow> TokenBucket \<Rightarrow> bool" where
  tick: "tb_running tb \<Longrightarrow> tb_step tb Tick (refill tb)"
| acquire: "TryAcquire tb = (tb', ok) \<Longrightarrow> tb_step tb (Acquire ok) tb'"
| stop: "tb_step tb StopCall (Stop tb)"
| exit: "tb_running tb \<Longrightarrow> tb_cancelled tb \<Longrightarrow> tb_step tb GoroutineExit (tb\<lparr>tb_running := False\<rparr>)"

inductive_cases tb_step_elims: "tb_step tb ev tb'"

inductive tb_run :: "TokenBucket \<Rightarrow> tb_event list \<Rightarrow> TokenBucket \<Rightarrow> bool" where
  nil: "tb_run tb [] tb"
| cons: "tb_step tb ev tb1 \<Longrightarrow> tb_run tb1 evs tb2 \<Longrightarrow> tb_run tb (ev # evs) tb2"

inductive_cases tb_run_ConsE: "tb_run tb (ev # evs) tb'"
inductive_cases tb_acquireE: "tb_step tb (Acquire ok) tb'"

datatype 'r limited = Aborted int | Passed 'r

definition RateLimit :: "('s \<Rightarrow> 's \<times> 'r) \<Rightarrow> TokenBucket \<Rightarrow> 's \<Rightarrow> TokenBucket \<times> 's \<times> 'r limited" where
  "RateLimit next_handlers tb s = (case TryAcquire tb of
       (tb', False) \<Rightarrow> (tb', s, Aborted 429)
     | (tb', True) \<Rightarrow> (case next_handlers s of (s', r) \<Rightarrow> (tb', s', Passed r)))"

section \<open>The contract of a limiter\<close>

text \<open>What the middleware relies on: tokens come only from refills, one each, and an admission takes one.\<close>

locale limiter =
  fixes acquire :: "'b \<Rightarrow> 'b \<times> bool"
    and step :: "'b \<Rightarrow> 'e \<Rightarrow> 'b \<Rightarrow> bool"
    and grants :: "'e \<Rightarrow> bool"
    and adds :: "'e \<Rightarrow> bool"
    and available :: "'b \<Rightarrow> nat"
  assumes acquire_some: "available b > 0 \<Longrightarrow> snd (acquire b)"
    and step_grant: "step b e b' \<Longrightarrow> grants e \<Longrightarrow> available b = Suc (available b')"
    and step_add: "step b e b' \<Longrightarrow> adds e \<Longrightarrow> available b' \<le> Suc (available b)"
    and step_other: "step b e b' \<Longrightarrow> \<not> grants e \<Longrightarrow> \<not> adds e \<Longrightarrow> available b' \<le> available b"
    and disjoint: "\<not> (grants e \<and> adds e)"
begin

inductive steps :: "'b \<Rightarrow> 'e list \<Rightarrow> 'b \<Rightarrow> bool" where
  steps_nil: "steps b [] b"
| steps_cons: "step b e b1 \<Longrightarrow> steps b1 es b2 \<Longrightarrow> steps b (e # es) b2"

lemma granted_bound:
  "steps b es b' \<Longrightarrow> length (filter grants es) + available b' \<le> available b + length (filter adds es)"
proof (induction rule: steps.induct)
  case (steps_cons b e b1 es b2)
  then show ?case
    using step_grant [of b e b1] step_add [of b e b1] step_other [of b e b1] disjoint [of e]
    by (cases "grants e"; cases "adds e") auto
qed simp

end


interpretation bucket: limiter TryAcquire tb_step "\<lambda>e. e = Acquire True" "\<lambda>e. e = Tick" tb_tokens
proof unfold_locales
  show "tb_tokens b' \<le> tb_tokens b" if "tb_step b e b'" "e \<noteq> Acquire True" "e \<noteq> Tick" for b e b'
    using that by (auto elim!: tb_step_elims simp: TryAcquire_def Stop_def split: if_splits)
qed (auto simp: TryAcquire_def refill_def elim!: tb_step_elims split: if_splits)

lemma tb_run_steps: "tb_run tb evs tb' \<Longrightarrow> bucket.steps tb evs tb'"
  by (induction rule: tb_run.induct) (auto intro: bucket.steps.intros)

section \<open>The invariant\<close>

definition tb_ok :: "TokenBucket \<Rightarrow> bool" where
  "tb_ok tb \<longleftrightarrow> int (tb_tokens tb) \<le> tb_capacity tb \<and> 0 < tb_interval tb"

lemma tb_step_ok: "tb_step tb ev tb' \<Longrightarrow> tb_ok tb \<Longrightarrow> tb_ok tb' \<and> tb_capacity tb' = tb_capacity tb \<and> tb_interval tb' = tb_interval tb"
  by (auto elim!: tb_step_elims simp: tb_ok_def refill_def TryAcquire_def Stop_def split: if_splits)

lemma tb_run_ok:
  "tb_run tb evs tb' \<Longrightarrow> tb_ok tb \<Longrightarrow> tb_ok tb' \<and> tb_capacity tb' = tb_capacity tb \<and> tb_interval tb' = tb_interval tb"
  by (induction rule: tb_run.induct) (auto dest: tb_step_ok)

lemma everyMs_pos_iff: "0 < everyMs rate \<longleftrightarrow> 1 \<le> rate \<and> rate \<le> 1000"
proof (cases "0 < rate")
  case True
  then have "everyMs rate = 1000 div rate" by (simp add: everyMs_def signed_divide_int_def)
  with True show ?thesis by (simp add: pos_imp_zdiv_pos_iff)
next
  case False
  then have "everyMs rate \<le> 0"
    by (cases "rate = 0") (auto simp: everyMs_def signed_divide_int_def pos_imp_zdiv_nonneg_iff)
  with False show ?thesis by auto
qed

lemma NewTokenBucket_Inr:
  "NewTokenBucket rate capacity = Inr tb \<Longrightarrow> tb_ok tb \<and> int (tb_tokens tb) = capacity \<and> tb_capacity tb = capacity
     \<and> tb_interval tb = everyMs rate * Millisecond \<and> tb_running tb \<and> 1 \<le> rate \<and> rate \<le> 1000"
  using everyMs_pos_iff [of rate] by (auto simp: NewTokenBucket_def tb_ok_def go_time split: if_splits)

lemma acquires_answers:
  "tb_run tb (map Acquire oks) tb' \<Longrightarrow>
     oks = replicate (min (length oks) (tb_tokens tb)) True @ replicate (length oks - tb_tokens tb) False"
proof (induction oks arbitrary: tb)
  case (Cons ok oks)
  from Cons.prems obtain tb1 where step: "TryAcquire tb = (tb1, ok)" and run: "tb_run tb1 (map Acquire oks) tb'"
    by (auto elim!: tb_run_ConsE tb_acquireE)
  show ?case
  proof (cases "tb_tokens tb = 0")
    case True
    with step have "\<not> ok" "tb_tokens tb1 = 0" by (auto simp: TryAcquire_def)
    with Cons.IH [OF run] True show ?thesis by simp
  next
    case False
    with step have "ok" "tb_tokens tb = Suc (tb_tokens tb1)" by (auto simp: TryAcquire_def)
    with Cons.IH [OF run] show ?thesis by simp
  qed
qed simp

lemma stopped_no_ticks:
  "tb_run tb evs tb' \<Longrightarrow> \<not> tb_running tb \<Longrightarrow> filter (\<lambda>e. e = Tick) evs = []"
proof (induction rule: tb_run.induct)
  case (cons tb ev tb1 evs tb2)
  then have "\<not> tb_running tb1" and "ev \<noteq> Tick"
    by (auto elim!: tb_step_elims simp: TryAcquire_def Stop_def split: if_splits)
  with cons show ?case by simp
qed simp

section \<open>Properties\<close>


lemma run_two_acquires: "tb_run \<lparr>tb_capacity = 1, tb_tokens = 1, tb_interval = 500000000, tb_cancelled = False, tb_running = True\<rparr>
    [Acquire True, Acquire False, Tick, Acquire True]
    \<lparr>tb_capacity = 1, tb_tokens = 0, tb_interval = 500000000, tb_cancelled = False, tb_running = True\<rparr>"
  by (rule tb_run.intros tb_step.intros | simp add: TryAcquire_def refill_def tb_step.simps)+



text \<open>
  A fresh bucket admits exactly its capacity in a burst: of \<open>n\<close> acquires with no refill in between, the first
  \<open>min n capacity\<close> succeed and all later ones fail; at no time does a bucket hold more tokens than its capacity, and once its goroutine has
  ended it admits no more than what is left in it.
\<close>

theorem bucket_burst:
  assumes "NewTokenBucket rate capacity = Inr tb"
  shows "(\<forall>oks tb'. tb_run tb (map Acquire oks) tb' \<longrightarrow>
       oks = replicate (min (length oks) (nat capacity)) True @ replicate (length oks - nat capacity) False)
    \<and> (\<forall>evs tb'. tb_run tb evs tb' \<longrightarrow> int (tb_tokens tb') \<le> capacity)
    \<and> (\<forall>evs tb1 evs' tb2. tb_run tb evs tb1 \<longrightarrow> \<not> tb_running tb1 \<longrightarrow> tb_run tb1 evs' tb2 \<longrightarrow>
         length (filter (\<lambda>e. e = Acquire True) evs') \<le> tb_tokens tb1)"
proof -
  note new = NewTokenBucket_Inr [OF assms]
  then have "tb_tokens tb = nat capacity" by auto
  with acquires_answers [of tb] have "\<forall>oks tb'. tb_run tb (map Acquire oks) tb' \<longrightarrow>
       oks = replicate (min (length oks) (nat capacity)) True @ replicate (length oks - nat capacity) False" by metis
  moreover have "\<forall>evs tb'. tb_run tb evs tb' \<longrightarrow> int (tb_tokens tb') \<le> capacity"
    using new tb_run_ok by (fastforce simp: tb_ok_def)
  moreover have "length (filter (\<lambda>e. e = Acquire True) evs') \<le> tb_tokens tb1"
    if "\<not> tb_running tb1" "tb_run tb1 evs' tb2" for evs' tb1 tb2
    using bucket.granted_bound [OF tb_run_steps [OF that(2)]] stopped_no_ticks [OF that(2,1)] by simp
  ultimately show ?thesis by blast
qed

theorem bucket_burst_witness:
  "\<not> (\<exists>tb'. tb_run \<lparr>tb_capacity = 1, tb_tokens = 1, tb_interval = 500000000, tb_cancelled = False, tb_running = True\<rparr>
      (map Acquire [True, True]) tb')"
proof
  assume "\<exists>tb'. tb_run \<lparr>tb_capacity = 1, tb_tokens = 1, tb_interval = 500000000, tb_cancelled = False, tb_running = True\<rparr>
      (map Acquire [True, True]) tb'"
  then obtain tb' where run: "tb_run \<lparr>tb_capacity = 1, tb_tokens = 1, tb_interval = 500000000, tb_cancelled = False, tb_running = True\<rparr>
      (map Acquire [True, True]) tb'" by blast
  have "NewTokenBucket 2 1 = Inr \<lparr>tb_capacity = 1, tb_tokens = 1, tb_interval = 500000000, tb_cancelled = False, tb_running = True\<rparr>"
    by (simp add: NewTokenBucket_def everyMs_def signed_divide_int_def go_time)
  from conjunct1 [OF bucket_burst [OF this], rule_format, OF run] show False by simp
qed

text \<open>
  The refill interval is rounded down to whole milliseconds, so a bucket never refills slower than its rate, but it may
  refill faster: an interval lies between one and less than one millisecond short of the rate's own.
\<close>

theorem bucket_rate_rounding:
  assumes "NewTokenBucket rate capacity = Inr tb"
  shows "rate * tb_interval tb \<le> Second \<and> Second < rate * (tb_interval tb + Millisecond)"
proof -
  note new = NewTokenBucket_Inr [OF assms]
  then have "everyMs rate = 1000 div rate" by (simp add: everyMs_def signed_divide_int_def)
  moreover have "rate * (1000 div rate) \<le> 1000" "1000 < rate * (1000 div rate) + rate"
    using new mult_div_mod_eq [of rate 1000] pos_mod_bound [of rate 1000] pos_mod_sign [of rate 1000] by linarith+
  ultimately have ms: "rate * everyMs rate \<le> 1000" "1000 < rate * everyMs rate + rate" by simp_all
  have interval: "rate * tb_interval tb = 1000000 * (rate * everyMs rate)"
    "rate * (tb_interval tb + Millisecond) = 1000000 * (rate * everyMs rate + rate)"
    using new by (simp_all add: Millisecond_def distrib_left mult.assoc mult.left_commute)
  have second: "Second = 1000000 * 1000" by (simp add: Second_def)
  show ?thesis unfolding interval second
    using mult_left_mono [OF ms(1), of 1000000] mult_strict_left_mono [OF ms(2), of 1000000] by simp
qed

theorem bucket_rate_rounding_witness:
  "\<exists>tb. NewTokenBucket 600 5 = Inr tb \<and> tb_interval tb = Millisecond \<and> Second < 600 * (tb_interval tb + Millisecond)"
proof -
  have "NewTokenBucket 600 5 = Inr \<lparr>tb_capacity = 5, tb_tokens = 5, tb_interval = Millisecond, tb_cancelled = False, tb_running = True\<rparr>"
    by (simp add: NewTokenBucket_def everyMs_def signed_divide_int_def go_time)
  from bucket_rate_rounding [OF this] this show ?thesis by simp
qed

end
