(* ===== verification/Config.thy ===== *)
theory Config
  imports Rate_Limit
begin

text \<open>
  Package \<^verbatim>\<open>internal/config\<close> (\<^verbatim>\<open>config.go\<close>) and the data source name that \<^verbatim>\<open>internal/database/database.go\<close> builds from it. The library that reads
  the environment is a parameter: the outcome of \<^verbatim>\<open>ReadInConfig\<close> and the two lookups. The package variable
  \<^verbatim>\<open>cfg\<close> is a \<open>Config option\<close>. The error of \<^verbatim>\<open>validate\<close> joins the missing keys in the iteration order
  of a Go map, which is unspecified: the model keeps the set of keys.
\<close>

section \<open>Model\<close>

record Config =
  PostgresHost :: string
  PostgresPort :: string
  PostgresUser :: string
  PostgresPassword :: string
  PostgresDB :: string
  AccessSecret :: string
  JWTIssuer :: string
  JWTAudience :: string
  RedisAddr :: string
  RedisPassword :: string
  RabbitMQHost :: string
  RabbitMQUser :: string
  RabbitMQPass :: string
  RabbitMQVHost :: string
  RateLimitRate :: int
  RateLimitCapacity :: int

record viper =
  vp_ReadInConfig :: "string option"
  vp_GetString :: "string \<Rightarrow> string"
  vp_GetInt :: "string \<Rightarrow> int"

definition read_config :: "viper \<Rightarrow> Config" where
  "read_config v =
     \<lparr>PostgresHost = vp_GetString v ''POSTGRES_HOST'', PostgresPort = vp_GetString v ''POSTGRES_PORT'',
      PostgresUser = vp_GetString v ''POSTGRES_USER'', PostgresPassword = vp_GetString v ''POSTGRES_PASSWORD'',
      PostgresDB = vp_GetString v ''POSTGRES_DB'', AccessSecret = vp_GetString v ''ACCESS_SECRET'',
      JWTIssuer = vp_GetString v ''JWT_ISSUER'', JWTAudience = vp_GetString v ''JWT_AUDIENCE'',
      RedisAddr = vp_GetString v ''REDIS_ADDR'', RedisPassword = vp_GetString v ''REDIS_PASSWORD'',
      RabbitMQHost = vp_GetString v ''RABBITMQ_HOST'', RabbitMQUser = vp_GetString v ''RABBITMQ_DEFAULT_USER'',
      RabbitMQPass = vp_GetString v ''RABBITMQ_DEFAULT_PASS'', RabbitMQVHost = vp_GetString v ''RABBITMQ_DEFAULT_VHOST'',
      RateLimitRate = vp_GetInt v ''RATE_LIMIT_RATE'', RateLimitCapacity = vp_GetInt v ''RATE_LIMIT_CAPACITY''\<rparr>"

definition config_defaults :: "Config \<Rightarrow> Config" where
  "config_defaults c =
     (let c = (if RedisAddr c = '''' then c\<lparr>RedisAddr := ''localhost:6379''\<rparr> else c);
          c = (if RateLimitRate c = 0 then c\<lparr>RateLimitRate := 2\<rparr> else c)
      in if RateLimitCapacity c = 0 then c\<lparr>RateLimitCapacity := 5\<rparr> else c)"

definition required :: "Config \<Rightarrow> (string \<times> string) list" where
  "required c =
     [(''POSTGRES_HOST'', PostgresHost c), (''POSTGRES_PORT'', PostgresPort c), (''POSTGRES_USER'', PostgresUser c),
      (''POSTGRES_PASSWORD'', PostgresPassword c), (''POSTGRES_DB'', PostgresDB c), (''ACCESS_SECRET'', AccessSecret c),
      (''JWT_ISSUER'', JWTIssuer c), (''JWT_AUDIENCE'', JWTAudience c), (''RABBITMQ_HOST'', RabbitMQHost c),
      (''RABBITMQ_DEFAULT_USER'', RabbitMQUser c), (''RABBITMQ_DEFAULT_PASS'', RabbitMQPass c),
      (''RABBITMQ_DEFAULT_VHOST'', RabbitMQVHost c)]"

datatype config_error = ReadConfigError string | MissingConfig "string set"

definition validate :: "Config \<Rightarrow> config_error option" where
  "validate c =
     (let missing = set (map fst (filter (\<lambda>(key, val). val = '''') (required c)))
      in if missing \<noteq> {} then Some (MissingConfig missing) else None)"

definition Load :: "viper \<Rightarrow> Config option \<Rightarrow> Config option \<times> config_error option" where
  "Load v cfg = (case vp_ReadInConfig v of
       Some e \<Rightarrow> (cfg, Some (ReadConfigError e))
     | None \<Rightarrow>
         (let c = config_defaults (read_config v)
          in case validate c of Some e \<Rightarrow> (cfg, Some e) | None \<Rightarrow> (Some c, None)))"

datatype 'a go_panic = Panic string | Returns 'a

definition Get :: "Config option \<Rightarrow> Config go_panic" where
  "Get cfg = (case cfg of None \<Rightarrow> Panic ''config.Get called before config.Load'' | Some c \<Rightarrow> Returns c)"

definition RabbitMQURL :: "Config \<Rightarrow> string" where
  "RabbitMQURL c = ''amqp://'' @ RabbitMQUser c @ '':'' @ RabbitMQPass c @ ''@'' @ RabbitMQHost c @ '':5672/'' @ RabbitMQVHost c"

subsection \<open>Connecting to the database\<close>

definition postgres_dsn :: "Config \<Rightarrow> string" where
  "postgres_dsn c = ''postgres://'' @ PostgresUser c @ '':'' @ PostgresPassword c @ ''@'' @ PostgresHost c
     @ '':'' @ PostgresPort c @ ''/'' @ PostgresDB c @ ''?sslmode=disable''"

record pool_settings =
  MaxOpenConns :: nat
  MaxIdleConns :: nat
  ConnMaxLifetime :: duration
  ConnMaxIdleTime :: duration

datatype connect_db_error = GormOpenError string | GetSqlDBError string | PostgresPingError string

definition ConnectDB ::
  "(string \<Rightarrow> string + 'd) \<Rightarrow> ('d \<Rightarrow> string option) \<Rightarrow> ('d \<Rightarrow> pool_settings \<Rightarrow> 'd) \<Rightarrow> ('d \<Rightarrow> string option) \<Rightarrow>
   Config \<Rightarrow> connect_db_error + 'd"
where
  "ConnectDB gormOpen sqlDBErr setPool ping c = (case gormOpen (postgres_dsn c) of
       Inl e \<Rightarrow> Inl (GormOpenError e)
     | Inr db \<Rightarrow> (case sqlDBErr db of
           Some e \<Rightarrow> Inl (GetSqlDBError e)
         | None \<Rightarrow>
             (let db' = setPool db \<lparr>MaxOpenConns = 25, MaxIdleConns = 10, ConnMaxLifetime = 5 * Minute, ConnMaxIdleTime = 2 * Minute\<rparr>
              in case ping db' of Some e \<Rightarrow> Inl (PostgresPingError e) | None \<Rightarrow> Inr db')))"

section \<open>Properties\<close>

lemma required_defaults: "required (config_defaults c) = required c"
  by (simp add: config_defaults_def required_def Let_def)

lemma Load_ok:
  assumes "vp_ReadInConfig v = None" and "validate (read_config v) = None"
  shows "Load v cfg = (Some (config_defaults (read_config v)), None)"
proof -
  have "validate (config_defaults (read_config v)) = None"
    using assms(2) unfolding validate_def required_defaults .
  with assms(1) show ?thesis by (simp add: Load_def)
qed

lemma validate_None_iff: "validate c = None \<longleftrightarrow> (\<forall>(key, val)\<in>set (required c). val \<noteq> '''')"
  by (auto simp: validate_def Let_def filter_empty_conv)

lemma validate_missing: "validate c = Some (MissingConfig ks) \<Longrightarrow> ks = {key. (key, '''') \<in> set (required c)}"
  by (auto simp: validate_def Let_def image_iff split: if_splits)



text \<open>
  \<^verbatim>\<open>Load\<close> does not check the rate limit: it accepts configurations for which making the token bucket panics.
\<close>

theorem load_accepts_panicking_rate_limit:
  "\<exists>v c. Load v None = (Some c, None) \<and> NewTokenBucket (RateLimitRate c) (RateLimitCapacity c) = Inl PanicTicker"
proof -
  let ?v = "\<lparr>vp_ReadInConfig = None, vp_GetString = (\<lambda>k. ''x''), vp_GetInt = (\<lambda>k. 2000::int)\<rparr>"
  have "Load ?v None = (Some (config_defaults (read_config ?v)), None)"
    by (rule Load_ok) (simp_all add: validate_def required_def read_config_def)
  moreover have "NewTokenBucket (RateLimitRate (config_defaults (read_config ?v))) (RateLimitCapacity (config_defaults (read_config ?v))) = Inl PanicTicker"
    by (simp add: config_defaults_def read_config_def Let_def NewTokenBucket_def everyMs_def signed_divide_int_def)
  ultimately show ?thesis by blast
qed

end
