(* ===== verification/Redis.thy ===== *)
theory Redis
  imports Jobflow_Prelude
begin

text \<open>
  Package \<^verbatim>\<open>internal/redis\<close> (\<^verbatim>\<open>redisConnection.go\<close>, \<^verbatim>\<open>pubsub.go\<close>). The client library and the server are a
  parameter: a record of the calls the program makes on an abstract state. \<open>redis_pubsub\<close> and \<open>redis_keys\<close>
  state the documented behaviour the program relies on; the reference server at the end satisfies both.
\<close>

section \<open>The client library\<close>

record redis_options =
  ro_Addr :: string
  ro_Password :: string
  ro_DB :: int

record 'rd redis_client =
  rc_Publish :: "string \<Rightarrow> string \<Rightarrow> 'rd \<Rightarrow> 'rd \<times> string option"
  rc_Set :: "string \<Rightarrow> string \<Rightarrow> duration \<Rightarrow> 'rd \<Rightarrow> 'rd \<times> string option"
  rc_Exists :: "string \<Rightarrow> 'rd \<Rightarrow> 'rd \<times> (string + nat)"
  rc_Ping :: "'rd \<Rightarrow> 'rd \<times> string option"

section \<open>Model\<close>

text \<open>\<^verbatim>\<open>NewRedis\<close>: the instance behind \<^verbatim>\<open>once\<close> is made by the first call and returned by all of them.\<close>

definition NewRedis :: "(redis_options \<Rightarrow> 'c) \<Rightarrow> string \<Rightarrow> string \<Rightarrow> 'c option \<Rightarrow> 'c option \<times> 'c" where
  "NewRedis newClient addr password inst = (case inst of
       Some c \<Rightarrow> (inst, c)
     | None \<Rightarrow> (let c = newClient \<lparr>ro_Addr = addr, ro_Password = password, ro_DB = 0\<rparr> in (Some c, c)))"

datatype redis_error = RedisPublishError (re_channel: string) (re_cause: string)

definition redis_Publish :: "'rd redis_client \<Rightarrow> string \<Rightarrow> string \<Rightarrow> 'rd \<Rightarrow> 'rd \<times> redis_error option" where
  "redis_Publish c channel payload rd = (case rc_Publish c channel payload rd of
       (rd', Some e) \<Rightarrow> (rd', Some (RedisPublishError channel e))
     | (rd', None) \<Rightarrow> (rd', None))"

section \<open>What the program relies on\<close>

text \<open>\<open>published\<close> is the log of messages the server has relayed.\<close>

locale redis_pubsub =
  fixes c :: "'rd redis_client"
    and published :: "'rd \<Rightarrow> (string \<times> string) list"
  assumes rc_publish_ok: "rc_Publish c ch p rd = (rd', None) \<Longrightarrow> published rd' = published rd @ [(ch, p)]"
    and rc_publish_err: "rc_Publish c ch p rd = (rd', Some e) \<Longrightarrow> published rd' = published rd"
begin

lemma redis_Publish_log:
  assumes "redis_Publish c ch p rd = (rd', r)"
  shows "published rd' = published rd @ (if r = None then [(ch, p)] else [])"
  using assms by (auto simp: redis_Publish_def rc_publish_ok rc_publish_err split: prod.splits option.splits)

end

text \<open>
  Keys with an expiry. \<open>expiry rd k\<close> is the time at which key \<open>k\<close> disappears, \<open>rnow\<close> the server's clock, which
  no call turns back. The client sends the lifetime in whole milliseconds.
\<close>

locale redis_keys =
  fixes c :: "'rd redis_client"
    and rnow :: "'rd \<Rightarrow> time"
    and expiry :: "'rd \<Rightarrow> string \<Rightarrow> time option"
  assumes set_ok: "rc_Set c k v ttl rd = (rd', None) \<Longrightarrow> 0 < ttl \<Longrightarrow>
        \<exists>x. expiry rd' = (expiry rd)(k \<mapsto> x) \<and> rnow rd + ttl - Millisecond < x"
    and set_err: "rc_Set c k v ttl rd = (rd', Some e) \<Longrightarrow> expiry rd' = expiry rd"
    and set_time: "rc_Set c k v ttl rd = (rd', r) \<Longrightarrow> rnow rd \<le> rnow rd'"
    and exists_ok: "rc_Exists c k rd = (rd', Inr n) \<Longrightarrow>
        0 < n \<longleftrightarrow> (\<exists>x. expiry rd k = Some x \<and> rnow rd < x)"
    and exists_frame: "rc_Exists c k rd = (rd', res) \<Longrightarrow> expiry rd' = expiry rd \<and> rnow rd \<le> rnow rd'"

section \<open>A reference server\<close>

record ref_redis =
  rr_log :: "(string \<times> string) list"
  rr_keys :: "(string \<times> time) list"
  rr_now :: time
  rr_failures :: nat

definition rr_init :: ref_redis where
  "rr_init = \<lparr>rr_log = [], rr_keys = [], rr_now = 0, rr_failures = 0\<rparr>"

definition rr_call :: "(ref_redis \<Rightarrow> ref_redis) \<Rightarrow> ref_redis \<Rightarrow> ref_redis \<times> string option" where
  "rr_call f r = (if rr_failures r = 0 then (f r, None)
     else (r\<lparr>rr_failures := rr_failures r - 1\<rparr>, Some ''connection refused''))"

definition ref_client :: "ref_redis redis_client" where
  "ref_client =
     \<lparr>rc_Publish = (\<lambda>ch p. rr_call (\<lambda>r. r\<lparr>rr_log := rr_log r @ [(ch, p)]\<rparr>)),
      rc_Set = (\<lambda>k v ttl. rr_call (\<lambda>r. r\<lparr>rr_keys := (k, rr_now r + ttl) # rr_keys r\<rparr>)),
      rc_Exists = (\<lambda>k r. case rr_call id r of
           (r', Some e) \<Rightarrow> (r', Inl e)
         | (r', None) \<Rightarrow> (r', Inr (case map_of (rr_keys r) k of
               None \<Rightarrow> 0 | Some x \<Rightarrow> if rr_now r < x then 1 else 0))),
      rc_Ping = rr_call id\<rparr>"

lemmas rr_defs = ref_client_def rr_call_def

interpretation rr: redis_pubsub ref_client rr_log
  by unfold_locales (auto simp: rr_defs split: if_splits)

interpretation rr: redis_keys ref_client rr_now "\<lambda>r. map_of (rr_keys r)"
  by unfold_locales (auto simp: rr_defs go_time split: if_splits option.splits)

end
