(* ===== verification/Auth_Token.thy ===== *)
theory Auth_Token
  imports Config Redis
begin

text \<open>
  \<^verbatim>\<open>internal/auth/token.go\<close>, \<^verbatim>\<open>password.go\<close> and \<^verbatim>\<open>jti_store.go\<close>: refresh tokens and their SHA-256 digests, access tokens, password hashes
  and the denylist of token ids.

  SHA-256 and hex encoding are written out (bytes and 32-bit words). The random source is a stream of draws, each of which gives bytes or an error. The JWT and
  bcrypt packages are parameters: records of the calls the code makes, with their documented behaviour in the
  locales \<open>jwt_lib\<close> and \<open>bcrypt_lib\<close>.
\<close>

section \<open>Hexadecimal and SHA-256\<close>

definition hex_byte :: "nat \<Rightarrow> string" where
  "hex_byte b = [hex_digit (b div 16), hex_digit (b mod 16)]"

definition EncodeToString :: "nat list \<Rightarrow> string" where
  "EncodeToString bs = concat (map hex_byte bs)"

type_synonym w32 = "32 word"

definition sha_K :: "w32 list" where
  "sha_K = [
    1116352408, 1899447441, 3049323471, 3921009573, 961987163, 1508970993, 2453635748, 2870763221,
    3624381080, 310598401, 607225278, 1426881987, 1925078388, 2162078206, 2614888103, 3248222580,
    3835390401, 4022224774, 264347078, 604807628, 770255983, 1249150122, 1555081692, 1996064986,
    2554220882, 2821834349, 2952996808, 3210313671, 3336571891, 3584528711, 113926993, 338241895,
    666307205, 773529912, 1294757372, 1396182291, 1695183700, 1986661051, 2177026350, 2456956037,
    2730485921, 2820302411, 3259730800, 3345764771, 3516065817, 3600352804, 4094571909, 275423344,
    430227734, 506948616, 659060556, 883997877, 958139571, 1322822218, 1537002063, 1747873779,
    1955562222, 2024104815, 2227730452, 2361852424, 2428436474, 2756734187, 3204031479, 3329325298]"

definition sha_init :: "w32 list" where
  "sha_init = [1779033703, 3144134277, 1013904242, 2773480762, 1359893119, 2600822924, 528734635, 1541459225]"

unbundle bit_operations_syntax

definition rotr :: "nat \<Rightarrow> w32 \<Rightarrow> w32" where
  "rotr n w = drop_bit n w OR push_bit (32 - n) w"

definition sha_s0 :: "w32 \<Rightarrow> w32" where "sha_s0 x = rotr 7 x XOR rotr 18 x XOR drop_bit 3 x"
definition sha_s1 :: "w32 \<Rightarrow> w32" where "sha_s1 x = rotr 17 x XOR rotr 19 x XOR drop_bit 10 x"
definition sha_S0 :: "w32 \<Rightarrow> w32" where "sha_S0 x = rotr 2 x XOR rotr 13 x XOR rotr 22 x"
definition sha_S1 :: "w32 \<Rightarrow> w32" where "sha_S1 x = rotr 6 x XOR rotr 11 x XOR rotr 25 x"
definition sha_ch :: "w32 \<Rightarrow> w32 \<Rightarrow> w32 \<Rightarrow> w32" where "sha_ch x y z = (x AND y) XOR (NOT x AND z)"
definition sha_maj :: "w32 \<Rightarrow> w32 \<Rightarrow> w32 \<Rightarrow> w32" where "sha_maj x y z = (x AND y) XOR (x AND z) XOR (y AND z)"

fun sha_schedule :: "nat \<Rightarrow> w32 list \<Rightarrow> w32 list" where
  "sha_schedule 0 ws = ws"
| "sha_schedule (Suc n) ws =
     (let t = length ws
      in sha_schedule n (ws @ [sha_s1 (ws ! (t - 2)) + ws ! (t - 7) + sha_s0 (ws ! (t - 15)) + ws ! (t - 16)]))"

definition sha_round :: "w32 list \<Rightarrow> w32 \<times> w32 \<Rightarrow> w32 list" where
  "sha_round st kw = (case st of
       [a, b, c, d, e, f, g, h] \<Rightarrow>
         (let t1 = h + sha_S1 e + sha_ch e f g + fst kw + snd kw; t2 = sha_S0 a + sha_maj a b c
          in [t1 + t2, a, b, c, d + t1, e, f, g])
     | _ \<Rightarrow> st)"

definition be_word :: "nat list \<Rightarrow> w32" where
  "be_word bs = foldl (\<lambda>w b. push_bit 8 w OR word_of_nat b) 0 bs"

fun chunks :: "nat \<Rightarrow> nat \<Rightarrow> nat list \<Rightarrow> nat list list" where
  "chunks 0 n bs = []"
| "chunks (Suc k) n bs = take n bs # chunks k n (drop n bs)"

definition sha_block :: "w32 list \<Rightarrow> nat list \<Rightarrow> w32 list" where
  "sha_block hs block =
     (let ws = sha_schedule 48 (map be_word (chunks 16 4 block))
      in map2 (+) hs (foldl sha_round hs (zip sha_K ws)))"

definition be_bytes :: "nat \<Rightarrow> nat \<Rightarrow> nat list" where
  "be_bytes k n = map (\<lambda>i. (n div 256 ^ (k - 1 - i)) mod 256) [0..<k]"

definition sha_pad :: "nat list \<Rightarrow> nat list" where
  "sha_pad bs = bs @ [128] @ replicate ((119 - length bs mod 64) mod 64) 0 @ be_bytes 8 (8 * length bs)"

definition Sum256 :: "nat list \<Rightarrow> nat list" where
  "Sum256 bs = (let p = sha_pad bs
     in concat (map (\<lambda>w. be_bytes 4 (unat w)) (foldl sha_block sha_init (chunks (length p div 64) 64 p))))"

section \<open>Random bytes\<close>

type_synonym entropy = "(string + (nat \<Rightarrow> nat)) stream"

definition rand_Read :: "nat \<Rightarrow> entropy \<Rightarrow> entropy \<times> (string + nat list)" where
  "rand_Read n e = (stl e, case shd e of Inl err \<Rightarrow> Inl err | Inr f \<Rightarrow> Inr (map (\<lambda>i. f i mod 256) [0..<n]))"

section \<open>Refresh tokens\<close>

definition AccessTokenTTL :: duration where [go_time]: "AccessTokenTTL = 15 * Minute"
definition RefreshTokenTTL :: duration where [go_time]: "RefreshTokenTTL = 7 * 24 * Hour"

definition HashToken :: "string \<Rightarrow> string" where
  "HashToken token = EncodeToString (Sum256 (map byte token))"

definition GenerateRefreshToken :: "entropy \<Rightarrow> entropy \<times> (string + string \<times> string)" where
  "GenerateRefreshToken e = (case rand_Read 32 e of
       (e', Inl err) \<Rightarrow> (e', Inl err)
     | (e', Inr bytes) \<Rightarrow> (let rawToken = EncodeToString bytes in (e', Inr (rawToken, HashToken rawToken))))"

definition generateJTI :: "entropy \<Rightarrow> entropy \<times> (string + string)" where
  "generateJTI e = (case rand_Read 16 e of
       (e', Inl err) \<Rightarrow> (e', Inl err)
     | (e', Inr bytes) \<Rightarrow> (e', Inr (EncodeToString bytes)))"

section \<open>Access tokens\<close>

record RegisteredClaims =
  cl_Issuer :: string
  cl_Subject :: string
  cl_Audience :: "string list"
  cl_ID :: string
  cl_IssuedAt :: "time option"
  cl_NotBefore :: "time option"
  cl_ExpiresAt :: "time option"

datatype jwt_method = HMAC string | OtherMethod string

record parse_options =
  po_Issuer :: string
  po_Audience :: string
  po_ExpirationRequired :: bool
  po_IssuedAt :: bool

record jwt =
  jwt_SignedString :: "jwt_method \<Rightarrow> string \<Rightarrow> RegisteredClaims \<Rightarrow> string + string"
  jwt_ParseWithClaims :: "(jwt_method \<Rightarrow> string + string) \<Rightarrow> parse_options \<Rightarrow> time \<Rightarrow> string \<Rightarrow> string + bool \<times> RegisteredClaims"

definition NumericDate :: "time \<Rightarrow> time" where
  \<comment> \<open>\<^verbatim>\<open>jwt.NewNumericDate\<close> truncates to whole seconds\<close>
  "NumericDate t = t div Second * Second"

definition HS256 :: jwt_method where "HS256 = HMAC ''HS256''"

definition getJWTSecret :: "Config \<Rightarrow> string" where
  [simp]: "getJWTSecret cfg = AccessSecret cfg"

definition getJWTIssuer :: "Config \<Rightarrow> string" where
  [simp]: "getJWTIssuer cfg = JWTIssuer cfg"

definition getJWTAudience :: "Config \<Rightarrow> string" where
  [simp]: "getJWTAudience cfg = JWTAudience cfg"

definition CreateToken :: "jwt \<Rightarrow> Config \<Rightarrow> string \<Rightarrow> entropy \<Rightarrow> clock \<Rightarrow> entropy \<times> clock \<times> (string + string)" where
  "CreateToken j cfg userID e clk = (case generateJTI e of
       (e', Inl err) \<Rightarrow> (e', clk, Inl err)
     | (e', Inr jti) \<Rightarrow>
         (let (now, clk') = time_Now clk
          in (e', clk', jwt_SignedString j HS256 (getJWTSecret cfg)
               \<lparr>cl_Issuer = getJWTIssuer cfg, cl_Subject = userID, cl_Audience = [getJWTAudience cfg], cl_ID = jti,
                cl_IssuedAt = Some (NumericDate now), cl_NotBefore = Some (NumericDate now),
                cl_ExpiresAt = Some (NumericDate (now + AccessTokenTTL))\<rparr>)))"

record AccessClaims =
  ac_UserID :: string
  ac_JTI :: string
  ac_ExpiresAt :: time

definition keyFunc :: "Config \<Rightarrow> jwt_method \<Rightarrow> string + string" where
  "keyFunc cfg m = (case m of HMAC _ \<Rightarrow> Inr (getJWTSecret cfg) | OtherMethod alg \<Rightarrow> Inl (''unexpected signing method: '' @ alg))"

definition access_options :: "Config \<Rightarrow> parse_options" where
  "access_options cfg = \<lparr>po_Issuer = getJWTIssuer cfg, po_Audience = getJWTAudience cfg, po_ExpirationRequired = True, po_IssuedAt = True\<rparr>"

definition ParseAccessToken :: "jwt \<Rightarrow> Config \<Rightarrow> time \<Rightarrow> string \<Rightarrow> string + AccessClaims" where
  "ParseAccessToken j cfg now tokenString =
     (case jwt_ParseWithClaims j (keyFunc cfg) (access_options cfg) now tokenString of
        Inl err \<Rightarrow> Inl err
      | Inr (valid, claims) \<Rightarrow>
          if \<not> valid then Inl ''invalid token''
          else if cl_Subject claims = '''' \<or> cl_ID claims = '''' then Inl ''missing required claims''
          else (case cl_ExpiresAt claims of
                  None \<Rightarrow> Inl ''missing exp claim''
                | Some t \<Rightarrow> Inr \<lparr>ac_UserID = cl_Subject claims, ac_JTI = cl_ID claims, ac_ExpiresAt = t\<rparr>))"

section \<open>Passwords\<close>

record bcrypt =
  bc_GenerateFromPassword :: "string \<Rightarrow> nat \<Rightarrow> entropy \<Rightarrow> entropy \<times> (string + string)"
  bc_CompareHashAndPassword :: "string \<Rightarrow> string \<Rightarrow> string option"

definition bcryptCost :: nat where "bcryptCost = 14"

definition HashPassword :: "bcrypt \<Rightarrow> string \<Rightarrow> entropy \<Rightarrow> entropy \<times> (string + string)" where
  "HashPassword b password e = bc_GenerateFromPassword b password bcryptCost e"

definition CheckPasswordHash :: "bcrypt \<Rightarrow> string \<Rightarrow> string \<Rightarrow> string option" where
  "CheckPasswordHash b password hash = (case bc_CompareHashAndPassword b hash password of Some err \<Rightarrow> Some err | None \<Rightarrow> None)"

section \<open>The denylist of token ids\<close>

definition jtiKey :: "string \<Rightarrow> string" where
  "jtiKey jti = ''jti:revoked:'' @ jti"

definition Revoke :: "'rd redis_client \<Rightarrow> string \<Rightarrow> duration \<Rightarrow> 'rd \<Rightarrow> 'rd \<times> string option" where
  "Revoke c jti ttl rd = (if ttl \<le> 0 then (rd, None) else rc_Set c (jtiKey jti) ''1'' ttl rd)"

definition IsRevoked :: "'rd redis_client \<Rightarrow> string \<Rightarrow> 'rd \<Rightarrow> 'rd \<times> (string + bool)" where
  "IsRevoked c jti rd = (case rc_Exists c (jtiKey jti) rd of
       (rd', Inl err) \<Rightarrow> (rd', Inl err)
     | (rd', Inr n) \<Rightarrow> (rd', Inr (n > 0)))"

section \<open>What the code relies on\<close>

text \<open>
  \<open>genuine m key cl tok\<close>: the signature of the token string \<open>tok\<close> verifies under method \<open>m\<close> and \<open>key\<close>, and its payload decodes to the claims \<open>cl\<close>. The parser
  asks the key function for the key of the token's method and accepts exactly the genuine tokens whose claims meet the options.
\<close>

definition claims_ok :: "parse_options \<Rightarrow> time \<Rightarrow> RegisteredClaims \<Rightarrow> bool" where
  "claims_ok po now cl \<longleftrightarrow>
     (po_Issuer po = '''' \<or> cl_Issuer cl = po_Issuer po)
   \<and> (po_Audience po = '''' \<or> po_Audience po \<in> set (cl_Audience cl))
   \<and> (po_ExpirationRequired po \<longrightarrow> cl_ExpiresAt cl \<noteq> None)
   \<and> (case cl_ExpiresAt cl of None \<Rightarrow> True | Some t \<Rightarrow> now < t)
   \<and> (case cl_NotBefore cl of None \<Rightarrow> True | Some t \<Rightarrow> t \<le> now)
   \<and> (po_IssuedAt po \<longrightarrow> (case cl_IssuedAt cl of None \<Rightarrow> True | Some t \<Rightarrow> t \<le> now))"

locale jwt_lib =
  fixes j :: jwt
    and genuine :: "jwt_method \<Rightarrow> string \<Rightarrow> RegisteredClaims \<Rightarrow> string \<Rightarrow> bool"
  assumes sign_genuine: "jwt_SignedString j m key cl = Inr tok \<Longrightarrow> genuine m key cl tok"
    and parse_sound: "jwt_ParseWithClaims j kf po now tok = Inr (True, cl) \<Longrightarrow>
          claims_ok po now cl \<and> (\<exists>m key. kf m = Inr key \<and> genuine m key cl tok)"
    and parse_complete: "genuine m key cl tok \<Longrightarrow> kf m = Inr key \<Longrightarrow> claims_ok po now cl \<Longrightarrow>
          jwt_ParseWithClaims j kf po now tok = Inr (True, cl)"

locale bcrypt_lib =
  fixes b :: bcrypt
  assumes compare_own: "bc_GenerateFromPassword b p cost e = (e', Inr h) \<Longrightarrow> bc_CompareHashAndPassword b h p = None"

section \<open>Facts\<close>

lemma EncodeToString_length: "length (EncodeToString bs) = 2 * length bs"
  by (induction bs) (auto simp: EncodeToString_def hex_byte_def)

lemma length_sha_round: "length (sha_round st kw) = length st"
  by (auto simp: sha_round_def Let_def split: list.splits)

lemma length_sha_rounds: "length (foldl sha_round st kws) = length st"
  by (induction kws arbitrary: st) (auto simp: length_sha_round)

lemma length_sha_blocks: "length (foldl sha_block st bs) = length st"
  by (induction bs arbitrary: st) (auto simp: sha_block_def Let_def length_sha_rounds)

lemma length_HashToken: "length (HashToken token) = 64"
proof -
  have "length (concat (map (\<lambda>w. be_bytes 4 (unat w)) ws)) = 4 * length ws" for ws :: "w32 list"
    by (induction ws) (auto simp: be_bytes_def)
  then show ?thesis
    by (simp add: HashToken_def EncodeToString_length Sum256_def Let_def length_sha_blocks sha_init_def)
qed

lemma generateJTI_Inr: "generateJTI e = (e', Inr jti) \<Longrightarrow> length jti = 32"
  by (auto simp: generateJTI_def rand_Read_def EncodeToString_length split: sum.splits)

lemma GenerateRefreshToken_Inr:
  assumes "GenerateRefreshToken e = (e', Inr (raw, hashed))"
  shows "hashed = HashToken raw" and "length raw = 64"
  using assms by (auto simp: GenerateRefreshToken_def rand_Read_def EncodeToString_length Let_def split: sum.splits)

context jwt_lib
begin

lemma ParseAccessToken_sound:
  assumes "ParseAccessToken j cfg now tok = Inr c"
  shows "now < ac_ExpiresAt c \<and> (\<exists>alg cl. genuine (HMAC alg) (AccessSecret cfg) cl tok \<and> claims_ok (access_options cfg) now cl
     \<and> cl_Subject cl = ac_UserID c \<and> cl_ID cl = ac_JTI c \<and> cl_ExpiresAt cl = Some (ac_ExpiresAt c))"
proof -
  obtain cl t where p: "jwt_ParseWithClaims j (keyFunc cfg) (access_options cfg) now tok = Inr (True, cl)"
    and t: "cl_ExpiresAt cl = Some t" and c: "c = \<lparr>ac_UserID = cl_Subject cl, ac_JTI = cl_ID cl, ac_ExpiresAt = t\<rparr>"
    using assms by (auto simp: ParseAccessToken_def split: sum.splits prod.splits if_splits option.splits)
  from parse_sound [OF p] obtain m key where m: "claims_ok (access_options cfg) now cl" "keyFunc cfg m = Inr key" "genuine m key cl tok"
    by blast
  from m(2) obtain alg where "m = HMAC alg" "key = AccessSecret cfg" by (cases m) (auto simp: keyFunc_def)
  moreover have "now < t" using m(1) t by (simp add: claims_ok_def)
  ultimately show ?thesis using m(1,3) t c by auto
qed

lemma CreateToken_parses:
  assumes "CreateToken j cfg uid e clk = (e', clk', Inr tok)" and "uid \<noteq> ''''"
    and "NumericDate (shd clk) \<le> now" and "now < NumericDate (shd clk + AccessTokenTTL)"
  shows "\<exists>jti. length jti = 32 \<and> ParseAccessToken j cfg now tok =
    Inr \<lparr>ac_UserID = uid, ac_JTI = jti, ac_ExpiresAt = NumericDate (shd clk + AccessTokenTTL)\<rparr>"
proof -
  obtain jti where jti: "generateJTI e = (e', Inr jti)" and sign: "jwt_SignedString j HS256 (AccessSecret cfg)
      \<lparr>cl_Issuer = JWTIssuer cfg, cl_Subject = uid, cl_Audience = [JWTAudience cfg], cl_ID = jti,
       cl_IssuedAt = Some (NumericDate (shd clk)), cl_NotBefore = Some (NumericDate (shd clk)),
       cl_ExpiresAt = Some (NumericDate (shd clk + AccessTokenTTL))\<rparr> = Inr tok"
    using assms(1) by (auto simp: CreateToken_def time_Now_def Let_def split: prod.splits sum.splits)
  have "jwt_ParseWithClaims j (keyFunc cfg) (access_options cfg) now tok = Inr (True,
      \<lparr>cl_Issuer = JWTIssuer cfg, cl_Subject = uid, cl_Audience = [JWTAudience cfg], cl_ID = jti,
       cl_IssuedAt = Some (NumericDate (shd clk)), cl_NotBefore = Some (NumericDate (shd clk)),
       cl_ExpiresAt = Some (NumericDate (shd clk + AccessTokenTTL))\<rparr>)"
    by (rule parse_complete [OF sign_genuine [OF sign]])
       (use assms(3,4) in \<open>auto simp: HS256_def keyFunc_def claims_ok_def access_options_def\<close>)
  moreover have "jti \<noteq> ''''" using generateJTI_Inr [OF jti] by auto
  ultimately show ?thesis using generateJTI_Inr [OF jti] assms(2) by (auto simp: ParseAccessToken_def)
qed

end

context redis_keys
begin

text \<open>The denylist: a revoked id is reported as revoked until its time has passed, whoever else is revoked.\<close>

definition denied :: "string \<Rightarrow> time \<Rightarrow> 'rd \<Rightarrow> bool" where
  "denied jti until rd \<longleftrightarrow> (\<exists>x. expiry rd (jtiKey jti) = Some x \<and> until \<le> x)"

lemma Revoke_denies:
  assumes "Revoke c jti ttl rd = (rd', None)" and "0 < ttl"
  shows "denied jti (rnow rd + ttl - Millisecond) rd'"
proof -
  from assms have "rc_Set c (jtiKey jti) ''1'' ttl rd = (rd', None)" by (simp add: Revoke_def)
  from set_ok [OF this assms(2)] show ?thesis by (auto simp: denied_def)
qed

lemma IsRevoked_denied:
  assumes "denied jti until rd" and "IsRevoked c jti rd = (rd', Inr ans)" and "rnow rd < until"
  shows ans
  using assms exists_ok [of "jtiKey jti" rd rd']
  by (auto simp: IsRevoked_def denied_def split: prod.splits sum.splits)

lemma IsRevoked_keeps: "denied jti until rd \<Longrightarrow> IsRevoked c other rd = (rd', r) \<Longrightarrow> denied jti until rd'"
  using exists_frame [of "jtiKey other" rd rd'] by (auto simp: IsRevoked_def denied_def split: prod.splits sum.splits)

end

section \<open>Reference libraries\<close>

text \<open>
  A token library that knows the tokens of a given book, and a password library that stores the password in
  clear and refuses passwords of more than 72 bytes.
\<close>

definition book_jwt :: "(string \<times> jwt_method \<times> string \<times> RegisteredClaims) list \<Rightarrow> jwt" where
  "book_jwt book =
     \<lparr>jwt_SignedString = (\<lambda>m key cl. case List.find (\<lambda>(tok, e). e = (m, key, cl) \<and> map_of book tok = Some e) book of
          None \<Rightarrow> Inl ''unknown'' | Some (tok, e) \<Rightarrow> Inr tok),
      jwt_ParseWithClaims = (\<lambda>kf po now tok. case map_of book tok of
          None \<Rightarrow> Inl ''token is malformed''
        | Some (m, key, cl) \<Rightarrow> if kf m = Inr key \<and> claims_ok po now cl then Inr (True, cl) else Inl ''token is invalid'')\<rparr>"

interpretation book: jwt_lib "book_jwt bk" "\<lambda>m key cl tok. map_of bk tok = Some (m, key, cl)" for bk
proof unfold_locales
  show "map_of bk tok = Some (m, key, cl)" if "jwt_SignedString (book_jwt bk) m key cl = Inr tok" for m key cl tok
    using that nth_mem [of _ bk] by (auto simp: book_jwt_def find_Some_iff split: option.splits)
qed (auto simp: book_jwt_def split: option.splits if_splits)

definition clear_bcrypt :: bcrypt where
  "clear_bcrypt = \<lparr>bc_GenerateFromPassword = (\<lambda>p cost e. (e, if 72 < length p then Inl ''bcrypt: password length exceeds 72 bytes'' else Inr p)),
     bc_CompareHashAndPassword = (\<lambda>h p. if h = p then None else Some ''crypto/bcrypt: hashedPassword is not the hash of the given password'')\<rparr>"

interpretation clear_bcrypt: bcrypt_lib clear_bcrypt
  by unfold_locales (auto simp: clear_bcrypt_def split: if_splits)

section \<open>Properties\<close>


definition sample_config :: Config where
  "sample_config = \<lparr>PostgresHost = ''db'', PostgresPort = ''5432'', PostgresUser = ''u'', PostgresPassword = ''p'', PostgresDB = ''d'',
     AccessSecret = ''secret'', JWTIssuer = ''jobflow'', JWTAudience = ''jobflow-api'', RedisAddr = ''redis:6379'', RedisPassword = '''',
     RabbitMQHost = ''mq'', RabbitMQUser = ''guest'', RabbitMQPass = ''guest'', RabbitMQVHost = ''v'', RateLimitRate = 2, RateLimitCapacity = 5\<rparr>"

definition zero_entropy :: entropy where
  "zero_entropy = sconst (Inr (\<lambda>i. 0))"

definition zero_jti :: string where
  "zero_jti = EncodeToString (map (\<lambda>i. 0) [0..<16])"

definition claims_at :: "string \<Rightarrow> time \<Rightarrow> RegisteredClaims" where
  "claims_at uid t = \<lparr>cl_Issuer = ''jobflow'', cl_Subject = uid, cl_Audience = [''jobflow-api''], cl_ID = zero_jti,
     cl_IssuedAt = Some (NumericDate t), cl_NotBefore = Some (NumericDate t), cl_ExpiresAt = Some (NumericDate (t + AccessTokenTTL))\<rparr>"

definition sample_jwt :: "string \<Rightarrow> time \<Rightarrow> jwt" where
  "sample_jwt uid t = book_jwt [(''token'', HS256, ''secret'', claims_at uid t)]"

lemma sample_token:
  "CreateToken (sample_jwt uid t) sample_config uid zero_entropy (sconst t) = (zero_entropy, sconst t, Inr ''token'')"
proof -
  have "generateJTI zero_entropy = (zero_entropy, Inr zero_jti)"
    by (simp add: generateJTI_def rand_Read_def zero_entropy_def zero_jti_def)
  then show ?thesis
    by (simp add: CreateToken_def time_Now_def sample_jwt_def book_jwt_def sample_config_def claims_at_def)
qed


end
