(* ===== verification/Auth_Model.thy ===== *)
theory Auth_Model
  imports Gorm Auth_Token
begin

text \<open>
  Package \<^verbatim>\<open>internal/auth\<close>, data and persistence: \<^verbatim>\<open>model.go\<close>, \<^verbatim>\<open>errors.go\<close> and \<^verbatim>\<open>repository.go\<close>. Two tables live in one database, so the parameter is a
  record of two \<^verbatim>\<open>gorm\<close> models and of \<^verbatim>\<open>Transaction\<close>. The locale \<open>auth_store\<close> states the laws of both tables, that calls on one leave the other
  alone, the unique index on the token hash, and that a transaction takes effect as a whole or not at all.
\<close>

section \<open>Data\<close>

record User =
  u_ID :: string
  u_Email :: string
  u_PasswordHash :: string
  u_CreatedAt :: time
  u_DeletedAt :: "time option"

record RefreshToken =
  rt_ID :: string
  rt_UserID :: string
  rt_FamilyID :: string
  rt_ParentID :: "string option"
  rt_TokenHash :: string
  rt_ExpiresAt :: time
  rt_RevokedAt :: "time option"
  rt_CreatedAt :: time

definition User_TableName :: string where "User_TableName = ''users''"
definition RefreshToken_TableName :: string where "RefreshToken_TableName = ''refresh_tokens''"

definition zeroUser :: User where
  "zeroUser = \<lparr>u_ID = '''', u_Email = '''', u_PasswordHash = '''', u_CreatedAt = zeroTime, u_DeletedAt = None\<rparr>"

definition zeroRefreshToken :: RefreshToken where
  "zeroRefreshToken = \<lparr>rt_ID = '''', rt_UserID = '''', rt_FamilyID = '''', rt_ParentID = None, rt_TokenHash = '''',
     rt_ExpiresAt = zeroTime, rt_RevokedAt = None, rt_CreatedAt = zeroTime\<rparr>"

datatype auth_sentinel =
    ErrEmailExists | ErrInvalidEmail | ErrNotFound | ErrWeakPassword | ErrInternal | ErrHashingPassword
  | ErrToCreateUser | ErrAccessTokenGenerate | ErrRefreshTokenGenerate | ErrRefreshTokenStore | ErrWrongPassword
  | ErrInvalidRefreshToken | ErrRefreshTokenReused | ErrTokenRotation | ErrUserNotFound

fun auth_sentinel_text :: "auth_sentinel \<Rightarrow> string" where
  "auth_sentinel_text ErrEmailExists = ''email already exists''"
| "auth_sentinel_text ErrInvalidEmail = ''invalid email address''"
| "auth_sentinel_text ErrNotFound = ''email not found''"
| "auth_sentinel_text ErrWeakPassword = ''weak password''"
| "auth_sentinel_text ErrInternal = ''internal error''"
| "auth_sentinel_text ErrHashingPassword = ''problem occurred while hashing the password''"
| "auth_sentinel_text ErrToCreateUser = ''failed to create user''"
| "auth_sentinel_text ErrAccessTokenGenerate = ''failed to generate access token''"
| "auth_sentinel_text ErrRefreshTokenGenerate = ''failed to generate refresh token''"
| "auth_sentinel_text ErrRefreshTokenStore = ''failed to create refresh token entry in database''"
| "auth_sentinel_text ErrWrongPassword = ''the password is incorrect''"
| "auth_sentinel_text ErrInvalidRefreshToken = ''invalid or expired refresh token''"
| "auth_sentinel_text ErrRefreshTokenReused = ''refresh token reuse detected; family revoked''"
| "auth_sentinel_text ErrTokenRotation = ''failed to rotate refresh token''"
| "auth_sentinel_text ErrUserNotFound = ''user not found''"

text \<open>An error wraps a sentinel, or is a \<^verbatim>\<open>WeakPasswordError\<close>, or wraps only a cause from below.\<close>

datatype auth_error =
    AuthErr auth_sentinel string
  | WeakPasswordError string
  | OtherErr string

definition auth_err :: "auth_sentinel \<Rightarrow> auth_error" where
  "auth_err s = AuthErr s (auth_sentinel_text s)"

definition auth_err_wrap :: "auth_sentinel \<Rightarrow> string \<Rightarrow> auth_error" where
  "auth_err_wrap s detail = AuthErr s (auth_sentinel_text s @ '': '' @ detail)"

definition wrapWeakPassword :: "string \<Rightarrow> auth_error" where
  "wrapWeakPassword reason = WeakPasswordError reason"

fun auth_error_text :: "auth_error \<Rightarrow> string" where
  "auth_error_text (AuthErr s t) = t"
| "auth_error_text (WeakPasswordError r) = r"
| "auth_error_text (OtherErr t) = t"

fun errors_Is :: "auth_error \<Rightarrow> auth_sentinel \<Rightarrow> bool" where
  "errors_Is (AuthErr s t) s' = (s = s')"
| "errors_Is _ s' = False"

section \<open>What the struct tags say\<close>

definition user_filled :: "User \<Rightarrow> User \<Rightarrow> bool" where
  "user_filled given stored \<longleftrightarrow> (\<exists>uid t. uid \<noteq> '''' \<and> stored = given\<lparr>
     u_ID := (if u_ID given = '''' then uid else u_ID given),
     u_CreatedAt := (if u_CreatedAt given = zeroTime then t else u_CreatedAt given)\<rparr>)"

definition token_filled :: "RefreshToken \<Rightarrow> RefreshToken \<Rightarrow> bool" where
  "token_filled given stored \<longleftrightarrow> (\<exists>uid fid t. fid \<noteq> '''' \<and> stored = given\<lparr>
     rt_ID := (if rt_ID given = '''' then uid else rt_ID given),
     rt_FamilyID := (if rt_FamilyID given = '''' then fid else rt_FamilyID given),
     rt_CreatedAt := (if rt_CreatedAt given = zeroTime then t else rt_CreatedAt given)\<rparr>)"

definition user_live :: "User \<Rightarrow> bool" where
  "user_live u \<longleftrightarrow> u_DeletedAt u = None"

definition user_marked :: "User \<Rightarrow> User \<Rightarrow> bool" where
  "user_marked u u' \<longleftrightarrow> (\<exists>t. u' = u\<lparr>u_DeletedAt := Some t\<rparr>)"

section \<open>Repository\<close>

text \<open>What a transaction's callback leaves in the variables it captures.\<close>

datatype tx_out = TxUser User RefreshToken | TxToken RefreshToken

record 'db auth_db =
  ad_users :: "('db, User) gorm"
  ad_tokens :: "('db, RefreshToken) gorm"
  ad_Transaction :: "('db \<Rightarrow> 'db \<times> (gorm_error + tx_out)) \<Rightarrow> 'db \<Rightarrow> 'db \<times> (gorm_error + tx_out)"

definition CheckEmailExists :: "'db auth_db \<Rightarrow> string \<Rightarrow> 'db \<Rightarrow> 'db \<times> (gorm_error + bool)" where
  "CheckEmailExists a email db = (case gorm_Take (ad_users a) db (\<lambda>u. u_Email u = email) of
       (db', Inl ErrRecordNotFound) \<Rightarrow> (db', Inr False)
     | (db', Inl e) \<Rightarrow> (db', Inl e)
     | (db', Inr u) \<Rightarrow> (db', Inr True))"

definition create_user_tx :: "'db auth_db \<Rightarrow> User \<Rightarrow> RefreshToken \<Rightarrow> 'db \<Rightarrow> 'db \<times> (gorm_error + tx_out)" where
  "create_user_tx a user refreshToken db = (case gorm_Create (ad_users a) db [user] of
       (db', Inl e) \<Rightarrow> (db', Inl e)
     | (db', Inr us) \<Rightarrow>
         (let user' = (case us of u # _ \<Rightarrow> u | [] \<Rightarrow> user)
          in case gorm_Create (ad_tokens a) db' [refreshToken\<lparr>rt_UserID := u_ID user'\<rparr>] of
               (db'', Inl e) \<Rightarrow> (db'', Inl e)
             | (db'', Inr ts) \<Rightarrow> (db'', Inr (TxUser user' (case ts of t # _ \<Rightarrow> t | [] \<Rightarrow> refreshToken)))))"

definition CreateUserWithRefreshToken :: "'db auth_db \<Rightarrow> User \<Rightarrow> RefreshToken \<Rightarrow> 'db \<Rightarrow> 'db \<times> (gorm_error + User)" where
  "CreateUserWithRefreshToken a user refreshToken db =
     (case ad_Transaction a (create_user_tx a user refreshToken) db of
        (db', Inl e) \<Rightarrow> (db', Inl e)
      | (db', Inr (TxUser u t)) \<Rightarrow> (db', Inr u)
      | (db', Inr (TxToken t)) \<Rightarrow> (db', Inr user))"

definition GetUserPassword :: "'db auth_db \<Rightarrow> string \<Rightarrow> 'db \<Rightarrow> 'db \<times> (gorm_error + User)" where
  "GetUserPassword a email db = gorm_Take (ad_users a) db (\<lambda>u. u_Email u = email)"

definition GetUserByID :: "'db auth_db \<Rightarrow> string \<Rightarrow> 'db \<Rightarrow> 'db \<times> (gorm_error + User)" where
  "GetUserByID a userID db = gorm_Take (ad_users a) db (\<lambda>u. u_ID u = userID)"

definition CreateRefreshToken :: "'db auth_db \<Rightarrow> RefreshToken \<Rightarrow> 'db \<Rightarrow> 'db \<times> gorm_error option" where
  "CreateRefreshToken a rt db = (case gorm_Create (ad_tokens a) db [rt] of
       (db', Inl e) \<Rightarrow> (db', Some e) | (db', Inr ts) \<Rightarrow> (db', None))"

definition FindRefreshTokenByHash :: "'db auth_db \<Rightarrow> string \<Rightarrow> 'db \<Rightarrow> 'db \<times> (gorm_error + RefreshToken)" where
  "FindRefreshTokenByHash a tokenHash db = gorm_Take (ad_tokens a) db (\<lambda>t. rt_TokenHash t = tokenHash)"

definition rotate_tx :: "'db auth_db \<Rightarrow> RefreshToken \<Rightarrow> RefreshToken \<Rightarrow> time \<Rightarrow> 'db \<Rightarrow> 'db \<times> (gorm_error + tx_out)" where
  "rotate_tx a old newToken now db =
     (case gorm_Updates (ad_tokens a) db (\<lambda>t. rt_ID t = rt_ID old \<and> rt_UserID t = rt_UserID old \<and> rt_RevokedAt t = None)
             (\<lambda>t. t\<lparr>rt_RevokedAt := Some now\<rparr>) of
        (db', Inl e) \<Rightarrow> (db', Inl e)
      | (db', Inr n) \<Rightarrow>
          if n = 0 then (db', Inl ErrRecordNotFound)
          else (case gorm_Create (ad_tokens a) db' [newToken] of
                  (db'', Inl e) \<Rightarrow> (db'', Inl e)
                | (db'', Inr ts) \<Rightarrow> (db'', Inr (TxToken (case ts of t # _ \<Rightarrow> t | [] \<Rightarrow> newToken)))))"

definition rotated_token :: "RefreshToken \<Rightarrow> string \<Rightarrow> time \<Rightarrow> RefreshToken" where
  "rotated_token old newHash now = zeroRefreshToken\<lparr>rt_UserID := rt_UserID old, rt_FamilyID := rt_FamilyID old,
     rt_ParentID := Some (rt_ID old), rt_TokenHash := newHash, rt_ExpiresAt := now + RefreshTokenTTL\<rparr>"

definition RotateRefreshToken ::
  "'db auth_db \<Rightarrow> RefreshToken \<Rightarrow> string \<Rightarrow> clock \<Rightarrow> 'db \<Rightarrow> 'db \<times> clock \<times> (gorm_error + RefreshToken)"
where
  "RotateRefreshToken a old newHash clk db =
     (let (created, clk1) = time_Now clk; (now, clk2) = time_Now clk1;
          newToken = rotated_token old newHash created
      in case ad_Transaction a (rotate_tx a old newToken now) db of
           (db', Inl e) \<Rightarrow> (db', clk2, Inl e)
         | (db', Inr (TxToken t)) \<Rightarrow> (db', clk2, Inr t)
         | (db', Inr (TxUser u t)) \<Rightarrow> (db', clk2, Inr newToken))"

definition RevokeFamily :: "'db auth_db \<Rightarrow> string \<Rightarrow> time \<Rightarrow> 'db \<Rightarrow> 'db \<times> gorm_error option" where
  "RevokeFamily a familyID now db =
     (case gorm_Updates (ad_tokens a) db (\<lambda>t. rt_FamilyID t = familyID \<and> rt_RevokedAt t = None)
             (\<lambda>t. t\<lparr>rt_RevokedAt := Some now\<rparr>) of
        (db', Inl e) \<Rightarrow> (db', Some e) | (db', Inr n) \<Rightarrow> (db', None))"

section \<open>The contract\<close>

definition hash_unique :: "(string \<Rightarrow> RefreshToken option) \<Rightarrow> bool" where
  "hash_unique ts \<longleftrightarrow> (\<forall>k k' t t'. ts k = Some t \<longrightarrow> ts k' = Some t' \<longrightarrow> rt_TokenHash t = rt_TokenHash t' \<longrightarrow> k = k')"

locale auth_store =
  users: gorm_soft_delete "ad_users a" utbl u_ID user_live user_filled "(=)" user_marked
  + tokens: gorm_hard_delete "ad_tokens a" ttbl rt_ID "\<lambda>t. True" token_filled "(=)"
  for a :: "'db auth_db" and utbl :: "'db \<Rightarrow> string \<Rightarrow> User option" and ttbl :: "'db \<Rightarrow> string \<Rightarrow> RefreshToken option" +
  assumes users_create_frame: "gorm_Create (ad_users a) db us = (db', ru) \<Longrightarrow> ttbl db' = ttbl db"
    and users_take_frame: "gorm_Take (ad_users a) db Pu = (db', rtk) \<Longrightarrow> ttbl db' = ttbl db"
    and tokens_create_frame: "gorm_Create (ad_tokens a) db ts = (db', rc) \<Longrightarrow> utbl db' = utbl db"
    and tokens_take_frame: "gorm_Take (ad_tokens a) db Pt = (db', rr) \<Longrightarrow> utbl db' = utbl db"
    and tokens_updates_frame: "gorm_Updates (ad_tokens a) db Pt f = (db', rn) \<Longrightarrow> utbl db' = utbl db"
    and tokens_delete_frame: "gorm_Delete (ad_tokens a) db Pt = (db', rd) \<Longrightarrow> utbl db' = utbl db"
    and hash_index: "gorm_Create (ad_tokens a) db ts = (db', Inr ts') \<Longrightarrow> hash_unique (ttbl db) \<Longrightarrow> hash_unique (ttbl db')"
    and tx_commit: "ad_Transaction a body db = (db', Inr out) \<Longrightarrow>
          \<exists>db0 db1. utbl db0 = utbl db \<and> ttbl db0 = ttbl db \<and> body db0 = (db1, Inr out) \<and> utbl db' = utbl db1 \<and> ttbl db' = ttbl db1"
    and tx_rollback: "ad_Transaction a body db = (db', Inl e) \<Longrightarrow> utbl db' = utbl db \<and> ttbl db' = ttbl db"

section \<open>The repository calls under the contract\<close>

definition revoke_row :: "time \<Rightarrow> RefreshToken \<Rightarrow> RefreshToken" where
  "revoke_row now t = t\<lparr>rt_RevokedAt := Some now\<rparr>"

lemma revoke_row_sel [simp]:
  "rt_ID (revoke_row now t) = rt_ID t" "rt_UserID (revoke_row now t) = rt_UserID t"
  "rt_FamilyID (revoke_row now t) = rt_FamilyID t" "rt_ParentID (revoke_row now t) = rt_ParentID t"
  "rt_TokenHash (revoke_row now t) = rt_TokenHash t" "rt_ExpiresAt (revoke_row now t) = rt_ExpiresAt t"
  "rt_RevokedAt (revoke_row now t) = Some now" "rt_CreatedAt (revoke_row now t) = rt_CreatedAt t"
  by (simp_all add: revoke_row_def)

lemma revoke_row_eta: "rt_RevokedAt_update (\<lambda>_. Some now) = revoke_row now"
  by (rule ext) (simp add: revoke_row_def)

lemma rotated_token_sel [simp]:
  "rt_ID (rotated_token old h now) = ''''" "rt_UserID (rotated_token old h now) = rt_UserID old"
  "rt_FamilyID (rotated_token old h now) = rt_FamilyID old" "rt_ParentID (rotated_token old h now) = Some (rt_ID old)"
  "rt_TokenHash (rotated_token old h now) = h" "rt_ExpiresAt (rotated_token old h now) = now + RefreshTokenTTL"
  "rt_RevokedAt (rotated_token old h now) = None"
  by (simp_all add: rotated_token_def zeroRefreshToken_def)

lemma token_filledD:
  assumes "token_filled given stored"
  shows "rt_UserID stored = rt_UserID given" and "rt_ParentID stored = rt_ParentID given"
    and "rt_TokenHash stored = rt_TokenHash given" and "rt_ExpiresAt stored = rt_ExpiresAt given"
    and "rt_RevokedAt stored = rt_RevokedAt given" and "rt_FamilyID stored \<noteq> ''''"
    and "rt_FamilyID given \<noteq> '''' \<Longrightarrow> rt_FamilyID stored = rt_FamilyID given"
proof -
  from assms obtain uid fid t where "fid \<noteq> ''''" and "stored = given\<lparr>rt_ID := (if rt_ID given = '''' then uid else rt_ID given),
     rt_FamilyID := (if rt_FamilyID given = '''' then fid else rt_FamilyID given),
     rt_CreatedAt := (if rt_CreatedAt given = zeroTime then t else rt_CreatedAt given)\<rparr>"
    unfolding token_filled_def by blast
  then show "rt_UserID stored = rt_UserID given" and "rt_ParentID stored = rt_ParentID given"
    and "rt_TokenHash stored = rt_TokenHash given" and "rt_ExpiresAt stored = rt_ExpiresAt given"
    and "rt_RevokedAt stored = rt_RevokedAt given" and "rt_FamilyID stored \<noteq> ''''"
    and "rt_FamilyID given \<noteq> '''' \<Longrightarrow> rt_FamilyID stored = rt_FamilyID given" by simp_all
qed

lemma user_filledD:
  assumes "user_filled given stored"
  shows "u_Email stored = u_Email given" and "u_PasswordHash stored = u_PasswordHash given"
    and "u_DeletedAt stored = u_DeletedAt given" and "u_ID stored \<noteq> ''''"
proof -
  from assms obtain uid t where "uid \<noteq> ''''" and "stored = given\<lparr>u_ID := (if u_ID given = '''' then uid else u_ID given),
     u_CreatedAt := (if u_CreatedAt given = zeroTime then t else u_CreatedAt given)\<rparr>"
    unfolding user_filled_def by blast
  then show "u_Email stored = u_Email given" and "u_PasswordHash stored = u_PasswordHash given"
    and "u_DeletedAt stored = u_DeletedAt given" and "u_ID stored \<noteq> ''''" by simp_all
qed

context auth_store
begin

lemma token_updates:
  assumes "gorm_Updates (ad_tokens a) db P (revoke_row now) = (db', Inr n)"
  shows "ttbl db' = (\<lambda>k. map_option (\<lambda>t. if P t then revoke_row now t else t) (ttbl db k))"
proof
  fix k
  show "ttbl db' k = map_option (\<lambda>t. if P t then revoke_row now t else t) (ttbl db k)"
  proof (cases "ttbl db k")
    case None
    with tokens.updates_None [OF assms] show ?thesis by simp
  next
    case (Some t)
    have key: "rt_ID (revoke_row now t) = k" using tokens.key_tbl [OF Some] by simp
    show ?thesis
    proof (cases "P t")
      case True
      with tokens.updates_hit [OF assms Some _ True key] Some show ?thesis by simp
    next
      case False
      with tokens.updates_miss [OF assms Some] Some show ?thesis by simp
    qed
  qed
qed

lemma FindRefreshTokenByHash_frame:
  "FindRefreshTokenByHash a h db = (db', r) \<Longrightarrow> ttbl db' = ttbl db \<and> utbl db' = utbl db"
  unfolding FindRefreshTokenByHash_def using tokens.take_tbl tokens_take_frame by blast

lemma FindRefreshTokenByHash_Inr:
  "FindRefreshTokenByHash a h db = (db', Inr t) \<Longrightarrow> ttbl db (rt_ID t) = Some t \<and> rt_TokenHash t = h"
  unfolding FindRefreshTokenByHash_def using tokens.take_Inr by blast

lemma FindRefreshTokenByHash_none:
  "FindRefreshTokenByHash a h db = (db', Inl ErrRecordNotFound) \<Longrightarrow> ttbl db k = Some t \<Longrightarrow> rt_TokenHash t \<noteq> h"
  unfolding FindRefreshTokenByHash_def using tokens.take_not_found by blast

lemma GetUserByID_frame: "GetUserByID a i db = (db', r) \<Longrightarrow> ttbl db' = ttbl db \<and> utbl db' = utbl db"
  unfolding GetUserByID_def using users.take_tbl users_take_frame by blast

lemma GetUserByID_Inr: "GetUserByID a i db = (db', Inr u) \<Longrightarrow> utbl db i = Some u \<and> user_live u \<and> u_ID u = i"
  unfolding GetUserByID_def using users.take_Inr by blast

lemma GetUserPassword_frame: "GetUserPassword a em db = (db', r) \<Longrightarrow> ttbl db' = ttbl db \<and> utbl db' = utbl db"
  unfolding GetUserPassword_def using users.take_tbl users_take_frame by blast

lemma GetUserPassword_Inr:
  "GetUserPassword a em db = (db', Inr u) \<Longrightarrow> utbl db (u_ID u) = Some u \<and> user_live u \<and> u_Email u = em"
  unfolding GetUserPassword_def using users.take_Inr by blast

lemma users_found:
  "GetUserPassword a em db = (db', Inl ErrRecordNotFound) \<Longrightarrow> utbl db k = Some u \<Longrightarrow> user_live u \<Longrightarrow> u_Email u \<noteq> em"
  unfolding GetUserPassword_def using users.take_not_found by blast

lemma CheckEmailExists_frame: "CheckEmailExists a em db = (db', r) \<Longrightarrow> ttbl db' = ttbl db \<and> utbl db' = utbl db"
  unfolding CheckEmailExists_def using users.take_tbl users_take_frame
  by (auto split: prod.splits sum.splits gorm_error.splits)

lemma CheckEmailExists_False:
  "CheckEmailExists a em db = (db', Inr False) \<Longrightarrow> utbl db k = Some u \<Longrightarrow> user_live u \<Longrightarrow> u_Email u \<noteq> em"
  using users.take_not_found [of db "\<lambda>u. u_Email u = em" db' k u]
  by (auto simp: CheckEmailExists_def split: prod.splits sum.splits gorm_error.splits)

lemma CreateRefreshToken_cases:
  assumes "CreateRefreshToken a rt db = (db', r)"
  shows "utbl db' = utbl db"
    and "r \<noteq> None \<Longrightarrow> ttbl db' = ttbl db"
    and "r = None \<Longrightarrow> \<exists>t. token_filled rt t \<and> ttbl db (rt_ID t) = None \<and> ttbl db' = (ttbl db)(rt_ID t \<mapsto> t)"
proof -
  from assms show "utbl db' = utbl db"
    unfolding CreateRefreshToken_def using tokens_create_frame by (auto split: prod.splits sum.splits)
  from assms show "r \<noteq> None \<Longrightarrow> ttbl db' = ttbl db"
    unfolding CreateRefreshToken_def using tokens.create_Inl by (auto split: prod.splits sum.splits)
  assume "r = None"
  with assms obtain ts where "gorm_Create (ad_tokens a) db [rt] = (db', Inr ts)"
    unfolding CreateRefreshToken_def by (auto split: prod.splits sum.splits)
  from tokens.create_one [OF this]
  show "\<exists>t. token_filled rt t \<and> ttbl db (rt_ID t) = None \<and> ttbl db' = (ttbl db)(rt_ID t \<mapsto> t)" by blast
qed

lemma RevokeFamily_users: "RevokeFamily a fid now db = (db', r) \<Longrightarrow> utbl db' = utbl db"
  unfolding RevokeFamily_def using tokens_updates_frame by (auto split: prod.splits sum.splits)

lemma RevokeFamily_Some: "RevokeFamily a fid now db = (db', Some e) \<Longrightarrow> ttbl db' = ttbl db"
  unfolding RevokeFamily_def using tokens.updates_Inl by (auto split: prod.splits sum.splits)

lemma RevokeFamily_None:
  assumes "RevokeFamily a fid now db = (db', None)"
  shows "ttbl db' = (\<lambda>k. map_option (\<lambda>t. if rt_FamilyID t = fid \<and> rt_RevokedAt t = None then revoke_row now t else t) (ttbl db k))"
proof -
  from assms obtain n where "gorm_Updates (ad_tokens a) db (\<lambda>t. rt_FamilyID t = fid \<and> rt_RevokedAt t = None) (revoke_row now) = (db', Inr n)"
    unfolding RevokeFamily_def revoke_row_def by (auto split: prod.splits sum.splits)
  from token_updates [OF this] show ?thesis .
qed

text \<open>The two transactions take effect as a whole or not at all.\<close>

lemma CreateUserWithRefreshToken_Inl:
  "CreateUserWithRefreshToken a u rt db = (db', Inl e) \<Longrightarrow> ttbl db' = ttbl db \<and> utbl db' = utbl db"
  unfolding CreateUserWithRefreshToken_def using tx_rollback
  by (auto split: prod.splits sum.splits tx_out.splits)

lemma create_user_tx_Inr:
  assumes "create_user_tx a u rt db = (db', Inr out)"
  shows "\<exists>u' t. out = TxUser u' t \<and> user_filled u u' \<and> token_filled (rt\<lparr>rt_UserID := u_ID u'\<rparr>) t
     \<and> utbl db (u_ID u') = None \<and> utbl db' = (utbl db)(u_ID u' \<mapsto> u')
     \<and> ttbl db (rt_ID t) = None \<and> ttbl db' = (ttbl db)(rt_ID t \<mapsto> t)"
proof -
  obtain db1 us where cu: "gorm_Create (ad_users a) db [u] = (db1, Inr us)"
    using assms by (auto simp: create_user_tx_def split: prod.splits sum.splits)
  from users.create_one [OF cu] obtain u' where u': "us = [u']" "user_filled u u'" "utbl db (u_ID u') = None" "utbl db1 = (utbl db)(u_ID u' \<mapsto> u')"
    by blast
  obtain ts where ct: "gorm_Create (ad_tokens a) db1 [rt\<lparr>rt_UserID := u_ID u'\<rparr>] = (db', Inr ts)"
    using assms cu u'(1) by (auto simp: create_user_tx_def Let_def split: prod.splits sum.splits)
  from tokens.create_one [OF ct] obtain t where t: "ts = [t]" "token_filled (rt\<lparr>rt_UserID := u_ID u'\<rparr>) t" "ttbl db1 (rt_ID t) = None"
    "ttbl db' = (ttbl db1)(rt_ID t \<mapsto> t)" by blast
  have "out = TxUser u' t" using assms cu u'(1) ct t(1) by (auto simp: create_user_tx_def Let_def)
  then show ?thesis using u' t users_create_frame [OF cu] tokens_create_frame [OF ct] by auto
qed

lemma CreateUserWithRefreshToken_Inr:
  assumes "CreateUserWithRefreshToken a u rt db = (db', Inr u')"
  shows "\<exists>t. user_filled u u' \<and> token_filled (rt\<lparr>rt_UserID := u_ID u'\<rparr>) t
     \<and> utbl db (u_ID u') = None \<and> utbl db' = (utbl db)(u_ID u' \<mapsto> u')
     \<and> ttbl db (rt_ID t) = None \<and> ttbl db' = (ttbl db)(rt_ID t \<mapsto> t)"
proof -
  obtain out where tx: "ad_Transaction a (create_user_tx a u rt) db = (db', Inr out)"
    and u': "u' = (case out of TxUser x _ \<Rightarrow> x | TxToken _ \<Rightarrow> u)"
    using assms by (auto simp: CreateUserWithRefreshToken_def split: prod.splits sum.splits tx_out.splits)
  from tx_commit [OF tx] obtain db0 db1 where c: "utbl db0 = utbl db" "ttbl db0 = ttbl db"
    "create_user_tx a u rt db0 = (db1, Inr out)" "utbl db' = utbl db1" "ttbl db' = ttbl db1" by blast
  from create_user_tx_Inr [OF c(3)] u' c show ?thesis by auto
qed

lemma RotateRefreshToken_Inl:
  "RotateRefreshToken a old h clk db = (db', clk', Inl e) \<Longrightarrow> ttbl db' = ttbl db \<and> utbl db' = utbl db"
  unfolding RotateRefreshToken_def Let_def using tx_rollback
  by (auto split: prod.splits sum.splits tx_out.splits)

lemma rotate_tx_Inr:
  assumes "rotate_tx a old new now db = (db', Inr out)"
  shows "\<exists>r t. out = TxToken t \<and> ttbl db (rt_ID old) = Some r \<and> rt_UserID r = rt_UserID old \<and> rt_RevokedAt r = None
     \<and> token_filled new t \<and> ttbl db (rt_ID t) = None
     \<and> ttbl db' = (ttbl db)(rt_ID old \<mapsto> revoke_row now r, rt_ID t \<mapsto> t) \<and> utbl db' = utbl db"
proof -
  let ?P = "\<lambda>t. rt_ID t = rt_ID old \<and> rt_UserID t = rt_UserID old \<and> rt_RevokedAt t = None"
  obtain db1 n where up: "gorm_Updates (ad_tokens a) db ?P (revoke_row now) = (db1, Inr n)" and n: "n \<noteq> 0"
    using assms by (auto simp: rotate_tx_def revoke_row_eta split: prod.splits sum.splits if_splits)
  obtain ts where cr: "gorm_Create (ad_tokens a) db1 [new] = (db', Inr ts)"
    and out: "out = TxToken (case ts of t # _ \<Rightarrow> t | [] \<Rightarrow> new)"
    using assms up n by (auto simp: rotate_tx_def revoke_row_eta split: prod.splits sum.splits)
  from tokens.create_one [OF cr] obtain t where t: "ts = [t]" "token_filled new t" "ttbl db1 (rt_ID t) = None"
    "ttbl db' = (ttbl db1)(rt_ID t \<mapsto> t)" by blast
  from n tokens.updates_rows [OF up] obtain k r where r: "ttbl db k = Some r" "?P r" by auto
  with tokens.key_tbl [OF r(1)] have row: "ttbl db (rt_ID old) = Some r" by simp
  have "ttbl db1 k' = ((ttbl db)(rt_ID old \<mapsto> revoke_row now r)) k'" for k'
    using row r(2) tokens.key_tbl [of db k'] by (cases "ttbl db k'") (auto simp: token_updates [OF up])
  then have db1: "ttbl db1 = (ttbl db)(rt_ID old \<mapsto> revoke_row now r)" by (rule ext)
  have "utbl db' = utbl db" using tokens_updates_frame [OF up] tokens_create_frame [OF cr] by simp
  moreover have "ttbl db (rt_ID t) = None" using t(3) db1 by (auto split: if_splits)
  ultimately show ?thesis using out t row r(2) db1 by auto
qed

lemma RotateRefreshToken_Inr:
  assumes "RotateRefreshToken a old h clk db = (db', clk', Inr t)"
  shows "\<exists>r. ttbl db (rt_ID old) = Some r \<and> rt_UserID r = rt_UserID old \<and> rt_RevokedAt r = None
     \<and> token_filled (rotated_token old h (shd clk)) t \<and> ttbl db (rt_ID t) = None
     \<and> ttbl db' = (ttbl db)(rt_ID old \<mapsto> revoke_row (shd (stl clk)) r, rt_ID t \<mapsto> t) \<and> utbl db' = utbl db"
proof -
  let ?tx = "rotate_tx a old (rotated_token old h (shd clk)) (shd (stl clk))"
  obtain out where tx: "ad_Transaction a ?tx db = (db', Inr out)"
    and t: "t = (case out of TxToken t \<Rightarrow> t | TxUser _ _ \<Rightarrow> rotated_token old h (shd clk))"
    using assms by (auto simp: RotateRefreshToken_def time_Now_def Let_def split: prod.splits sum.splits tx_out.splits)
  from tx_commit [OF tx] obtain db0 db1 where c: "utbl db0 = utbl db" "ttbl db0 = ttbl db"
    "?tx db0 = (db1, Inr out)" "utbl db' = utbl db1" "ttbl db' = ttbl db1" by blast
  from rotate_tx_Inr [OF c(3)] t c show ?thesis by auto
qed

end

text \<open>The well-formedness of the token table, kept by every call: no digest occurs twice and every row belongs to a family.\<close>

definition tokens_ok :: "(string \<Rightarrow> RefreshToken option) \<Rightarrow> bool" where
  "tokens_ok ts \<longleftrightarrow> hash_unique ts \<and> (\<forall>k t. ts k = Some t \<longrightarrow> rt_FamilyID t \<noteq> '''')"

lemma tokens_okD:
  assumes "tokens_ok ts"
  shows "ts k = Some t \<Longrightarrow> rt_FamilyID t \<noteq> ''''"
    and "ts k = Some t \<Longrightarrow> ts k' = Some t' \<Longrightarrow> rt_TokenHash t = rt_TokenHash t' \<Longrightarrow> k = k'"
  using assms unfolding tokens_ok_def hash_unique_def by blast+

lemma tokens_ok_map:
  assumes "tokens_ok ts" and "\<And>t. rt_TokenHash (f t) = rt_TokenHash t" and "\<And>t. rt_FamilyID (f t) = rt_FamilyID t"
  shows "tokens_ok (\<lambda>k. map_option f (ts k))"
  using assms unfolding tokens_ok_def hash_unique_def by (auto simp: map_option_case split: option.splits)

context auth_store
begin

lemma create_ok:
  assumes "gorm_Create (ad_tokens a) db [rt] = (db', Inr ts)" and "tokens_ok (ttbl db)"
  shows "tokens_ok (ttbl db')"
proof -
  from tokens.create_one [OF assms(1)] obtain t where "token_filled rt t" "ttbl db' = (ttbl db)(rt_ID t \<mapsto> t)" by blast
  with hash_index [OF assms(1)] assms(2) token_filledD(6) show ?thesis by (auto simp: tokens_ok_def)
qed

lemma updates_ok:
  assumes "gorm_Updates (ad_tokens a) db P (revoke_row now) = (db', r)" and "tokens_ok (ttbl db)"
  shows "tokens_ok (ttbl db')"
proof (cases r)
  case (Inl e)
  with tokens.updates_Inl assms show ?thesis by metis
next
  case (Inr n)
  from token_updates [OF assms(1) [unfolded Inr]] tokens_ok_map [OF assms(2)] show ?thesis by simp
qed

lemma CreateRefreshToken_ok:
  assumes "CreateRefreshToken a rt db = (db', r)" and "tokens_ok (ttbl db)"
  shows "tokens_ok (ttbl db')"
  using assms tokens.create_Inl [of db "[rt]" db'] create_ok [of db rt db']
  by (auto simp: CreateRefreshToken_def split: prod.splits sum.splits)

lemma RevokeFamily_ok:
  assumes "RevokeFamily a fid now db = (db', r)" and "tokens_ok (ttbl db)"
  shows "tokens_ok (ttbl db')"
  using assms updates_ok [of db _ now db'] by (auto simp: RevokeFamily_def revoke_row_eta split: prod.splits sum.splits)

lemma tx_ok:
  assumes "ad_Transaction a body db = (db', r)" and "tokens_ok (ttbl db)"
    and body: "\<And>db0 db1 out. body db0 = (db1, Inr out) \<Longrightarrow> tokens_ok (ttbl db0) \<Longrightarrow> tokens_ok (ttbl db1)"
  shows "tokens_ok (ttbl db')"
proof (cases r)
  case (Inl e)
  with tx_rollback assms show ?thesis by metis
next
  case (Inr out)
  from tx_commit [OF assms(1) [unfolded Inr]] body assms(2) show ?thesis by metis
qed

lemma CreateUserWithRefreshToken_ok:
  assumes "CreateUserWithRefreshToken a u rt db = (db', r)" and "tokens_ok (ttbl db)"
  shows "tokens_ok (ttbl db')"
proof -
  have "tokens_ok (ttbl db1)" if "create_user_tx a u rt db0 = (db1, Inr out)" "tokens_ok (ttbl db0)" for db0 db1 out
    using that users_create_frame create_ok
    by (auto simp: create_user_tx_def Let_def split: prod.splits sum.splits)
  with assms tx_ok [of "create_user_tx a u rt" db db'] show ?thesis
    by (auto simp: CreateUserWithRefreshToken_def split: prod.splits sum.splits tx_out.splits)
qed

lemma RotateRefreshToken_ok:
  assumes "RotateRefreshToken a old h clk db = (db', clk', r)" and "tokens_ok (ttbl db)"
  shows "tokens_ok (ttbl db')"
proof -
  have "tokens_ok (ttbl db1)" if "rotate_tx a old new now db0 = (db1, Inr out)" "tokens_ok (ttbl db0)" for new now db0 db1 out
    using that updates_ok create_ok
    by (auto simp: rotate_tx_def revoke_row_eta split: prod.splits sum.splits if_splits)
  with assms tx_ok [of "rotate_tx a old (rotated_token old h (shd clk)) (shd (stl clk))" db db'] show ?thesis
    by (auto simp: RotateRefreshToken_def time_Now_def Let_def split: prod.splits sum.splits tx_out.splits)
qed

end

section \<open>A reference database\<close>

text \<open>
  Two tables in memory. A key is generated for a row without one; an insert of a token whose digest is already stored is
  refused; a failed transaction gives back the state from before it.
\<close>

record mem_auth =
  ma_users :: "User mem_db"
  ma_tokens :: "RefreshToken mem_db"

definition fill_user :: "nat \<Rightarrow> User \<Rightarrow> User" where
  "fill_user n u = u\<lparr>u_ID := (if u_ID u = '''' then replicate (Suc n) CHR ''u'' else u_ID u),
     u_CreatedAt := (if u_CreatedAt u = zeroTime then 0 else u_CreatedAt u)\<rparr>"

definition fill_token :: "nat \<Rightarrow> RefreshToken \<Rightarrow> RefreshToken" where
  "fill_token n t = t\<lparr>rt_ID := (if rt_ID t = '''' then replicate (Suc n) CHR ''t'' else rt_ID t),
     rt_FamilyID := (if rt_FamilyID t = '''' then replicate (Suc n) CHR ''f'' else rt_FamilyID t),
     rt_CreatedAt := (if rt_CreatedAt t = zeroTime then 0 else rt_CreatedAt t)\<rparr>"

definition mem_users :: "(User mem_db, User) gorm" where
  "mem_users = mem_gorm u_ID user_live fill_user (\<lambda>u. Some (u\<lparr>u_DeletedAt := Some 0\<rparr>))"

definition digests_distinct :: "RefreshToken mem_db \<Rightarrow> bool" where
  "digests_distinct db = distinct (map rt_TokenHash (first_by rt_ID (mem_rows db)))"

definition mem_tokens :: "(RefreshToken mem_db, RefreshToken) gorm" where
  "mem_tokens = with_check digests_distinct (mem_gorm rt_ID (\<lambda>t. True) fill_token (\<lambda>t. None))"

definition mem_auth_db :: "mem_auth auth_db" where
  "mem_auth_db =
     \<lparr>ad_users = on_part ma_users (\<lambda>d s. s\<lparr>ma_users := d\<rparr>) mem_users,
      ad_tokens = on_part ma_tokens (\<lambda>d s. s\<lparr>ma_tokens := d\<rparr>) mem_tokens,
      ad_Transaction = (\<lambda>body s. case body s of (s', Inr out) \<Rightarrow> (s', Inr out) | (s', Inl e) \<Rightarrow> (s, Inl e))\<rparr>"

lemma mem_auth_db_sel [simp]:
  "ad_users mem_auth_db = on_part ma_users (\<lambda>d s. s\<lparr>ma_users := d\<rparr>) mem_users"
  "ad_tokens mem_auth_db = on_part ma_tokens (\<lambda>d s. s\<lparr>ma_tokens := d\<rparr>) mem_tokens"
  by (simp_all add: mem_auth_db_def)

lemma user_filled_fill: "user_filled u (fill_user n u)"
  unfolding user_filled_def fill_user_def
  by (intro exI [of _ "replicate (Suc n) CHR ''u''"] exI [of _ 0]) simp

lemma token_filled_fill: "token_filled t (fill_token n t)"
  unfolding token_filled_def fill_token_def
  by (intro exI [of _ "replicate (Suc n) CHR ''t''"] exI [of _ "replicate (Suc n) CHR ''f''"] exI [of _ 0]) simp

lemma mem_users_law: "gorm_soft_delete mem_users (mem_tbl u_ID) u_ID user_live user_filled (=) user_marked"
  unfolding mem_users_def
  by (rule mem_gorm_soft_delete [where dead = "\<lambda>u. u\<lparr>u_DeletedAt := Some 0\<rparr>"])
     (auto simp: user_filled_fill user_marked_def user_live_def)

lemma mem_tokens_law: "gorm_hard_delete mem_tokens (mem_tbl rt_ID) rt_ID (\<lambda>t. True) token_filled (=)"
  unfolding mem_tokens_def
  by (rule with_check_hard_delete, rule mem_gorm_hard_delete) (auto simp: token_filled_fill)

lemma digests_distinct_unique:
  assumes "digests_distinct db"
  shows "hash_unique (mem_tbl rt_ID db)"
  unfolding hash_unique_def
proof (intro allI impI)
  fix k k' t t'
  assume row: "mem_tbl rt_ID db k = Some t" "mem_tbl rt_ID db k' = Some t'" and eq: "rt_TokenHash t = rt_TokenHash t'"
  from row have k: "rt_ID t = k" "rt_ID t' = k'" by (auto simp: mem_tbl_def dest: by_key_SomeD)
  with row have "t \<in> set (first_by rt_ID (mem_rows db))" "t' \<in> set (first_by rt_ID (mem_rows db))"
    by (simp_all add: in_first_by mem_tbl_def)
  with assms eq have "t = t'" by (auto simp: digests_distinct_def distinct_map dest: inj_onD)
  with k show "k = k'" by simp
qed

interpretation mem_auth: auth_store mem_auth_db "\<lambda>s. mem_tbl u_ID (ma_users s)" "\<lambda>s. mem_tbl rt_ID (ma_tokens s)"
proof (intro auth_store.intro auth_store_axioms.intro, goal_cases)
  case 1
  show ?case unfolding mem_auth_db_sel by (rule on_part_soft_delete [OF _ mem_users_law]) simp
next
  case 2
  show ?case unfolding mem_auth_db_sel by (rule on_part_hard_delete [OF _ mem_tokens_law]) simp
next
  case (9 db ts db' ts')
  then have "gorm_Create mem_tokens (ma_tokens db) ts = (ma_tokens db', Inr ts')"
    by (auto dest: on_part_calls(1) [rotated])
  then show ?case unfolding mem_tokens_def by (auto dest!: with_check_create intro: digests_distinct_unique)
next
  case (10 body db db' out)
  then show ?case by (intro exI [of _ db] exI [of _ db']) (auto simp: mem_auth_db_def split: prod.splits sum.splits)
next
  case (11 body db db' e)
  then show ?case by (auto simp: mem_auth_db_def split: prod.splits sum.splits)
qed (auto simp: on_part_def split: prod.splits)

end
