(* ===== verification/Auth_Validation.thy ===== *)
theory Auth_Validation
  imports Jobflow_Prelude
begin

text \<open>
  \<^verbatim>\<open>internal/auth/validation.go\<close>: the e-mail pattern and the password rules. The pattern is a value of a small datatype
  of regular expressions, matched by derivatives, so that it can be compared with the source piece by piece; its language is then shown to be
  the set of addresses one expects. All classes of the pattern are ASCII, so matching bytes and matching runes agree.

  The Unicode tables beyond Latin-1 are a parameter (they are data of the standard library that change with
  its Unicode version); the Latin-1 part of the four predicates is written out.
\<close>

section \<open>Regular expressions\<close>

datatype regexp =
    NoMatch
  | EmptyStr
  | Class "char \<Rightarrow> bool"
  | Seq regexp regexp
  | Alt regexp regexp
  | Star regexp

fun nullable :: "regexp \<Rightarrow> bool" where
  "nullable NoMatch = False"
| "nullable EmptyStr = True"
| "nullable (Class P) = False"
| "nullable (Seq r s) = (nullable r \<and> nullable s)"
| "nullable (Alt r s) = (nullable r \<or> nullable s)"
| "nullable (Star r) = True"

fun deriv :: "char \<Rightarrow> regexp \<Rightarrow> regexp" where
  "deriv c NoMatch = NoMatch"
| "deriv c EmptyStr = NoMatch"
| "deriv c (Class P) = (if P c then EmptyStr else NoMatch)"
| "deriv c (Seq r s) = (if nullable r then Alt (Seq (deriv c r) s) (deriv c s) else Seq (deriv c r) s)"
| "deriv c (Alt r s) = Alt (deriv c r) (deriv c s)"
| "deriv c (Star r) = Seq (deriv c r) (Star r)"

fun MatchString :: "regexp \<Rightarrow> string \<Rightarrow> bool" where
  "MatchString r [] = nullable r"
| "MatchString r (c # cs) = MatchString (deriv c r) cs"

definition Plus :: "regexp \<Rightarrow> regexp" where "Plus r = Seq r (Star r)"
definition Opt :: "regexp \<Rightarrow> regexp" where "Opt r = Alt r EmptyStr"
definition Lit :: "char \<Rightarrow> regexp" where "Lit c = Class (\<lambda>x. x = c)"

fun UpTo :: "nat \<Rightarrow> regexp \<Rightarrow> regexp" where
  "UpTo 0 r = EmptyStr"
| "UpTo (Suc n) r = Opt (Seq r (UpTo n r))"

section \<open>The e-mail pattern\<close>

definition alnum :: "char \<Rightarrow> bool" where
  "alnum c \<longleftrightarrow> (97 \<le> byte c \<and> byte c \<le> 122) \<or> (65 \<le> byte c \<and> byte c \<le> 90) \<or> (48 \<le> byte c \<and> byte c \<le> 57)"

definition alnum_dash :: "char \<Rightarrow> bool" where
  "alnum_dash c \<longleftrightarrow> alnum c \<or> c = CHR ''-''"

definition local_char :: "char \<Rightarrow> bool" where
  \<comment> \<open>letters, digits and \<^verbatim>\<open>.!#$%&'*+/=?^_`{|}~-\<close>\<close>
  "local_char c \<longleftrightarrow> alnum c \<or> byte c \<in> {46, 33, 35, 36, 37, 38, 39, 42, 43, 47, 61, 63, 94, 95, 96, 123, 124, 125, 126, 45}"

definition label_re :: regexp where
  "label_re = Seq (Class alnum) (Opt (Seq (UpTo 61 (Class alnum_dash)) (Class alnum)))"

definition emailRegex :: regexp where
  "emailRegex = Seq (Plus (Class local_char)) (Seq (Lit (CHR ''@'')) (Seq label_re (Star (Seq (Lit (CHR ''.'')) label_re))))"

definition validateEmail :: "string \<Rightarrow> bool" where
  "validateEmail email = MatchString emailRegex email"

section \<open>Passwords\<close>

record unicode_tables =
  ut_Upper :: "nat \<Rightarrow> bool"
  ut_Lower :: "nat \<Rightarrow> bool"
  ut_Digit :: "nat \<Rightarrow> bool"
  ut_Punct :: "nat \<Rightarrow> bool"
  ut_Symbol :: "nat \<Rightarrow> bool"

definition IsUpper :: "unicode_tables \<Rightarrow> nat \<Rightarrow> bool" where
  "IsUpper ut r = (if r \<le> 255 then (65 \<le> r \<and> r \<le> 90) \<or> (192 \<le> r \<and> r \<le> 222 \<and> r \<noteq> 215) else ut_Upper ut r)"

definition IsLower :: "unicode_tables \<Rightarrow> nat \<Rightarrow> bool" where
  "IsLower ut r = (if r \<le> 255 then (97 \<le> r \<and> r \<le> 122) \<or> r = 181 \<or> (223 \<le> r \<and> r \<noteq> 247) else ut_Lower ut r)"

definition IsDigit :: "unicode_tables \<Rightarrow> nat \<Rightarrow> bool" where
  "IsDigit ut r = (if r \<le> 255 then 48 \<le> r \<and> r \<le> 57 else ut_Digit ut r)"

definition IsPunct :: "unicode_tables \<Rightarrow> nat \<Rightarrow> bool" where
  "IsPunct ut r = (if r \<le> 255 then r \<in> {33, 34, 35, 37, 38, 39, 40, 41, 42, 44, 45, 46, 47, 58, 59, 63, 64, 91, 92, 93, 95, 123, 125,
     161, 167, 171, 182, 183, 187, 191} else ut_Punct ut r)"

definition IsSymbol :: "unicode_tables \<Rightarrow> nat \<Rightarrow> bool" where
  "IsSymbol ut r = (if r \<le> 255 then r \<in> {36, 43, 60, 61, 62, 94, 96, 124, 126,
     162, 163, 164, 165, 166, 168, 169, 172, 174, 175, 176, 177, 180, 184, 215, 247} else ut_Symbol ut r)"

record password_flags =
  hasUpper :: bool
  hasLower :: bool
  hasNumber :: bool
  hasSpecial :: bool

definition scan_rune :: "unicode_tables \<Rightarrow> nat \<Rightarrow> password_flags \<Rightarrow> password_flags" where
  "scan_rune ut r fl =
     (if IsUpper ut r then fl\<lparr>hasUpper := True\<rparr>
      else if IsLower ut r then fl\<lparr>hasLower := True\<rparr>
      else if IsDigit ut r then fl\<lparr>hasNumber := True\<rparr>
      else if IsPunct ut r \<or> IsSymbol ut r then fl\<lparr>hasSpecial := True\<rparr>
      else fl)"

definition scan_password :: "unicode_tables \<Rightarrow> string \<Rightarrow> password_flags" where
  "scan_password ut password =
     fold (scan_rune ut) (runes password) \<lparr>hasUpper = False, hasLower = False, hasNumber = False, hasSpecial = False\<rparr>"

definition minLength :: nat where "minLength = 8"

definition validatePassword :: "unicode_tables \<Rightarrow> string \<Rightarrow> string option" where
  \<comment> \<open>\<open>None\<close>: accepted; otherwise the text of the error\<close>
  "validatePassword ut password =
     (if length password < minLength then Some ''password must be at least 8 characters long''
      else let fl = scan_password ut password
           in if \<not> hasUpper fl then Some ''password must contain at least one uppercase letter''
              else if \<not> hasLower fl then Some ''password must contain at least one lowercase letter''
              else if \<not> hasNumber fl then Some ''password must contain at least one number''
              else if \<not> hasSpecial fl then Some ''password must contain at least one special character''
              else None)"

section \<open>The language of a regular expression\<close>

fun lang :: "regexp \<Rightarrow> string set" where
  "lang NoMatch = {}"
| "lang EmptyStr = {[]}"
| "lang (Class P) = {[c] | c. P c}"
| "lang (Seq r s) = {u @ v | u v. u \<in> lang r \<and> v \<in> lang s}"
| "lang (Alt r s) = lang r \<union> lang s"
| "lang (Star r) = {concat ws | ws. set ws \<subseteq> lang r}"

lemma nullable_lang: "nullable r \<longleftrightarrow> [] \<in> lang r"
proof (induction r)
  case (Star r)
  show ?case by (auto intro: exI [of _ "[]"])
qed auto

lemma star_cons:
  "c # w \<in> {concat ws | ws. set ws \<subseteq> A} \<longleftrightarrow> (\<exists>u v. w = u @ v \<and> c # u \<in> A \<and> v \<in> {concat ws | ws. set ws \<subseteq> A})" (is "?l \<longleftrightarrow> ?r")
proof
  assume ?l
  then obtain ws where ws: "c # w = concat ws" "set ws \<subseteq> A" by auto
  then show ?r
  proof (induction ws)
    case (Cons x ws)
    then show ?case by (cases x) auto
  qed simp
next
  assume ?r
  then obtain u ws where "w = u @ concat ws" "c # u \<in> A" "set ws \<subseteq> A" by auto
  then show ?l by (intro CollectI exI [of _ "(c # u) # ws"]) auto
qed

lemma deriv_lang: "w \<in> lang (deriv c r) \<longleftrightarrow> c # w \<in> lang r"
proof (induction r arbitrary: w)
  case (Seq r s)
  have "c # w \<in> lang (Seq r s) \<longleftrightarrow> (\<exists>u v. w = u @ v \<and> c # u \<in> lang r \<and> v \<in> lang s) \<or> [] \<in> lang r \<and> c # w \<in> lang s"
    by (auto simp: Cons_eq_append_conv)
  then show ?case using Seq by (auto simp: nullable_lang)
next
  case (Star r)
  then show ?case using star_cons [of c w "lang r"] by auto
qed auto

lemma MatchString_lang: "MatchString r w \<longleftrightarrow> w \<in> lang r"
  by (induction w arbitrary: r) (auto simp: nullable_lang deriv_lang)

lemma lang_seq_class: "w \<in> lang (Seq (Class P) r) \<longleftrightarrow> (\<exists>c v. w = c # v \<and> P c \<and> v \<in> lang r)"
proof
  assume "w \<in> lang (Seq (Class P) r)"
  then obtain c v where "w = [c] @ v" "P c" "v \<in> lang r" by auto
  then show "\<exists>c v. w = c # v \<and> P c \<and> v \<in> lang r" by auto
next
  assume "\<exists>c v. w = c # v \<and> P c \<and> v \<in> lang r"
  then obtain c v where "w = [c] @ v" "P c" "v \<in> lang r" by auto
  then show "w \<in> lang (Seq (Class P) r)" unfolding lang.simps by blast
qed

lemma lang_UpTo: "lang (UpTo n (Class P)) = {w. length w \<le> n \<and> list_all P w}"
proof (induction n)
  case (Suc n)
  have "w \<in> lang (UpTo (Suc n) (Class P)) \<longleftrightarrow> w = [] \<or> w \<in> lang (Seq (Class P) (UpTo n (Class P)))" for w
    by (auto simp only: UpTo.simps Opt_def lang.simps(2,5))
  then have "w \<in> lang (UpTo (Suc n) (Class P)) \<longleftrightarrow> w \<in> {w. length w \<le> Suc n \<and> list_all P w}" for w
    using Suc by (cases w) (auto simp: lang_seq_class simp del: lang.simps(4) UpTo.simps)
  then show ?case by blast
qed auto

lemma lang_star_class: "lang (Star (Class P)) = {w. list_all P w}"
proof (intro set_eqI)
  fix w
  have "w \<in> lang (Star (Class P))" if "list_all P w"
    using that by (auto simp: list_all_iff concat_map_singleton intro!: exI [of _ "map (\<lambda>c. [c]) w"])
  moreover have "list_all P (concat ws)" if "set ws \<subseteq> {[c] | c. P c}" for ws
    using that by (auto simp: list_all_iff)
  ultimately show "w \<in> lang (Star (Class P)) \<longleftrightarrow> w \<in> {w. list_all P w}" by auto
qed

lemma lang_plus_class: "lang (Plus (Class P)) = {w. w \<noteq> [] \<and> list_all P w}"
proof (intro set_eqI)
  show "w \<in> lang (Plus (Class P)) \<longleftrightarrow> w \<in> {w. w \<noteq> [] \<and> list_all P w}" for w
    using lang_star_class [of P] unfolding Plus_def lang_seq_class by (cases w) auto
qed

section \<open>The addresses the pattern accepts\<close>

definition valid_label :: "string \<Rightarrow> bool" where
  "valid_label l \<longleftrightarrow> l \<noteq> [] \<and> length l \<le> 63 \<and> alnum (hd l) \<and> alnum (last l) \<and> list_all alnum_dash l"

fun dot_join :: "string list \<Rightarrow> string" where
  "dot_join [] = []"
| "dot_join [l] = l"
| "dot_join (l # ls) = l @ ''.'' @ dot_join ls"

lemma lang_label: "w \<in> lang label_re \<longleftrightarrow> valid_label w"
proof -
  have inner: "v \<in> lang (Opt (Seq (UpTo 61 (Class alnum_dash)) (Class alnum))) \<longleftrightarrow>
      v = [] \<or> (\<exists>m x. v = m @ [x] \<and> length m \<le> 61 \<and> list_all alnum_dash m \<and> alnum x)" for v
    unfolding Opt_def lang.simps lang_UpTo by blast
  have dash: "alnum x \<Longrightarrow> alnum_dash x" for x by (simp add: alnum_dash_def)
  show ?thesis
  proof (cases w)
    case Nil
    then show ?thesis by (simp add: label_re_def valid_label_def)
  next
    case (Cons c v)
    have "w \<in> lang label_re \<longleftrightarrow> alnum c \<and>
        (v = [] \<or> (\<exists>m x. v = m @ [x] \<and> length m \<le> 61 \<and> list_all alnum_dash m \<and> alnum x))"
      unfolding label_re_def lang_seq_class inner Cons by simp
    also have "\<dots> \<longleftrightarrow> valid_label w"
      using dash by (cases v rule: rev_cases) (auto simp: valid_label_def Cons)
    finally show ?thesis .
  qed
qed

lemma dot_join_Cons: "dot_join (l # ls) = l @ concat (map (\<lambda>x. ''.'' @ x) ls)"
  by (induction ls arbitrary: l) auto

lemma lang_domain:
  "w \<in> lang (Seq label_re (Star (Seq (Lit (CHR ''.'')) label_re))) \<longleftrightarrow>
     (\<exists>ls. ls \<noteq> [] \<and> list_all valid_label ls \<and> w = dot_join ls)"
proof -
  have dot: "x \<in> lang (Seq (Lit (CHR ''.'')) label_re) \<longleftrightarrow> (\<exists>l. valid_label l \<and> x = ''.'' @ l)" for x
    unfolding Lit_def lang_seq_class lang_label by auto
  have star: "(\<exists>ws. v = concat ws \<and> set ws \<subseteq> lang (Seq (Lit (CHR ''.'')) label_re)) \<longleftrightarrow>
      (\<exists>ls. list_all valid_label ls \<and> v = concat (map (\<lambda>x. ''.'' @ x) ls))" for v
  proof
    assume "\<exists>ws. v = concat ws \<and> set ws \<subseteq> lang (Seq (Lit (CHR ''.'')) label_re)"
    then obtain ws where ws: "v = concat ws" "set ws \<subseteq> lang (Seq (Lit (CHR ''.'')) label_re)" by blast
    then have "\<forall>x\<in>set ws. valid_label (tl x) \<and> x = ''.'' @ tl x" using dot by auto
    then have "list_all valid_label (map tl ws)" "map (\<lambda>x. ''.'' @ x) (map tl ws) = ws"
      by (simp_all add: list_all_iff map_idI)
    with ws(1) show "\<exists>ls. list_all valid_label ls \<and> v = concat (map (\<lambda>x. ''.'' @ x) ls)" by metis
  next
    assume "\<exists>ls. list_all valid_label ls \<and> v = concat (map (\<lambda>x. ''.'' @ x) ls)"
    then obtain ls where ls: "list_all valid_label ls" "v = concat (map (\<lambda>x. ''.'' @ x) ls)" by blast
    then show "\<exists>ws. v = concat ws \<and> set ws \<subseteq> lang (Seq (Lit (CHR ''.'')) label_re)"
      using dot by (intro exI [of _ "map (\<lambda>x. ''.'' @ x) ls"]) (auto simp: list_all_iff)
  qed
  have "w \<in> lang (Seq label_re (Star (Seq (Lit (CHR ''.'')) label_re))) \<longleftrightarrow>
      (\<exists>u v. w = u @ v \<and> valid_label u \<and> (\<exists>ls. list_all valid_label ls \<and> v = concat (map (\<lambda>x. ''.'' @ x) ls)))"
    unfolding lang.simps(4,6) lang_label star [symmetric] by blast
  also have "\<dots> \<longleftrightarrow> (\<exists>l ls. valid_label l \<and> list_all valid_label ls \<and> w = dot_join (l # ls))"
    unfolding dot_join_Cons by blast
  also have "\<dots> \<longleftrightarrow> (\<exists>ls. ls \<noteq> [] \<and> list_all valid_label ls \<and> w = dot_join ls)"
    by (metis list.pred_inject(2) list.distinct(1) neq_Nil_conv)
  finally show ?thesis .
qed

lemma scan_flags:
  "hasUpper (fold (scan_rune ut) rs fl) \<longleftrightarrow> hasUpper fl \<or> (\<exists>r\<in>set rs. IsUpper ut r)"
  "hasLower (fold (scan_rune ut) rs fl) \<longleftrightarrow> hasLower fl \<or> (\<exists>r\<in>set rs. \<not> IsUpper ut r \<and> IsLower ut r)"
  "hasNumber (fold (scan_rune ut) rs fl) \<longleftrightarrow> hasNumber fl \<or> (\<exists>r\<in>set rs. \<not> IsUpper ut r \<and> \<not> IsLower ut r \<and> IsDigit ut r)"
  "hasSpecial (fold (scan_rune ut) rs fl) \<longleftrightarrow> hasSpecial fl
     \<or> (\<exists>r\<in>set rs. \<not> IsUpper ut r \<and> \<not> IsLower ut r \<and> \<not> IsDigit ut r \<and> (IsPunct ut r \<or> IsSymbol ut r))"
  by (induction rs arbitrary: fl) (auto simp: scan_rune_def)

section \<open>Properties\<close>

text \<open>
  C33. The e-mail pattern accepts exactly: a non-empty local part of the allowed characters, an \<^verbatim>\<open>@\<close>, and a domain of one or more
  labels joined by dots, where a label has 1 to 63 letters, digits or hyphens and neither starts nor ends with
  a hyphen.
\<close>

theorem validate_email_characterised:
  "validateEmail s \<longleftrightarrow> (\<exists>loc ls. s = loc @ ''@'' @ dot_join ls \<and> loc \<noteq> [] \<and> list_all local_char loc
     \<and> ls \<noteq> [] \<and> list_all valid_label ls)"
proof -
  have "validateEmail s \<longleftrightarrow> (\<exists>u v. s = u @ v \<and> (u \<noteq> [] \<and> list_all local_char u)
      \<and> (\<exists>c w. v = c # w \<and> c = CHR ''@'' \<and> w \<in> lang (Seq label_re (Star (Seq (Lit (CHR ''.'')) label_re)))))"
    unfolding validateEmail_def MatchString_lang emailRegex_def Lit_def
    unfolding lang.simps(4) [of "Plus (Class local_char)"] lang_seq_class lang_plus_class by simp
  also have "\<dots> \<longleftrightarrow> (\<exists>loc ls. s = loc @ ''@'' @ dot_join ls \<and> loc \<noteq> [] \<and> list_all local_char loc
     \<and> ls \<noteq> [] \<and> list_all valid_label ls)"
    unfolding lang_domain by auto
  finally show ?thesis .
qed

text \<open>
  C34. A password is accepted exactly when it has at least 8 bytes and, among its runes, an uppercase letter, a lowercase letter, a digit
  and a punctuation mark or symbol, provided the Unicode classes are disjoint (a rune counts for the first class it is in).
\<close>

theorem validate_password_characterised:
  assumes "\<And>r. \<not> (IsUpper ut r \<and> IsLower ut r)" and "\<And>r. IsDigit ut r \<Longrightarrow> \<not> IsUpper ut r \<and> \<not> IsLower ut r"
    and "\<And>r. IsPunct ut r \<or> IsSymbol ut r \<Longrightarrow> \<not> IsUpper ut r \<and> \<not> IsLower ut r \<and> \<not> IsDigit ut r"
  shows "validatePassword ut p = None \<longleftrightarrow> 8 \<le> length p \<and> (\<exists>r\<in>set (runes p). IsUpper ut r)
    \<and> (\<exists>r\<in>set (runes p). IsLower ut r) \<and> (\<exists>r\<in>set (runes p). IsDigit ut r)
    \<and> (\<exists>r\<in>set (runes p). IsPunct ut r \<or> IsSymbol ut r)"
proof -
  note scan = scan_password_def scan_flags password_flags.select_convs
  have upper: "hasUpper (scan_password ut p) \<longleftrightarrow> (\<exists>r\<in>set (runes p). IsUpper ut r)"
    unfolding scan by blast
  have lower: "hasLower (scan_password ut p) \<longleftrightarrow> (\<exists>r\<in>set (runes p). IsLower ut r)"
    using assms(1) unfolding scan by blast
  have digit: "hasNumber (scan_password ut p) \<longleftrightarrow> (\<exists>r\<in>set (runes p). IsDigit ut r)"
    using assms(2) unfolding scan by blast
  have special: "hasSpecial (scan_password ut p) \<longleftrightarrow> (\<exists>r\<in>set (runes p). IsPunct ut r \<or> IsSymbol ut r)"
    using assms(3) unfolding scan by blast
  show ?thesis
    unfolding validatePassword_def minLength_def Let_def by (simp add: upper lower digit special)
qed

definition latin_tables :: unicode_tables where
  "latin_tables = \<lparr>ut_Upper = (\<lambda>r. False), ut_Lower = (\<lambda>r. False), ut_Digit = (\<lambda>r. False), ut_Punct = (\<lambda>r. False), ut_Symbol = (\<lambda>r. False)\<rparr>"

theorem validate_password_characterised_witness:
  "validatePassword latin_tables ''Passw0rd!'' = None"
proof -
  have disjoint: "\<not> (IsUpper latin_tables r \<and> IsLower latin_tables r)"
    "IsDigit latin_tables r \<Longrightarrow> \<not> IsUpper latin_tables r \<and> \<not> IsLower latin_tables r"
    "IsPunct latin_tables r \<or> IsSymbol latin_tables r \<Longrightarrow> \<not> IsUpper latin_tables r \<and> \<not> IsLower latin_tables r \<and> \<not> IsDigit latin_tables r" for r
    by (auto simp: IsUpper_def IsLower_def IsDigit_def IsPunct_def IsSymbol_def latin_tables_def split: if_splits)
  have "runes ''Passw0rd!'' = [80, 97, 115, 115, 119, 48, 114, 100, 33]"
    by (simp add: runes_def utf8_chunks.simps DecodeRune_def byte_def)
  with validate_password_characterised [OF disjoint, of "''Passw0rd!''"] show ?thesis
    by (simp add: IsUpper_def IsLower_def IsDigit_def IsPunct_def IsSymbol_def)
qed

end
