(* ===== verification/Auth_Service.thy ===== *)
theory Auth_Service
  imports Auth_Model Auth_Validation
begin

text \<open>
  Package \<^verbatim>\<open>internal/auth\<close>, \<^verbatim>\<open>service.go\<close> and the request and result types of \<^verbatim>\<open>dto.go\<close>: sign-up, login, refresh with rotation and reuse
  detection, and logout.

  An operation takes the database, the Redis server, the clock and the random source as state, and returns the state after it with an error or a result. The
  locale \<open>auth_service\<close> puts together the contracts of the store and of the two crypto packages, the facts about each operation are proved there
  once, and the properties at the end state them for any service that meets the contracts.
\<close>

section \<open>Requests and results\<close>

record CreateUserRequest =
  cu_Email :: string
  cu_Password :: string

record LoginRequest =
  lr_Email :: string
  lr_Password :: string

record LogoutRequest =
  lo_RefreshToken :: string

record SignupResult =
  sr_User :: User
  sr_AccessToken :: string
  sr_RefreshToken :: string

record LoginResult =
  lg_User :: User
  lg_AccessToken :: string
  lg_RefreshToken :: string

record Tokens =
  tk_AccessToken :: string
  tk_RefreshToken :: string

section \<open>The service\<close>

record ('db, 'rd) AuthService =
  sv_repo :: "'db auth_db"
  sv_jtiStore :: "'rd redis_client"
  sv_jwt :: jwt
  sv_bcrypt :: bcrypt
  sv_cfg :: Config
  sv_unicode :: unicode_tables

definition NewAuthService :: "'db auth_db \<Rightarrow> 'rd redis_client \<Rightarrow> jwt \<Rightarrow> bcrypt \<Rightarrow> Config \<Rightarrow> unicode_tables \<Rightarrow> ('db, 'rd) AuthService" where
  [simp]: "NewAuthService repo jtiStore jwt bcrypt cfg unicode =
     \<lparr>sv_repo = repo, sv_jtiStore = jtiStore, sv_jwt = jwt, sv_bcrypt = bcrypt, sv_cfg = cfg, sv_unicode = unicode\<rparr>"

record ('db, 'rd) auth_state =
  au_db :: 'db
  au_rd :: 'rd
  au_clock :: clock
  au_rand :: entropy

definition new_refresh :: "string \<Rightarrow> string \<Rightarrow> time \<Rightarrow> RefreshToken" where
  "new_refresh userID hashed now = zeroRefreshToken\<lparr>rt_UserID := userID, rt_TokenHash := hashed, rt_ExpiresAt := now + RefreshTokenTTL\<rparr>"

definition CreateUserService ::
  "('db, 'rd) AuthService \<Rightarrow> CreateUserRequest \<Rightarrow> ('db, 'rd) auth_state \<Rightarrow> ('db, 'rd) auth_state \<times> (auth_error + SignupResult)"
where
  "CreateUserService s req st =
    (if \<not> validateEmail (cu_Email req) then (st, Inl (auth_err ErrInvalidEmail))
     else case validatePassword (sv_unicode s) (cu_Password req) of
       Some reason \<Rightarrow> (st, Inl (wrapWeakPassword reason))
     | None \<Rightarrow> (case CheckEmailExists (sv_repo s) (cu_Email req) (au_db st) of
         (db1, Inl e) \<Rightarrow> (st\<lparr>au_db := db1\<rparr>, Inl (auth_err_wrap ErrInternal (gorm_error_text e)))
       | (db1, Inr True) \<Rightarrow> (st\<lparr>au_db := db1\<rparr>, Inl (auth_err ErrEmailExists))
       | (db1, Inr False) \<Rightarrow> (case HashPassword (sv_bcrypt s) (cu_Password req) (au_rand st) of
           (e1, Inl err) \<Rightarrow> (st\<lparr>au_db := db1, au_rand := e1\<rparr>, Inl (auth_err_wrap ErrHashingPassword err))
         | (e1, Inr hashedPassword) \<Rightarrow> (case GenerateRefreshToken e1 of
             (e2, Inl err) \<Rightarrow> (st\<lparr>au_db := db1, au_rand := e2\<rparr>, Inl (auth_err_wrap ErrRefreshTokenGenerate err))
           | (e2, Inr (rawRefresh, hashedRefresh)) \<Rightarrow>
               (let user = zeroUser\<lparr>u_Email := cu_Email req, u_PasswordHash := hashedPassword\<rparr>;
                    (now, clk1) = time_Now (au_clock st);
                    refresh = new_refresh '''' hashedRefresh now
                in case CreateUserWithRefreshToken (sv_repo s) user refresh db1 of
                     (db2, Inl e) \<Rightarrow> (st\<lparr>au_db := db2, au_clock := clk1, au_rand := e2\<rparr>, Inl (auth_err_wrap ErrToCreateUser (gorm_error_text e)))
                   | (db2, Inr createdUser) \<Rightarrow>
                       (case CreateToken (sv_jwt s) (sv_cfg s) (u_ID createdUser) e2 clk1 of
                          (e3, clk2, Inl err) \<Rightarrow> (st\<lparr>au_db := db2, au_clock := clk2, au_rand := e3\<rparr>, Inl (auth_err_wrap ErrAccessTokenGenerate err))
                        | (e3, clk2, Inr accessToken) \<Rightarrow> (st\<lparr>au_db := db2, au_clock := clk2, au_rand := e3\<rparr>,
                            Inr \<lparr>sr_User = createdUser, sr_AccessToken = accessToken, sr_RefreshToken = rawRefresh\<rparr>)))))))"

definition LoginUserService ::
  "('db, 'rd) AuthService \<Rightarrow> LoginRequest \<Rightarrow> ('db, 'rd) auth_state \<Rightarrow> ('db, 'rd) auth_state \<times> (auth_error + LoginResult)"
where
  "LoginUserService s req st =
    (if \<not> validateEmail (lr_Email req) then (st, Inl (auth_err ErrInvalidEmail))
     else case GetUserPassword (sv_repo s) (lr_Email req) (au_db st) of
       (db1, Inl ErrRecordNotFound) \<Rightarrow> (st\<lparr>au_db := db1\<rparr>, Inl (auth_err ErrNotFound))
     | (db1, Inl e) \<Rightarrow> (st\<lparr>au_db := db1\<rparr>, Inl (OtherErr (''get user: '' @ gorm_error_text e)))
     | (db1, Inr user) \<Rightarrow> (case CheckPasswordHash (sv_bcrypt s) (lr_Password req) (u_PasswordHash user) of
         Some err \<Rightarrow> (st\<lparr>au_db := db1\<rparr>, Inl (auth_err ErrWrongPassword))
       | None \<Rightarrow> (case GenerateRefreshToken (au_rand st) of
           (e1, Inl err) \<Rightarrow> (st\<lparr>au_db := db1, au_rand := e1\<rparr>, Inl (auth_err_wrap ErrRefreshTokenGenerate err))
         | (e1, Inr (rawRefresh, hashedRefresh)) \<Rightarrow>
             (let (now, clk1) = time_Now (au_clock st);
                  refresh = new_refresh (u_ID user) hashedRefresh now
              in case CreateRefreshToken (sv_repo s) refresh db1 of
                   (db2, Some e) \<Rightarrow> (st\<lparr>au_db := db2, au_clock := clk1, au_rand := e1\<rparr>, Inl (auth_err_wrap ErrRefreshTokenStore (gorm_error_text e)))
                 | (db2, None) \<Rightarrow>
                     (case CreateToken (sv_jwt s) (sv_cfg s) (u_ID user) e1 clk1 of
                        (e2, clk2, Inl err) \<Rightarrow> (st\<lparr>au_db := db2, au_clock := clk2, au_rand := e2\<rparr>, Inl (auth_err_wrap ErrAccessTokenGenerate err))
                      | (e2, clk2, Inr accessToken) \<Rightarrow> (st\<lparr>au_db := db2, au_clock := clk2, au_rand := e2\<rparr>,
                          Inr \<lparr>lg_User = user, lg_AccessToken = accessToken, lg_RefreshToken = rawRefresh\<rparr>))))))"

definition RefreshAccessToken ::
  "('db, 'rd) AuthService \<Rightarrow> string \<Rightarrow> ('db, 'rd) auth_state \<Rightarrow> ('db, 'rd) auth_state \<times> (auth_error + Tokens)"
where
  "RefreshAccessToken s refreshToken st =
    (case FindRefreshTokenByHash (sv_repo s) (HashToken refreshToken) (au_db st) of
       (db1, Inl ErrRecordNotFound) \<Rightarrow> (st\<lparr>au_db := db1\<rparr>, Inl (auth_err ErrInvalidRefreshToken))
     | (db1, Inl e) \<Rightarrow> (st\<lparr>au_db := db1\<rparr>, Inl (OtherErr (''lookup refresh token: '' @ gorm_error_text e)))
     | (db1, Inr stored) \<Rightarrow>
         (let (now, clk1) = time_Now (au_clock st)
          in if rt_RevokedAt stored \<noteq> None
             then (case RevokeFamily (sv_repo s) (rt_FamilyID stored) now db1 of
                     (db2, _) \<Rightarrow> (st\<lparr>au_db := db2, au_clock := clk1\<rparr>, Inl (auth_err ErrRefreshTokenReused)))
             else if rt_ExpiresAt stored < now
             then (st\<lparr>au_db := db1, au_clock := clk1\<rparr>, Inl (auth_err ErrInvalidRefreshToken))
             else (case GetUserByID (sv_repo s) (rt_UserID stored) db1 of
                 (db2, Inl ErrRecordNotFound) \<Rightarrow> (st\<lparr>au_db := db2, au_clock := clk1\<rparr>, Inl (auth_err ErrUserNotFound))
               | (db2, Inl e) \<Rightarrow> (st\<lparr>au_db := db2, au_clock := clk1\<rparr>, Inl (OtherErr (''get user: '' @ gorm_error_text e)))
               | (db2, Inr user) \<Rightarrow> (case GenerateRefreshToken (au_rand st) of
                   (e1, Inl err) \<Rightarrow> (st\<lparr>au_db := db2, au_clock := clk1, au_rand := e1\<rparr>, Inl (auth_err_wrap ErrRefreshTokenGenerate err))
                 | (e1, Inr (rawRefresh, hashedRefresh)) \<Rightarrow> (case RotateRefreshToken (sv_repo s) stored hashedRefresh clk1 db2 of
                     (db3, clk2, Inl e) \<Rightarrow> (st\<lparr>au_db := db3, au_clock := clk2, au_rand := e1\<rparr>, Inl (auth_err_wrap ErrTokenRotation (gorm_error_text e)))
                   | (db3, clk2, Inr _) \<Rightarrow> (case CreateToken (sv_jwt s) (sv_cfg s) (u_ID user) e1 clk2 of
                       (e2, clk3, Inl err) \<Rightarrow> (st\<lparr>au_db := db3, au_clock := clk3, au_rand := e2\<rparr>, Inl (auth_err_wrap ErrAccessTokenGenerate err))
                     | (e2, clk3, Inr accessToken) \<Rightarrow> (st\<lparr>au_db := db3, au_clock := clk3, au_rand := e2\<rparr>,
                         Inr \<lparr>tk_AccessToken = accessToken, tk_RefreshToken = rawRefresh\<rparr>)))))))"

definition LogoutService ::
  "('db, 'rd) AuthService \<Rightarrow> string \<Rightarrow> time \<Rightarrow> string \<Rightarrow> ('db, 'rd) auth_state \<Rightarrow> ('db, 'rd) auth_state \<times> auth_error option"
where
  "LogoutService s jti accessExp refreshToken st =
    (let (now, clk1) = time_Now (au_clock st)
     in case Revoke (sv_jtiStore s) jti (time_Sub accessExp now) (au_rd st) of
          (rd1, Some err) \<Rightarrow> (st\<lparr>au_rd := rd1, au_clock := clk1\<rparr>, Some (OtherErr (''revoke jti: '' @ err)))
        | (rd1, None) \<Rightarrow> (case FindRefreshTokenByHash (sv_repo s) (HashToken refreshToken) (au_db st) of
            (db1, Inl ErrRecordNotFound) \<Rightarrow> (st\<lparr>au_rd := rd1, au_db := db1, au_clock := clk1\<rparr>, None)
          | (db1, Inl e) \<Rightarrow> (st\<lparr>au_rd := rd1, au_db := db1, au_clock := clk1\<rparr>, Some (OtherErr (''lookup refresh token: '' @ gorm_error_text e)))
          | (db1, Inr stored) \<Rightarrow>
              (let (now', clk2) = time_Now clk1
               in case RevokeFamily (sv_repo s) (rt_FamilyID stored) now' db1 of (db2, r) \<Rightarrow>
                    (st\<lparr>au_rd := rd1, au_db := db2, au_clock := clk2\<rparr>,
                     if rt_RevokedAt stored \<noteq> None then Some (auth_err ErrRefreshTokenReused)
                     else map_option (\<lambda>e. OtherErr (gorm_error_text e)) r))))"

section \<open>The contract of the service's parts\<close>

locale auth_service =
  store: auth_store "sv_repo s" utbl ttbl + tokens: jwt_lib "sv_jwt s" genuine + passwords: bcrypt_lib "sv_bcrypt s"
  for s :: "('db, 'rd) AuthService" and utbl :: "'db \<Rightarrow> string \<Rightarrow> User option" and ttbl :: "'db \<Rightarrow> string \<Rightarrow> RefreshToken option"
    and genuine :: "jwt_method \<Rightarrow> string \<Rightarrow> RegisteredClaims \<Rightarrow> string \<Rightarrow> bool"

definition active :: "RefreshToken \<Rightarrow> bool" where
  "active t \<longleftrightarrow> rt_RevokedAt t = None"

lemma errors_Is_err [simp]:
  "errors_Is (auth_err s1) s2 \<longleftrightarrow> s1 = s2" "errors_Is (auth_err_wrap s1 d) s2 \<longleftrightarrow> s1 = s2"
  "\<not> errors_Is (wrapWeakPassword d) s2"
  by (simp_all add: auth_err_def auth_err_wrap_def wrapWeakPassword_def)

lemma new_refresh_sel [simp]:
  "rt_ID (new_refresh u h t) = ''''" "rt_UserID (new_refresh u h t) = u" "rt_FamilyID (new_refresh u h t) = ''''"
  "rt_ParentID (new_refresh u h t) = None" "rt_TokenHash (new_refresh u h t) = h"
  "rt_ExpiresAt (new_refresh u h t) = t + RefreshTokenTTL" "rt_RevokedAt (new_refresh u h t) = None"
  by (simp_all add: new_refresh_def zeroRefreshToken_def)

text \<open>The three ways a refresh can end.\<close>

text \<open>A refresh once the token and its user have been found.\<close>

lemma RefreshAccessToken_issue:
  assumes "RefreshAccessToken s p st = (st', r)" and "FindRefreshTokenByHash (sv_repo s) (HashToken p) (au_db st) = (db1, Inr old)"
    and "rt_RevokedAt old = None" and "shd (au_clock st) \<le> rt_ExpiresAt old" and "GetUserByID (sv_repo s) (rt_UserID old) db1 = (db2, Inr u)"
  obtains (ungenerated) e where "r = Inl e" "\<not> errors_Is e ErrRefreshTokenReused" "au_db st' = db2"
  | (unrotated) e h clk clk' e' where "r = Inl e" "\<not> errors_Is e ErrRefreshTokenReused" "RotateRefreshToken (sv_repo s) old h clk db2 = (au_db st', clk', Inl e')"
  | (issued) raw new e1 clk2 where "RotateRefreshToken (sv_repo s) old (HashToken raw) (stl (au_clock st)) db2 = (au_db st', clk2, Inr new)"
      "(\<exists>e. r = Inl e \<and> errors_Is e ErrAccessTokenGenerate)
        \<or> (\<exists>tok e2 clk3. CreateToken (sv_jwt s) (sv_cfg s) (u_ID u) e1 clk2 = (e2, clk3, Inr tok)
             \<and> r = Inr \<lparr>tk_AccessToken = tok, tk_RefreshToken = raw\<rparr>)"
proof -
  obtain e1 k where k: "GenerateRefreshToken (au_rand st) = (e1, k)" by fastforce
  note run = assms(1) [unfolded RefreshAccessToken_def time_Now_def, simplified assms(2-5) k, simplified]
  show thesis
  proof (cases k)
    case (Inl e)
    with run assms(3-5) show thesis by (auto intro!: ungenerated)
  next
    case (Inr pair)
    obtain raw hashed where pair: "pair = (raw, hashed)" by (cases pair)
    then have hashed: "hashed = HashToken raw" using k Inr GenerateRefreshToken_Inr(1) by simp
    obtain db3 clk2 n where rot: "RotateRefreshToken (sv_repo s) old hashed (stl (au_clock st)) db2 = (db3, clk2, n)"
      by (metis prod_cases3)
    note run = run [simplified Inr pair, simplified assms(3-5) rot, simplified]
    show thesis
    proof (cases n)
      case (Inl e)
      with run assms(3-5) rot show thesis by (auto intro!: unrotated)
    next
      case (Inr new)
      obtain e2 clk3 c where c: "CreateToken (sv_jwt s) (sv_cfg s) (u_ID u) e1 clk2 = (e2, clk3, c)"
        by (metis prod_cases3)
      from run rot assms(3-5) Inr c hashed show thesis
        by (intro issued [of raw clk2 new e1]) (auto split: sum.splits)
    qed
  qed
qed

lemma RefreshAccessToken_cases:
  assumes "RefreshAccessToken s p st = (st', r)"
  obtains (refused) e db1 f where "r = Inl e" "\<not> errors_Is e ErrRefreshTokenReused"
      "FindRefreshTokenByHash (sv_repo s) (HashToken p) (au_db st) = (db1, f)"
      "au_db st' = db1 \<or> (\<exists>old g. f = Inr old \<and> GetUserByID (sv_repo s) (rt_UserID old) db1 = (au_db st', g))
        \<or> (\<exists>old db2 g h clk clk' e'. f = Inr old \<and> GetUserByID (sv_repo s) (rt_UserID old) db1 = (db2, g)
            \<and> RotateRefreshToken (sv_repo s) old h clk db2 = (au_db st', clk', Inl e'))"
  | (reused) old db1 err where "r = Inl (auth_err ErrRefreshTokenReused)"
      "FindRefreshTokenByHash (sv_repo s) (HashToken p) (au_db st) = (db1, Inr old)" "rt_RevokedAt old \<noteq> None"
      "RevokeFamily (sv_repo s) (rt_FamilyID old) (shd (au_clock st)) db1 = (au_db st', err)"
  | (rotated) old u raw new db1 db2 e1 clk2 where
      "FindRefreshTokenByHash (sv_repo s) (HashToken p) (au_db st) = (db1, Inr old)" "rt_RevokedAt old = None"
      "shd (au_clock st) \<le> rt_ExpiresAt old" "GetUserByID (sv_repo s) (rt_UserID old) db1 = (db2, Inr u)"
      "RotateRefreshToken (sv_repo s) old (HashToken raw) (stl (au_clock st)) db2 = (au_db st', clk2, Inr new)"
      "(\<exists>e. r = Inl e \<and> errors_Is e ErrAccessTokenGenerate)
        \<or> (\<exists>tok e2 clk3. CreateToken (sv_jwt s) (sv_cfg s) (u_ID u) e1 clk2 = (e2, clk3, Inr tok)
             \<and> r = Inr \<lparr>tk_AccessToken = tok, tk_RefreshToken = raw\<rparr>)"
proof -
  obtain db1 f where f: "FindRefreshTokenByHash (sv_repo s) (HashToken p) (au_db st) = (db1, f)" by fastforce
  note run = assms [unfolded RefreshAccessToken_def time_Now_def, simplified f]
  show thesis
  proof (cases f)
    case (Inl e)
    with run f show thesis by (cases e) (auto intro!: refused)
  next
    case (Inr old)
    note run = run [simplified Inr, simplified] and f = f [simplified Inr]
    consider "rt_RevokedAt old \<noteq> None" | "rt_RevokedAt old = None" "rt_ExpiresAt old < shd (au_clock st)"
      | "rt_RevokedAt old = None" "shd (au_clock st) \<le> rt_ExpiresAt old" by linarith
    then show thesis
    proof cases
      case 1
      with run f show thesis by (auto split: prod.splits intro!: reused [OF _ f])
    next
      case 2
      with run f show thesis by (intro refused) auto
    next
      case 3
      obtain db2 g where g: "GetUserByID (sv_repo s) (rt_UserID old) db1 = (db2, g)" by fastforce
      show thesis
      proof (cases g)
        case (Inl e)
        with run f g 3 show thesis by (cases e) (auto intro!: refused [OF _ _ f])
      next
        case (Inr u)
        from assms f 3 g [unfolded Inr] show thesis
        proof (cases rule: RefreshAccessToken_issue)
          case (ungenerated e)
          with g f show thesis by (intro refused [OF _ _ f]) auto
        next
          case (unrotated e h clk clk' e')
          with g f show thesis by (intro refused [OF _ _ f]) auto
        next
          case (issued raw new e1 clk2)
          with g f 3 Inr show thesis by (intro rotated [OF f, of db2 u raw clk2 new e1]) auto
        qed
      qed
    qed
  qed
qed

text \<open>The ways a sign-up, a login and a logout can end.\<close>

lemma CreateUserService_cases:
  assumes "CreateUserService s req st = (st', r)"
  obtains (refused) e where "r = Inl e" "st' = st"
  | (failed) e db1 x where "r = Inl e" "CheckEmailExists (sv_repo s) (cu_Email req) (au_db st) = (db1, x)"
      "au_db st' = db1 \<or> (\<exists>u t e'. CreateUserWithRefreshToken (sv_repo s) u t db1 = (au_db st', Inl e'))"
  | (created) db1 pw raw u e1 e2 e3 where "validateEmail (cu_Email req)" "validatePassword (sv_unicode s) (cu_Password req) = None"
      "CheckEmailExists (sv_repo s) (cu_Email req) (au_db st) = (db1, Inr False)"
      "HashPassword (sv_bcrypt s) (cu_Password req) (au_rand st) = (e1, Inr pw)"
      "CreateUserWithRefreshToken (sv_repo s) (zeroUser\<lparr>u_Email := cu_Email req, u_PasswordHash := pw\<rparr>)
         (new_refresh '''' (HashToken raw) (shd (au_clock st))) db1 = (au_db st', Inr u)"
      "(\<exists>e. r = Inl e \<and> errors_Is e ErrAccessTokenGenerate)
        \<or> (\<exists>tok clk3. CreateToken (sv_jwt s) (sv_cfg s) (u_ID u) e2 (stl (au_clock st)) = (e3, clk3, Inr tok)
             \<and> r = Inr \<lparr>sr_User = u, sr_AccessToken = tok, sr_RefreshToken = raw\<rparr>)"
proof (cases "validateEmail (cu_Email req) \<and> validatePassword (sv_unicode s) (cu_Password req) = None")
  case False
  with assms show thesis by (auto simp: CreateUserService_def split: if_splits option.splits intro!: refused)
next
  case True
  obtain db1 x where x: "CheckEmailExists (sv_repo s) (cu_Email req) (au_db st) = (db1, x)" by fastforce
  obtain e1 h where h: "HashPassword (sv_bcrypt s) (cu_Password req) (au_rand st) = (e1, h)" by fastforce
  obtain e2 k where k: "GenerateRefreshToken e1 = (e2, k)" by fastforce
  note run = assms [unfolded CreateUserService_def time_Now_def, simplified True x h k, simplified]
  show thesis
  proof (cases "x = Inr False \<and> (\<exists>pw. h = Inr pw) \<and> (\<exists>pair. k = Inr pair)")
    case False
    with run k have "\<exists>e. r = Inl e \<and> au_db st' = db1" by (auto split: sum.splits bool.splits)
    with x show thesis using failed by blast
  next
    case True
    then obtain pw raw hashed where t: "x = Inr False" "h = Inr pw" "k = Inr (raw, hashed)" by auto
    then have hashed: "hashed = HashToken raw" using k GenerateRefreshToken_Inr(1) by simp
    obtain db2 u where u: "CreateUserWithRefreshToken (sv_repo s) (zeroUser\<lparr>u_Email := cu_Email req, u_PasswordHash := pw\<rparr>)
         (new_refresh '''' (HashToken raw) (shd (au_clock st))) db1 = (db2, u)" by fastforce
    note run = run [unfolded t hashed, simplified k t hashed, simplified u, simplified]
    show thesis
    proof (cases u)
      case (Inl e)
      with run u show thesis by (intro failed [OF _ x]) auto
    next
      case (Inr usr)
      obtain e3 clk3 c where c: "CreateToken (sv_jwt s) (sv_cfg s) (u_ID usr) e2 (stl (au_clock st)) = (e3, clk3, c)"
        by (metis prod_cases3)
      from run u Inr c have "au_db st' = db2" by (auto simp: Let_def split: sum.splits)
      with u Inr run c \<open>validateEmail _ \<and> _\<close> x h t show thesis
        by (intro created [of db1 e1 pw raw usr e2 e3]) (auto simp: Let_def split: sum.splits)
    qed
  qed
qed

lemma LoginUserService_issue:
  assumes "LoginUserService s req st = (st', r)" and "validateEmail (lr_Email req)"
    and "GetUserPassword (sv_repo s) (lr_Email req) (au_db st) = (db1, Inr u)"
    and "CheckPasswordHash (sv_bcrypt s) (lr_Password req) (u_PasswordHash u) = None"
  obtains (unstored) e where "r = Inl e" "\<not> errors_Is e ErrInvalidEmail" "\<not> errors_Is e ErrNotFound" "\<not> errors_Is e ErrWrongPassword"
      "au_db st' = db1 \<or> (\<exists>rt e'. CreateRefreshToken (sv_repo s) rt db1 = (au_db st', Some e'))"
  | (issued) raw e1 where "CreateRefreshToken (sv_repo s) (new_refresh (u_ID u) (HashToken raw) (shd (au_clock st))) db1 = (au_db st', None)"
      "(\<exists>e. r = Inl e \<and> errors_Is e ErrAccessTokenGenerate)
        \<or> (\<exists>tok e2 clk3. CreateToken (sv_jwt s) (sv_cfg s) (u_ID u) e1 (stl (au_clock st)) = (e2, clk3, Inr tok)
             \<and> r = Inr \<lparr>lg_User = u, lg_AccessToken = tok, lg_RefreshToken = raw\<rparr>)"
proof -
  obtain e1 k where k: "GenerateRefreshToken (au_rand st) = (e1, k)" by fastforce
  note run = assms(1) [unfolded LoginUserService_def time_Now_def, simplified assms(2-4) k, simplified]
  show thesis
  proof (cases k)
    case (Inl e)
    with run assms(4) show thesis by (intro unstored) auto
  next
    case (Inr pair)
    obtain raw where pair: "pair = (raw, HashToken raw)" using k Inr GenerateRefreshToken_Inr(1) by (cases pair) auto
    obtain db2 c where c: "CreateRefreshToken (sv_repo s) (new_refresh (u_ID u) (HashToken raw) (shd (au_clock st))) db1 = (db2, c)" by fastforce
    note run = run [unfolded Inr pair, simplified assms(4) c, simplified assms(4) c, simplified]
    obtain e2 clk3 t where t: "CreateToken (sv_jwt s) (sv_cfg s) (u_ID u) e1 (stl (au_clock st)) = (e2, clk3, t)"
      by (metis prod_cases3)
    show thesis
    proof (cases c)
      case (Some e)
      with run c assms(4) show thesis by (intro unstored) auto
    next
      case None
      from run None c t assms(4) show thesis by (intro issued [of raw e1]) (auto simp: Let_def split: sum.splits)
    qed
  qed
qed

lemma LoginUserService_cases:
  assumes "LoginUserService s req st = (st', r)"
  obtains (bad_email) "r = Inl (auth_err ErrInvalidEmail)" "st' = st" "\<not> validateEmail (lr_Email req)"
  | (unknown) db1 where "r = Inl (auth_err ErrNotFound)" "GetUserPassword (sv_repo s) (lr_Email req) (au_db st) = (db1, Inl ErrRecordNotFound)"
      "au_db st' = db1"
  | (wrong) db1 u where "r = Inl (auth_err ErrWrongPassword)" "GetUserPassword (sv_repo s) (lr_Email req) (au_db st) = (db1, Inr u)"
      "CheckPasswordHash (sv_bcrypt s) (lr_Password req) (u_PasswordHash u) \<noteq> None" "au_db st' = db1"
  | (failed) e db1 x where "r = Inl e" "\<not> errors_Is e ErrInvalidEmail" "\<not> errors_Is e ErrNotFound" "\<not> errors_Is e ErrWrongPassword"
      "GetUserPassword (sv_repo s) (lr_Email req) (au_db st) = (db1, x)"
      "au_db st' = db1 \<or> (\<exists>rt e'. CreateRefreshToken (sv_repo s) rt db1 = (au_db st', Some e'))"
  | (stored) db1 u raw e1 where "GetUserPassword (sv_repo s) (lr_Email req) (au_db st) = (db1, Inr u)"
      "CheckPasswordHash (sv_bcrypt s) (lr_Password req) (u_PasswordHash u) = None"
      "CreateRefreshToken (sv_repo s) (new_refresh (u_ID u) (HashToken raw) (shd (au_clock st))) db1 = (au_db st', None)"
      "(\<exists>e. r = Inl e \<and> errors_Is e ErrAccessTokenGenerate)
        \<or> (\<exists>tok e2 clk3. CreateToken (sv_jwt s) (sv_cfg s) (u_ID u) e1 (stl (au_clock st)) = (e2, clk3, Inr tok)
             \<and> r = Inr \<lparr>lg_User = u, lg_AccessToken = tok, lg_RefreshToken = raw\<rparr>)"
proof (cases "validateEmail (lr_Email req)")
  case False
  with assms show thesis by (intro bad_email) (auto simp: LoginUserService_def)
next
  case True
  obtain db1 x where x: "GetUserPassword (sv_repo s) (lr_Email req) (au_db st) = (db1, x)" by fastforce
  note run = assms [unfolded LoginUserService_def time_Now_def, simplified True x, simplified]
  show thesis
  proof (cases x)
    case (Inl e)
    show thesis
    proof (cases e)
      case ErrRecordNotFound
      with run x Inl show thesis by (intro unknown [of db1]) auto
    next
      case (DBError m)
      with run x Inl show thesis by (intro failed [OF _ _ _ _ x]) auto
    qed
  next
    case (Inr u)
    note run = run [unfolded Inr, simplified] and x = x [unfolded Inr]
    show thesis
    proof (cases "CheckPasswordHash (sv_bcrypt s) (lr_Password req) (u_PasswordHash u)")
      case (Some e)
      with run x show thesis by (intro wrong [OF _ x]) auto
    next
      case None
      from assms True x None show thesis
        by (cases rule: LoginUserService_issue) (erule (4) failed [OF _ _ _ _ x], erule (1) stored [OF x None])
    qed
  qed
qed

lemma LogoutService_cases:
  assumes "LogoutService s jti t p st = (st', r)"
  obtains (not_revoked) e err where "r = Some e" "au_db st' = au_db st"
      "Revoke (sv_jtiStore s) jti (time_Sub t (shd (au_clock st))) (au_rd st) = (au_rd st', Some err)"
  | (no_token) db1 e where "Revoke (sv_jtiStore s) jti (time_Sub t (shd (au_clock st))) (au_rd st) = (au_rd st', None)"
      "FindRefreshTokenByHash (sv_repo s) (HashToken p) (au_db st) = (db1, Inl e)" "au_db st' = db1"
      "r = None \<longleftrightarrow> e = ErrRecordNotFound" "\<And>x. r = Some x \<Longrightarrow> \<not> errors_Is x ErrRefreshTokenReused"
  | (family) db1 old err where "Revoke (sv_jtiStore s) jti (time_Sub t (shd (au_clock st))) (au_rd st) = (au_rd st', None)"
      "FindRefreshTokenByHash (sv_repo s) (HashToken p) (au_db st) = (db1, Inr old)"
      "RevokeFamily (sv_repo s) (rt_FamilyID old) (shd (stl (au_clock st))) db1 = (au_db st', err)"
      "r = None \<longleftrightarrow> rt_RevokedAt old = None \<and> err = None"
proof -
  obtain rd1 v where v: "Revoke (sv_jtiStore s) jti (time_Sub t (shd (au_clock st))) (au_rd st) = (rd1, v)" by fastforce
  obtain db1 f where f: "FindRefreshTokenByHash (sv_repo s) (HashToken p) (au_db st) = (db1, f)" by fastforce
  note run = assms [unfolded LogoutService_def time_Now_def Let_def, simplified v f, simplified]
  show thesis
  proof (cases v)
    case (Some e)
    with run v show thesis by (intro not_revoked [of "OtherErr (''revoke jti: '' @ e)" e]) auto
  next
    case None
    note run = run [unfolded None, simplified] and v = v [unfolded None]
    show thesis
    proof (cases f)
      case (Inl e)
      with run v f show thesis by (cases e) (auto intro!: no_token)
    next
      case (Inr old)
      obtain db2 err where x: "RevokeFamily (sv_repo s) (rt_FamilyID old) (shd (stl (au_clock st))) db1 = (db2, err)" by fastforce
      from run v f Inr x show thesis by (intro family [of db1 old err]) (auto split: if_splits)
    qed
  qed
qed

context auth_service
begin

lemma RefreshAccessToken_rotates:
  assumes "RefreshAccessToken s p st = (st', Inr tk)" and "tokens_ok (ttbl (au_db st))"
  shows "\<exists>old new u. ttbl (au_db st) (rt_ID old) = Some old \<and> rt_TokenHash old = HashToken p \<and> active old
     \<and> shd (au_clock st) \<le> rt_ExpiresAt old \<and> utbl (au_db st) (rt_UserID old) = Some u \<and> user_live u
     \<and> (\<exists>t. ttbl (au_db st') = (ttbl (au_db st))(rt_ID old \<mapsto> revoke_row t old, rt_ID new \<mapsto> new))
     \<and> ttbl (au_db st) (rt_ID new) = None \<and> utbl (au_db st') = utbl (au_db st)
     \<and> active new \<and> rt_TokenHash new = HashToken (tk_RefreshToken tk) \<and> rt_UserID new = rt_UserID old
     \<and> rt_FamilyID new = rt_FamilyID old \<and> rt_ParentID new = Some (rt_ID old)
     \<and> rt_ExpiresAt new = shd (stl (au_clock st)) + RefreshTokenTTL
     \<and> (\<exists>e clk e' clk'. CreateToken (sv_jwt s) (sv_cfg s) (rt_UserID old) e clk = (e', clk', Inr (tk_AccessToken tk)))"
  using assms(1)
proof (cases rule: RefreshAccessToken_cases)
  case (rotated old u raw new db1 db2 e1 clk2)
  note fr = store.FindRefreshTokenByHash_frame [OF rotated(1)] store.GetUserByID_frame [OF rotated(4)]
  note row = store.FindRefreshTokenByHash_Inr [OF rotated(1)] and usr = store.GetUserByID_Inr [OF rotated(4)]
  from store.RotateRefreshToken_Inr [OF rotated(5)] fr row obtain
    new: "token_filled (rotated_token old (HashToken raw) (shd (stl (au_clock st)))) new" "ttbl (au_db st) (rt_ID new) = None"
    and tbls: "ttbl (au_db st') = (ttbl (au_db st))(rt_ID old \<mapsto> revoke_row (shd (stl (stl (au_clock st)))) old, rt_ID new \<mapsto> new)"
      "utbl (au_db st') = utbl (au_db st)" by auto
  have fam: "rt_FamilyID old \<noteq> ''''" using tokens_okD(1) [OF assms(2)] row by blast
  from rotated(6) obtain tok e2 clk3 where "CreateToken (sv_jwt s) (sv_cfg s) (u_ID u) e1 clk2 = (e2, clk3, Inr tok)"
    and tk: "tk = \<lparr>tk_AccessToken = tok, tk_RefreshToken = raw\<rparr>" by auto
  with usr have tok: "\<exists>e clk e' clk'. CreateToken (sv_jwt s) (sv_cfg s) (rt_UserID old) e clk = (e', clk', Inr (tk_AccessToken tk))" by auto
  have "utbl (au_db st) (rt_UserID old) = Some u \<and> user_live u" using usr fr by simp
  with row fam rotated(2,3) new tbls tok tk token_filledD [OF new(1)] show ?thesis
    by (intro exI [of _ old] exI [of _ new] exI [of _ u]) (auto simp: active_def)
qed auto

text \<open>A refresh that reports no tokens, other than for lack of a signature, changes no row unless it detects reuse.\<close>

lemma RefreshAccessToken_refused:
  assumes "RefreshAccessToken s p st = (st', Inl e)" and "\<not> errors_Is e ErrRefreshTokenReused" and "\<not> errors_Is e ErrAccessTokenGenerate"
  shows "ttbl (au_db st') = ttbl (au_db st) \<and> utbl (au_db st') = utbl (au_db st)"
  using assms(1)
proof (cases rule: RefreshAccessToken_cases)
  case (refused e' db1 f)
  from refused(4) store.FindRefreshTokenByHash_frame [OF refused(3)] show ?thesis
    by (elim disjE exE conjE) (auto dest!: store.GetUserByID_frame store.RotateRefreshToken_Inl)
qed (use assms in auto)

lemma RevokeFamily_effect:
  assumes "RevokeFamily (sv_repo s) fid now db = (db', r)"
  shows "utbl db' = utbl db \<and> (\<forall>k t. ttbl db k = Some t \<longrightarrow> rt_FamilyID t \<noteq> fid \<longrightarrow> ttbl db' k = Some t)
     \<and> (\<forall>k t. ttbl db k = Some t \<longrightarrow> ttbl db' k = Some t \<or> ttbl db' k = Some (revoke_row now t))
     \<and> (\<forall>k. ttbl db k = None \<longrightarrow> ttbl db' k = None)
     \<and> (r = None \<longrightarrow> (\<forall>k t. ttbl db' k = Some t \<longrightarrow> rt_FamilyID t = fid \<longrightarrow> \<not> active t))"
proof (cases r)
  case None
  have eq: "ttbl db' k = map_option (\<lambda>t. if rt_FamilyID t = fid \<and> rt_RevokedAt t = None then revoke_row now t else t) (ttbl db k)" for k
    using store.RevokeFamily_None [OF assms [unfolded None]] by simp
  have "\<not> active t" if "ttbl db' k = Some t" "rt_FamilyID t = fid" for k t
    using that by (cases "ttbl db k") (auto simp: eq active_def split: if_splits)
  moreover have "ttbl db' k = Some t" if "ttbl db k = Some t" "rt_FamilyID t \<noteq> fid" for k t
    using that by (simp add: eq)
  moreover have "ttbl db' k = Some t \<or> ttbl db' k = Some (revoke_row now t)" if "ttbl db k = Some t" for k t
    using that by (simp add: eq)
  moreover have "ttbl db' k = None" if "ttbl db k = None" for k
    using that by (simp add: eq)
  ultimately show ?thesis using store.RevokeFamily_users [OF assms] by blast
next
  case (Some e)
  from store.RevokeFamily_Some [OF assms [unfolded Some]] store.RevokeFamily_users [OF assms] Some show ?thesis by simp
qed

lemma RefreshAccessToken_replay:
  assumes run: "RefreshAccessToken s p st = (st', r)" and ok: "tokens_ok (ttbl (au_db st))"
    and row: "ttbl (au_db st) k = Some old" "rt_TokenHash old = HashToken p" "\<not> active old"
  shows "\<exists>e. r = Inl e \<and> utbl (au_db st') = utbl (au_db st)
     \<and> (\<forall>k t. ttbl (au_db st) k = Some t \<longrightarrow> rt_FamilyID t \<noteq> rt_FamilyID old \<longrightarrow> ttbl (au_db st') k = Some t)
     \<and> (if errors_Is e ErrRefreshTokenReused
        then (\<forall>k t. ttbl (au_db st') k = Some t \<longrightarrow> rt_FamilyID t = rt_FamilyID old \<longrightarrow> \<not> active t)
          \<or> (\<exists>db err. RevokeFamily (sv_repo s) (rt_FamilyID old) (shd (au_clock st)) db = (au_db st', Some err))
        else ttbl (au_db st') = ttbl (au_db st) \<and> (\<exists>db m. FindRefreshTokenByHash (sv_repo s) (HashToken p) (au_db st) = (db, Inl (DBError m))))"
proof -
  have same: "x = old" if "FindRefreshTokenByHash (sv_repo s) (HashToken p) (au_db st) = (db1, Inr x)" for x db1
    using store.FindRefreshTokenByHash_Inr [OF that] row tokens_okD(2) [OF ok, of "rt_ID x" x k old] by auto
  from run show ?thesis
  proof (cases rule: RefreshAccessToken_cases)
    case (refused e db1 f)
    have "\<exists>m. f = Inl (DBError m)"
    proof (cases f)
      case (Inl e')
      with store.FindRefreshTokenByHash_none [of _ _ db1 k old] row refused(3) show ?thesis by (cases e') auto
    next
      case (Inr x)
      with same refused(3) have "FindRefreshTokenByHash (sv_repo s) (HashToken p) (au_db st) = (db1, Inr old)" by simp
      with run refused(1,2) row(3) show ?thesis
        by (auto simp: RefreshAccessToken_def active_def time_Now_def split: prod.splits)
    qed
    with refused store.FindRefreshTokenByHash_frame [OF refused(3)] show ?thesis
      by (auto simp: refused(3))
  next
    case (reused x db1 err)
    from same [OF reused(2)] have x: "x = old" .
    note eff = RevokeFamily_effect [OF reused(4), unfolded x]
    have "utbl (au_db st') = utbl (au_db st)" using eff store.FindRefreshTokenByHash_frame [OF reused(2)] by simp
    moreover have "\<forall>k t. ttbl (au_db st) k = Some t \<longrightarrow> rt_FamilyID t \<noteq> rt_FamilyID old \<longrightarrow> ttbl (au_db st') k = Some t"
      using eff store.FindRefreshTokenByHash_frame [OF reused(2)] by simp
    moreover have "(\<forall>k t. ttbl (au_db st') k = Some t \<longrightarrow> rt_FamilyID t = rt_FamilyID old \<longrightarrow> \<not> active t)
        \<or> (\<exists>db err. RevokeFamily (sv_repo s) (rt_FamilyID old) (shd (au_clock st)) db = (au_db st', Some err))"
      using eff reused(4) x by (cases err) blast+
    ultimately show ?thesis using reused(1) by (intro exI [of _ "auth_err ErrRefreshTokenReused"]) simp
  next
    case (rotated x u raw new db1 db2 e1 clk2)
    with same [OF rotated(1)] row(3) show ?thesis by (simp add: active_def)
  qed
qed

end

text \<open>Of the live users, no two have the same address.\<close>

definition emails_ok :: "(string \<Rightarrow> User option) \<Rightarrow> bool" where
  "emails_ok us \<longleftrightarrow> (\<forall>k k' u u'. us k = Some u \<longrightarrow> us k' = Some u' \<longrightarrow> user_live u \<longrightarrow> user_live u' \<longrightarrow> u_Email u = u_Email u' \<longrightarrow> k = k')"

lemma emails_okD:
  "emails_ok us \<Longrightarrow> us k = Some u \<Longrightarrow> us k' = Some u' \<Longrightarrow> user_live u \<Longrightarrow> user_live u' \<Longrightarrow> u_Email u = u_Email u' \<Longrightarrow> k = k'"
  unfolding emails_ok_def by blast

lemma emails_ok_add:
  assumes "emails_ok us" and "\<And>k v. us k = Some v \<Longrightarrow> user_live v \<Longrightarrow> u_Email v \<noteq> u_Email u"
  shows "emails_ok (us(i \<mapsto> u))"
  using assms unfolding emails_ok_def by (simp split: if_splits) metis

text \<open>A new session: one new token row for the user, with the digest of the token handed out.\<close>

definition session_added :: "string \<Rightarrow> string \<Rightarrow> time \<Rightarrow> (string \<Rightarrow> RefreshToken option) \<Rightarrow> (string \<Rightarrow> RefreshToken option) \<Rightarrow> bool" where
  "session_added userID raw now ts ts' \<longleftrightarrow> (\<exists>t. ts (rt_ID t) = None \<and> ts' = ts(rt_ID t \<mapsto> t) \<and> rt_UserID t = userID
     \<and> rt_TokenHash t = HashToken raw \<and> active t \<and> rt_ParentID t = None \<and> rt_FamilyID t \<noteq> '''' \<and> rt_ExpiresAt t = now + RefreshTokenTTL)"

lemma session_addedI:
  assumes "token_filled (new_refresh userID (HashToken raw) now) t" and "ts (rt_ID t) = None"
  shows "session_added userID raw now ts (ts(rt_ID t \<mapsto> t))"
  unfolding session_added_def using token_filledD [OF assms(1)] assms(2) by (auto simp: active_def)

definition signed_up ::
  "bcrypt \<Rightarrow> CreateUserRequest \<Rightarrow> User \<Rightarrow> (string \<Rightarrow> User option) \<Rightarrow> (string \<Rightarrow> User option) \<Rightarrow> bool"
where
  "signed_up b req u us us' \<longleftrightarrow> us (u_ID u) = None \<and> us' = us(u_ID u \<mapsto> u) \<and> u_ID u \<noteq> '''' \<and> user_live u \<and> u_Email u = cu_Email req
     \<and> bc_CompareHashAndPassword b (u_PasswordHash u) (cu_Password req) = None
     \<and> (\<forall>k v. us k = Some v \<and> user_live v \<longrightarrow> u_Email v \<noteq> cu_Email req)"

context auth_service
begin

lemma CreateUserService_created:
  assumes "CheckEmailExists (sv_repo s) (cu_Email req) db = (db1, Inr False)"
    and "HashPassword (sv_bcrypt s) (cu_Password req) e = (e1, Inr pw)"
    and "CreateUserWithRefreshToken (sv_repo s) (zeroUser\<lparr>u_Email := cu_Email req, u_PasswordHash := pw\<rparr>)
         (new_refresh '''' (HashToken raw) now) db1 = (db', Inr u)"
  shows "signed_up (sv_bcrypt s) req u (utbl db) (utbl db') \<and> session_added (u_ID u) raw now (ttbl db) (ttbl db')"
proof -
  note fr = store.CheckEmailExists_frame [OF assms(1)]
  from store.CreateUserWithRefreshToken_Inr [OF assms(3)] fr obtain t where
    u: "user_filled (zeroUser\<lparr>u_Email := cu_Email req, u_PasswordHash := pw\<rparr>) u" "utbl db (u_ID u) = None" "utbl db' = (utbl db)(u_ID u \<mapsto> u)"
    and t: "token_filled ((new_refresh '''' (HashToken raw) now)\<lparr>rt_UserID := u_ID u\<rparr>) t" "ttbl db (rt_ID t) = None" "ttbl db' = (ttbl db)(rt_ID t \<mapsto> t)"
    by auto
  have "(new_refresh '''' (HashToken raw) now)\<lparr>rt_UserID := u_ID u\<rparr> = new_refresh (u_ID u) (HashToken raw) now"
    by (simp add: new_refresh_def)
  with t have "session_added (u_ID u) raw now (ttbl db) (ttbl db')" by (simp add: session_addedI)
  moreover have "bc_CompareHashAndPassword (sv_bcrypt s) pw (cu_Password req) = None"
    using passwords.compare_own assms(2) by (simp add: HashPassword_def)
  moreover have "u_Email v \<noteq> cu_Email req" if "utbl db k = Some v" "user_live v" for k v
    using store.CheckEmailExists_False [OF assms(1) that] .
  ultimately show ?thesis using u user_filledD [OF u(1)]
    unfolding signed_up_def by (auto simp: zeroUser_def user_live_def)
qed

lemma CreateUserService_spec:
  assumes "CreateUserService s req st = (st', r)"
  shows "utbl (au_db st') = utbl (au_db st) \<and> ttbl (au_db st') = ttbl (au_db st) \<and> (\<exists>e. r = Inl e)
    \<or> (\<exists>u raw. validateEmail (cu_Email req) \<and> validatePassword (sv_unicode s) (cu_Password req) = None
         \<and> signed_up (sv_bcrypt s) req u (utbl (au_db st)) (utbl (au_db st'))
         \<and> session_added (u_ID u) raw (shd (au_clock st)) (ttbl (au_db st)) (ttbl (au_db st'))
         \<and> ((\<exists>e. r = Inl e \<and> errors_Is e ErrAccessTokenGenerate)
            \<or> (\<exists>tok e clk e' clk'. r = Inr \<lparr>sr_User = u, sr_AccessToken = tok, sr_RefreshToken = raw\<rparr>
                 \<and> CreateToken (sv_jwt s) (sv_cfg s) (u_ID u) e clk = (e', clk', Inr tok))))"
  using assms
proof (cases rule: CreateUserService_cases)
  case (failed e db1 x)
  from failed(3) store.CheckEmailExists_frame [OF failed(2)] show ?thesis
    by (elim disjE exE) (auto simp: failed(1) dest: store.CreateUserWithRefreshToken_Inl)
next
  case (created db1 pw raw u e1 e2 e3)
  from CreateUserService_created [OF created(3,4,5)] created(1,2,6) show ?thesis
    by (intro disjI2 exI [of _ u] exI [of _ raw]) blast
qed auto

lemma LoginUserService_spec:
  assumes "LoginUserService s req st = (st', r)"
  shows "utbl (au_db st') = utbl (au_db st)
    \<and> (ttbl (au_db st') = ttbl (au_db st) \<and> (\<exists>e. r = Inl e)
      \<or> (\<exists>u raw. utbl (au_db st) (u_ID u) = Some u \<and> user_live u \<and> u_Email u = lr_Email req
           \<and> bc_CompareHashAndPassword (sv_bcrypt s) (u_PasswordHash u) (lr_Password req) = None
           \<and> session_added (u_ID u) raw (shd (au_clock st)) (ttbl (au_db st)) (ttbl (au_db st'))
           \<and> ((\<exists>e. r = Inl e \<and> errors_Is e ErrAccessTokenGenerate)
              \<or> (\<exists>tok e clk e' clk'. r = Inr \<lparr>lg_User = u, lg_AccessToken = tok, lg_RefreshToken = raw\<rparr>
                   \<and> CreateToken (sv_jwt s) (sv_cfg s) (u_ID u) e clk = (e', clk', Inr tok)))))"
  using assms
proof (cases rule: LoginUserService_cases)
  case (failed e db1 x)
  from failed(6) store.GetUserPassword_frame [OF failed(5)] show ?thesis
    by (elim disjE exE) (auto simp: failed(1) dest: store.CreateRefreshToken_cases)
next
  case (stored db1 u raw e1)
  note fr = store.GetUserPassword_frame [OF stored(1)] and usr = store.GetUserPassword_Inr [OF stored(1)]
  from store.CreateRefreshToken_cases(1,3) [OF stored(3)] fr obtain t where
    t: "token_filled (new_refresh (u_ID u) (HashToken raw) (shd (au_clock st))) t" "ttbl (au_db st) (rt_ID t) = None"
      "ttbl (au_db st') = (ttbl (au_db st))(rt_ID t \<mapsto> t)" and us: "utbl (au_db st') = utbl (au_db st)" by auto
  have "bc_CompareHashAndPassword (sv_bcrypt s) (u_PasswordHash u) (lr_Password req) = None"
    using stored(2) by (auto simp: CheckPasswordHash_def split: option.splits)
  moreover have "session_added (u_ID u) raw (shd (au_clock st)) (ttbl (au_db st)) (ttbl (au_db st'))"
    unfolding t(3) by (rule session_addedI) (rule t(1), rule t(2))
  ultimately show ?thesis using us usr stored(4) fr by blast
qed (auto dest: store.GetUserPassword_frame)

lemma LogoutService_spec:
  assumes "LogoutService s jti t p st = (st', r)"
  shows "utbl (au_db st') = utbl (au_db st)
    \<and> (\<forall>k x. ttbl (au_db st) k = Some x \<longrightarrow> (rt_TokenHash x = HashToken p \<longrightarrow> tokens_ok (ttbl (au_db st)) \<longrightarrow> r = None \<longrightarrow>
         (\<forall>k' x'. ttbl (au_db st') k' = Some x' \<longrightarrow> rt_FamilyID x' = rt_FamilyID x \<longrightarrow> \<not> active x')))
    \<and> (\<forall>k x. ttbl (au_db st) k = Some x \<longrightarrow> (\<forall>k' x'. ttbl (au_db st) k' = Some x' \<longrightarrow> rt_TokenHash x' = HashToken p \<longrightarrow> rt_FamilyID x' \<noteq> rt_FamilyID x)
         \<longrightarrow> ttbl (au_db st') k = Some x)
    \<and> (r = None \<longrightarrow> Revoke (sv_jtiStore s) jti (time_Sub t (shd (au_clock st))) (au_rd st) = (au_rd st', None))"
  using assms
proof (cases rule: LogoutService_cases)
  case (no_token db1 e)
  from store.FindRefreshTokenByHash_frame [OF no_token(2)] store.FindRefreshTokenByHash_none [of "HashToken p" "au_db st" db1] no_token show ?thesis
    by auto
next
  case (family db1 old err)
  note fr = store.FindRefreshTokenByHash_frame [OF family(2)] and row = store.FindRefreshTokenByHash_Inr [OF family(2)]
  note eff = RevokeFamily_effect [OF family(3)]
  have "\<not> active x'" if "ttbl (au_db st) k = Some x" "rt_TokenHash x = HashToken p" "tokens_ok (ttbl (au_db st))" "r = None"
      "ttbl (au_db st') k' = Some x'" "rt_FamilyID x' = rt_FamilyID x" for k x k' x'
  proof -
    have "x = old" using tokens_okD(2) [OF that(3,1), of "rt_ID old" old] row that(1,2) by auto
    with eff that family(4) show ?thesis by simp
  qed
  moreover have "ttbl (au_db st') k = Some x"
    if "ttbl (au_db st) k = Some x" "\<forall>k' x'. ttbl (au_db st) k' = Some x' \<longrightarrow> rt_TokenHash x' = HashToken p \<longrightarrow> rt_FamilyID x' \<noteq> rt_FamilyID x" for k x
    using eff that row fr by metis
  ultimately show ?thesis using eff fr family(1) by simp
qed simp

text \<open>Every operation keeps both tables well-formed.\<close>

lemma signed_up_ok: "signed_up b req u us us' \<Longrightarrow> emails_ok us \<Longrightarrow> emails_ok us'"
  unfolding signed_up_def by (auto intro: emails_ok_add)

lemma RefreshAccessToken_ok:
  assumes "RefreshAccessToken s p st = (st', r)" and "tokens_ok (ttbl (au_db st))"
  shows "tokens_ok (ttbl (au_db st')) \<and> utbl (au_db st') = utbl (au_db st)"
  using assms(1)
proof (cases rule: RefreshAccessToken_cases)
  case (refused e db1 f)
  from refused(4) store.FindRefreshTokenByHash_frame [OF refused(3)] assms(2) show ?thesis
    by (elim disjE exE conjE) (auto dest!: store.GetUserByID_frame store.RotateRefreshToken_Inl)
next
  case (reused old db1 err)
  from store.FindRefreshTokenByHash_frame [OF reused(2)] store.RevokeFamily_ok [OF reused(4)] store.RevokeFamily_users [OF reused(4)] assms(2)
  show ?thesis by simp
next
  case (rotated old u raw new db1 db2 e1 clk2)
  from store.FindRefreshTokenByHash_frame [OF rotated(1)] store.GetUserByID_frame [OF rotated(4)] store.RotateRefreshToken_ok [OF rotated(5)]
    store.RotateRefreshToken_Inr [OF rotated(5)] assms(2)
  show ?thesis by auto
qed

lemma LoginUserService_ok:
  assumes "LoginUserService s req st = (st', r)" and "tokens_ok (ttbl (au_db st))"
  shows "tokens_ok (ttbl (au_db st'))"
  using assms(1)
proof (cases rule: LoginUserService_cases)
  case (failed e db1 x)
  from failed(6) store.GetUserPassword_frame [OF failed(5)] assms(2) show ?thesis
    by (elim disjE exE) (auto dest: store.CreateRefreshToken_ok)
next
  case (stored db1 u raw e1)
  from store.GetUserPassword_frame [OF stored(1)] store.CreateRefreshToken_ok [OF stored(3)] assms(2) show ?thesis by simp
qed (use assms(2) in \<open>auto dest: store.GetUserPassword_frame\<close>)

lemma CreateUserService_ok:
  assumes "CreateUserService s req st = (st', r)" and "tokens_ok (ttbl (au_db st))"
  shows "tokens_ok (ttbl (au_db st'))"
  using assms(1)
proof (cases rule: CreateUserService_cases)
  case (failed e db1 x)
  from failed(3) store.CheckEmailExists_frame [OF failed(2)] assms(2) show ?thesis
    by (elim disjE exE) (auto dest: store.CreateUserWithRefreshToken_ok)
next
  case (created db1 pw raw u e1 e2 e3)
  from store.CheckEmailExists_frame [OF created(3)] store.CreateUserWithRefreshToken_ok [OF created(5)] assms(2) show ?thesis by simp
qed (use assms(2) in auto)

lemma LogoutService_ok:
  assumes "LogoutService s jti t p st = (st', r)" and "tokens_ok (ttbl (au_db st))"
  shows "tokens_ok (ttbl (au_db st'))"
  using assms(1)
proof (cases rule: LogoutService_cases)
  case (family db1 old err)
  from store.FindRefreshTokenByHash_frame [OF family(2)] store.RevokeFamily_ok [OF family(3)] assms(2) show ?thesis by simp
qed (use assms(2) in \<open>auto dest: store.FindRefreshTokenByHash_frame\<close>)

end

section \<open>A reference service\<close>

text \<open>The service over the reference database and server, for a user \<open>uid\<close> at time \<open>t\<close>.\<close>

definition mem_auth_service :: "string \<Rightarrow> time \<Rightarrow> (mem_auth, ref_redis) AuthService" where
  "mem_auth_service uid t = \<lparr>sv_repo = mem_auth_db, sv_jtiStore = ref_client, sv_jwt = sample_jwt uid t, sv_bcrypt = clear_bcrypt,
     sv_cfg = sample_config, sv_unicode = latin_tables\<rparr>"

lemma mem_auth_service_sel [simp]:
  "sv_repo (mem_auth_service uid t) = mem_auth_db" "sv_jtiStore (mem_auth_service uid t) = ref_client"
  "sv_jwt (mem_auth_service uid t) = sample_jwt uid t" "sv_bcrypt (mem_auth_service uid t) = clear_bcrypt"
  "sv_cfg (mem_auth_service uid t) = sample_config" "sv_unicode (mem_auth_service uid t) = latin_tables"
  by (simp_all add: mem_auth_service_def)

abbreviation sample_genuine :: "string \<Rightarrow> time \<Rightarrow> jwt_method \<Rightarrow> string \<Rightarrow> RegisteredClaims \<Rightarrow> string \<Rightarrow> bool" where
  "sample_genuine uid t \<equiv> \<lambda>m key cl tok. map_of [(''token'', HS256, ''secret'', claims_at uid t)] tok = Some (m, key, cl)"

interpretation mem_auth_service: auth_service "mem_auth_service uid t" "\<lambda>s. mem_tbl u_ID (ma_users s)" "\<lambda>s. mem_tbl rt_ID (ma_tokens s)"
  "sample_genuine uid t" for uid t
  unfolding auth_service_def mem_auth_service_sel sample_jwt_def
  by (intro conjI mem_auth.auth_store_axioms book.jwt_lib_axioms clear_bcrypt.bcrypt_lib_axioms)

definition auth_mem :: "User list \<Rightarrow> RefreshToken list \<Rightarrow> mem_auth" where
  "auth_mem us ts = \<lparr>ma_users = \<lparr>mem_rows = us, mem_faults = [], mem_supply = 0\<rparr>, ma_tokens = \<lparr>mem_rows = ts, mem_faults = [], mem_supply = 0\<rparr>\<rparr>"

definition auth_at :: "mem_auth \<Rightarrow> time \<Rightarrow> (mem_auth, ref_redis) auth_state" where
  "auth_at db t = \<lparr>au_db = db, au_rd = rr_init, au_clock = sconst t, au_rand = zero_entropy\<rparr>"

lemma auth_at_sel [simp]:
  "au_db (auth_at db t) = db" "au_rd (auth_at db t) = rr_init" "au_clock (auth_at db t) = sconst t" "au_rand (auth_at db t) = zero_entropy"
  by (simp_all add: auth_at_def)

definition ann :: User where
  "ann = zeroUser\<lparr>u_ID := ''ann'', u_Email := ''ann@x.io'', u_PasswordHash := ''Passw0rd!''\<rparr>"

definition token_row :: "string \<Rightarrow> string \<Rightarrow> string \<Rightarrow> time option \<Rightarrow> RefreshToken" where
  "token_row i fam hash revoked = zeroRefreshToken\<lparr>rt_ID := i, rt_UserID := ''ann'', rt_FamilyID := fam, rt_TokenHash := hash,
     rt_ExpiresAt := Hour, rt_RevokedAt := revoked\<rparr>"

lemma token_row_sel [simp]:
  "rt_ID (token_row i fam h v) = i" "rt_UserID (token_row i fam h v) = ''ann''" "rt_FamilyID (token_row i fam h v) = fam"
  "rt_TokenHash (token_row i fam h v) = h" "rt_ExpiresAt (token_row i fam h v) = Hour" "rt_RevokedAt (token_row i fam h v) = v"
  by (simp_all add: token_row_def)

lemmas auth_mem_eval = auth_mem_def mem_auth_db_def on_part_def mem_tokens_def mem_users_def with_check_def mem_defs

section \<open>Properties\<close>

text \<open>
  C14. What \<^verbatim>\<open>RefreshAccessToken\<close> does, for every outcome. With tokens: the presented token was stored, not revoked, not
  expired and of a live user; its row is revoked and exactly one new row is added, active, of the same user and family, with the old row as parent and the digest of the new token, good for
  seven days. Reuse detected: the presented token was stored and already revoked. Any other error, unless only the signature of the access token
  failed, leaves both tables as they were.
\<close>

theorem refresh_access_token_spec:
  assumes "auth_service s utbl ttbl genuine" and "tokens_ok (ttbl (au_db st))" and "RefreshAccessToken s p st = (st', r)"
  shows "utbl (au_db st') = utbl (au_db st) \<and> tokens_ok (ttbl (au_db st')) \<and>
    (case r of
       Inr tk \<Rightarrow> (\<exists>old new u t. ttbl (au_db st) (rt_ID old) = Some old \<and> rt_TokenHash old = HashToken p \<and> active old
          \<and> shd (au_clock st) \<le> rt_ExpiresAt old \<and> utbl (au_db st) (rt_UserID old) = Some u \<and> user_live u
          \<and> ttbl (au_db st) (rt_ID new) = None
          \<and> ttbl (au_db st') = (ttbl (au_db st))(rt_ID old \<mapsto> revoke_row t old, rt_ID new \<mapsto> new)
          \<and> active new \<and> rt_TokenHash new = HashToken (tk_RefreshToken tk) \<and> rt_UserID new = rt_UserID old
          \<and> rt_FamilyID new = rt_FamilyID old \<and> rt_ParentID new = Some (rt_ID old)
          \<and> rt_ExpiresAt new = shd (stl (au_clock st)) + 7 * 24 * Hour)
     | Inl e \<Rightarrow>
         if errors_Is e ErrRefreshTokenReused
         then (\<exists>old. ttbl (au_db st) (rt_ID old) = Some old \<and> rt_TokenHash old = HashToken p \<and> \<not> active old)
         else errors_Is e ErrAccessTokenGenerate \<or> ttbl (au_db st') = ttbl (au_db st))"
proof -
  from assms(1) have loc: "auth_service s utbl ttbl genuine" .
  note ok = auth_service.RefreshAccessToken_ok [OF loc assms(3,2)]
  show ?thesis
  proof (cases r)
    case (Inr tk)
    from auth_service.RefreshAccessToken_rotates [OF loc assms(3) [unfolded Inr] assms(2)] show ?thesis
      using ok unfolding Inr RefreshTokenTTL_def sum.case by blast
  next
    case (Inl e)
    have "\<exists>old. ttbl (au_db st) (rt_ID old) = Some old \<and> rt_TokenHash old = HashToken p \<and> \<not> active old"
      if "errors_Is e ErrRefreshTokenReused"
      using assms(3) [unfolded Inl]
    proof (cases rule: RefreshAccessToken_cases)
      case (reused old db1 err)
      with auth_store.FindRefreshTokenByHash_Inr [OF auth_service.axioms(1) [OF loc] reused(2)] show ?thesis
        by (auto simp: active_def)
    qed (use that in \<open>auto elim: errors_Is.elims\<close>)
    moreover have "ttbl (au_db st') = ttbl (au_db st)" if "\<not> errors_Is e ErrRefreshTokenReused" "\<not> errors_Is e ErrAccessTokenGenerate"
      using auth_service.RefreshAccessToken_refused [OF loc assms(3) [unfolded Inl] that] by simp
    ultimately show ?thesis using ok unfolding Inl sum.case by auto
  qed
qed

text \<open>A state in which the token \<^verbatim>\<open>old\<close> has been rotated into another of its family, beside a session of another family.\<close>

definition rotated_rows :: "RefreshToken list" where
  "rotated_rows = [token_row ''t1'' ''f1'' (HashToken ''old'') (Some 1), token_row ''t2'' ''f1'' ''d2'' None, token_row ''t3'' ''f2'' ''d3'' None]"

lemma tokens_ok_rows:
  assumes "distinct (map rt_ID ts)" and "distinct (map rt_TokenHash ts)" and "\<forall>t\<in>set ts. rt_FamilyID t \<noteq> ''''"
  shows "tokens_ok (mem_tbl rt_ID (ma_tokens (auth_mem us ts)))"
proof -
  have "digests_distinct (ma_tokens (auth_mem us ts))" using assms by (simp add: digests_distinct_def auth_mem_def)
  moreover have "rt_FamilyID t \<noteq> ''''" if "mem_tbl rt_ID (ma_tokens (auth_mem us ts)) k = Some t" for k t
    using that assms(3) by (auto simp: mem_tbl_def auth_mem_def dest: by_key_SomeD)
  ultimately show ?thesis by (simp add: tokens_ok_def digests_distinct_unique)
qed

lemma HashToken_short: "HashToken p \<noteq> [a, b]" "[a, b] \<noteq> HashToken p"
proof -
  show "HashToken p \<noteq> [a, b]"
  proof
    assume "HashToken p = [a, b]"
    then have "length (HashToken p) = 2" by simp
    then show False by (simp add: length_HashToken)
  qed
  then show "[a, b] \<noteq> HashToken p" by (rule not_sym)
qed

lemma rotated_rows_ok: "tokens_ok (mem_tbl rt_ID (ma_tokens (auth_mem us rotated_rows)))"
  by (rule tokens_ok_rows) (auto simp: rotated_rows_def HashToken_short)

lemma replay_run:
  "RefreshAccessToken (mem_auth_service ''ann'' 0) ''old'' (auth_at (auth_mem [ann] rotated_rows) 5) =
     (auth_at (auth_mem [ann] [token_row ''t1'' ''f1'' (HashToken ''old'') (Some 1), token_row ''t2'' ''f1'' ''d2'' (Some 5), token_row ''t3'' ''f2'' ''d3'' None]) 5,
      Inl (auth_err ErrRefreshTokenReused))"
  by (simp add: RefreshAccessToken_def FindRefreshTokenByHash_def RevokeFamily_def auth_mem_eval rotated_rows_def auth_at_def time_Now_def token_row_def
      zeroRefreshToken_def)

theorem refresh_access_token_spec_witness:
  "\<exists>old st'. RefreshAccessToken (mem_auth_service ''ann'' 0) ''old'' (auth_at (auth_mem [ann] rotated_rows) 5) = (st', Inl (auth_err ErrRefreshTokenReused))
     \<and> mem_tbl rt_ID (ma_tokens (auth_mem [ann] rotated_rows)) (rt_ID old) = Some old \<and> rt_TokenHash old = HashToken ''old'' \<and> \<not> active old"
proof -
  have ok: "tokens_ok (mem_tbl rt_ID (ma_tokens (au_db (auth_at (auth_mem [ann] rotated_rows) 5))))" by (simp add: rotated_rows_ok)
  from refresh_access_token_spec [OF mem_auth_service.auth_service_axioms ok replay_run] show ?thesis
    by (auto simp: replay_run)
qed




lemma no_users_ok: "emails_ok (mem_tbl u_ID (ma_users (auth_mem [u] ts)))"
  by (auto simp: emails_ok_def auth_mem_def mem_tbl_def split: if_splits)


text \<open>
  C26. Sign-up is atomic. Either both tables are unchanged and an error is reported, or the address and the password are valid, no live user had that
  address, exactly one live user with it and with a hash the password matches is added, together with exactly one session of that user. The second
  case is answered with both tokens of the new user, or, when only the access token could not be made, with an error.
\<close>

theorem signup_atomic:
  assumes "auth_service s utbl ttbl genuine" and "CreateUserService s req st = (st', r)"
  shows "utbl (au_db st') = utbl (au_db st) \<and> ttbl (au_db st') = ttbl (au_db st) \<and> (\<exists>e. r = Inl e)
    \<or> (\<exists>u raw. validateEmail (cu_Email req) \<and> validatePassword (sv_unicode s) (cu_Password req) = None
         \<and> signed_up (sv_bcrypt s) req u (utbl (au_db st)) (utbl (au_db st'))
         \<and> session_added (u_ID u) raw (shd (au_clock st)) (ttbl (au_db st)) (ttbl (au_db st'))
         \<and> ((\<exists>e. r = Inl e \<and> errors_Is e ErrAccessTokenGenerate)
            \<or> (\<exists>tok e clk e' clk'. r = Inr \<lparr>sr_User = u, sr_AccessToken = tok, sr_RefreshToken = raw\<rparr>
                 \<and> CreateToken (sv_jwt s) (sv_cfg s) (u_ID u) e clk = (e', clk', Inr tok))))"
  by (rule auth_service.CreateUserService_spec [OF assms])

definition sample_signup :: CreateUserRequest where
  "sample_signup = \<lparr>cu_Email = ''a@b.c'', cu_Password = ''Passw0rd!''\<rparr>"

lemma sample_signup_valid:
  "validateEmail (cu_Email sample_signup)" "validatePassword latin_tables (cu_Password sample_signup) = None"
proof -
  show "validateEmail (cu_Email sample_signup)" unfolding sample_signup_def by code_simp
  show "validatePassword latin_tables (cu_Password sample_signup) = None"
    by (simp add: sample_signup_def validatePassword_def scan_password_def scan_rune_def runes_def utf8_chunks.simps DecodeRune_def byte_def
        IsUpper_def IsLower_def IsDigit_def IsPunct_def IsSymbol_def minLength_def)
qed

definition zero_token :: string where
  "zero_token = EncodeToString (map (\<lambda>i. 0) [0..<32])"

lemma zero_refresh: "GenerateRefreshToken zero_entropy = (zero_entropy, Inr (zero_token, HashToken zero_token))"
  by (simp add: GenerateRefreshToken_def rand_Read_def zero_entropy_def zero_token_def Let_def)

definition new_user :: User where
  "new_user = \<lparr>u_ID = ''u'', u_Email = ''a@b.c'', u_PasswordHash = ''Passw0rd!'', u_CreatedAt = 0, u_DeletedAt = None\<rparr>"

lemma signup_run:
  "\<exists>st'. CreateUserService (mem_auth_service ''u'' 0) sample_signup (auth_at (auth_mem [] []) 0) =
     (st', Inr \<lparr>sr_User = new_user, sr_AccessToken = ''token'', sr_RefreshToken = zero_token\<rparr>)
     \<and> mem_rows (ma_users (au_db st')) = [new_user] \<and> length (mem_rows (ma_tokens (au_db st'))) = 1"
  using sample_signup_valid
  by (simp add: CreateUserService_def CheckEmailExists_def HashPassword_def clear_bcrypt_def zero_refresh time_Now_def sample_token
      CreateUserWithRefreshToken_def create_user_tx_def auth_mem_eval fill_user_def fill_token_def digests_distinct_def Let_def)
    (simp add: sample_signup_def zeroUser_def new_user_def sample_token)

theorem signup_atomic_witness:
  "\<exists>u raw st' r. CreateUserService (mem_auth_service ''u'' 0) sample_signup (auth_at (auth_mem [] []) 0) = (st', r)
     \<and> signed_up clear_bcrypt sample_signup u (mem_tbl u_ID (ma_users (auth_mem [] []))) (mem_tbl u_ID (ma_users (au_db st')))
     \<and> session_added (u_ID u) raw 0 (mem_tbl rt_ID (ma_tokens (auth_mem [] []))) (mem_tbl rt_ID (ma_tokens (au_db st')))"
proof -
  from signup_run obtain st' where run: "CreateUserService (mem_auth_service ''u'' 0) sample_signup (auth_at (auth_mem [] []) 0) =
     (st', Inr \<lparr>sr_User = new_user, sr_AccessToken = ''token'', sr_RefreshToken = zero_token\<rparr>)" by blast
  from signup_atomic [OF mem_auth_service.auth_service_axioms run] run show ?thesis by auto
qed


lemma login_run:
  "\<exists>st3 lg. LoginUserService (mem_auth_service ''u'' 0) \<lparr>lr_Email = cu_Email sample_signup, lr_Password = cu_Password sample_signup\<rparr>
     (auth_at (auth_mem [new_user] []) 0) = (st3, Inr lg)"
  using sample_signup_valid
  by (simp add: LoginUserService_def GetUserPassword_def CheckPasswordHash_def clear_bcrypt_def zero_refresh time_Now_def sample_token
      CreateRefreshToken_def auth_mem_eval fill_token_def digests_distinct_def user_live_def Let_def)
    (simp add: sample_signup_def new_user_def sample_token)


end
