(* ===== verification/Httpx.thy ===== *)
theory Httpx
  imports Jobflow_Prelude
begin

text \<open>
  The HTTP boundary the handlers share: the response envelope of \<^verbatim>\<open>internal/httpx\<close> and the request context with the
  three values that \<^verbatim>\<open>internal/auth/context.go\<close> keeps in it. The web framework is represented by the part of its
  context that the code reads and writes: the key-value store, the headers and the path parameters.
\<close>

section \<open>Responses\<close>

definition MsgInvalidBody :: string where "MsgInvalidBody = ''invalid request body''"
definition MsgUnauthorized :: string where "MsgUnauthorized = ''unauthorized''"
definition MsgInternalError :: string where "MsgInternalError = ''internal error''"

lemmas httpx_messages = MsgInvalidBody_def MsgUnauthorized_def MsgInternalError_def

text \<open>The status codes of \<^verbatim>\<open>net/http\<close> that the handlers use.\<close>

definition StatusOK :: int where "StatusOK = 200"
definition StatusCreated :: int where "StatusCreated = 201"
definition StatusBadRequest :: int where "StatusBadRequest = 400"
definition StatusUnauthorized :: int where "StatusUnauthorized = 401"
definition StatusForbidden :: int where "StatusForbidden = 403"
definition StatusNotFound :: int where "StatusNotFound = 404"
definition StatusConflict :: int where "StatusConflict = 409"
definition StatusInternalServerError :: int where "StatusInternalServerError = 500"
definition StatusServiceUnavailable :: int where "StatusServiceUnavailable = 503"

lemmas http_status = StatusOK_def StatusCreated_def StatusBadRequest_def StatusUnauthorized_def StatusForbidden_def StatusNotFound_def
  StatusConflict_def StatusInternalServerError_def StatusServiceUnavailable_def

record 'd response =
  rs_Status :: int
  rs_Success :: bool
  rs_Message :: string
  rs_Data :: "'d option"
  rs_Aborted :: bool

definition Success :: "int \<Rightarrow> string \<Rightarrow> 'd option \<Rightarrow> 'd response" where
  \<comment> \<open>nil data is left out of the body\<close>
  "Success status message dat = \<lparr>rs_Status = status, rs_Success = True, rs_Message = message, rs_Data = dat, rs_Aborted = False\<rparr>"

definition Error :: "int \<Rightarrow> string \<Rightarrow> 'd response" where
  "Error status message = \<lparr>rs_Status = status, rs_Success = False, rs_Message = message, rs_Data = None, rs_Aborted = False\<rparr>"

definition AbortError :: "int \<Rightarrow> string \<Rightarrow> 'd response" where
  "AbortError status message = \<lparr>rs_Status = status, rs_Success = False, rs_Message = message, rs_Data = None, rs_Aborted = True\<rparr>"

lemma response_sel [simp]:
  "rs_Status (Success s m d) = s" "rs_Status (Error s m) = s" "rs_Status (AbortError s m) = s"
  "rs_Success (Success s m d)" "\<not> rs_Success (Error s m)" "\<not> rs_Success (AbortError s m)"
  "rs_Data (Success s m d) = d" "rs_Data (Error s m) = None" "rs_Data (AbortError s m) = None"
  "rs_Message (Success s m d) = m" "rs_Message (Error s m) = m" "rs_Message (AbortError s m) = m"
  "\<not> rs_Aborted (Success s m d)" "\<not> rs_Aborted (Error s m)" "rs_Aborted (AbortError s m)"
  by (simp_all add: Success_def Error_def AbortError_def)

section \<open>The request context\<close>

datatype ctx_value = CtxString string | CtxTime time

record gin_context =
  gc_Keys :: "string \<Rightarrow> ctx_value option"
  gc_Header :: "string \<Rightarrow> string"
  gc_Param :: "string \<Rightarrow> string"

definition ctxUserID :: string where "ctxUserID = ''userID''"
definition ctxJTI :: string where "ctxJTI = ''jti''"
definition ctxExp :: string where "ctxExp = ''exp''"

lemmas ctx_keys = ctxUserID_def ctxJTI_def ctxExp_def

definition SetUserID :: "string \<Rightarrow> gin_context \<Rightarrow> gin_context" where
  "SetUserID userID c = c\<lparr>gc_Keys := (gc_Keys c)(ctxUserID \<mapsto> CtxString userID)\<rparr>"

definition SetJTI :: "string \<Rightarrow> gin_context \<Rightarrow> gin_context" where
  "SetJTI jti c = c\<lparr>gc_Keys := (gc_Keys c)(ctxJTI \<mapsto> CtxString jti)\<rparr>"

definition SetExp :: "time \<Rightarrow> gin_context \<Rightarrow> gin_context" where
  "SetExp t c = c\<lparr>gc_Keys := (gc_Keys c)(ctxExp \<mapsto> CtxTime t)\<rparr>"

text \<open>The typed getters: the second component says whether the key is there with a value of the type.\<close>

definition string_from :: "string \<Rightarrow> gin_context \<Rightarrow> string \<times> bool" where
  "string_from key c = (case gc_Keys c key of
       None \<Rightarrow> ('''', False)
     | Some (CtxString s) \<Rightarrow> (s, True)
     | Some (CtxTime _) \<Rightarrow> ('''', False))"

definition UserIDFromContext :: "gin_context \<Rightarrow> string \<times> bool" where
  "UserIDFromContext = string_from ctxUserID"

definition JTIFromContext :: "gin_context \<Rightarrow> string \<times> bool" where
  "JTIFromContext = string_from ctxJTI"

definition ExpFromContext :: "gin_context \<Rightarrow> time \<times> bool" where
  "ExpFromContext c = (case gc_Keys c ctxExp of
       None \<Rightarrow> (zeroTime, False)
     | Some (CtxTime t) \<Rightarrow> (t, True)
     | Some (CtxString _) \<Rightarrow> (zeroTime, False))"

definition authenticated :: "string \<Rightarrow> string \<Rightarrow> time \<Rightarrow> gin_context \<Rightarrow> gin_context" where
  "authenticated userID jti t c = SetExp t (SetJTI jti (SetUserID userID c))"

lemma authenticated_get [simp]:
  "UserIDFromContext (authenticated u j t c) = (u, True)"
  "JTIFromContext (authenticated u j t c) = (j, True)"
  "ExpFromContext (authenticated u j t c) = (t, True)"
  "gc_Header (authenticated u j t c) = gc_Header c" "gc_Param (authenticated u j t c) = gc_Param c"
  by (simp_all add: authenticated_def SetUserID_def SetJTI_def SetExp_def UserIDFromContext_def JTIFromContext_def
      ExpFromContext_def string_from_def ctx_keys)

end
