(* ===== verification/Auth_Handler.thy ===== *)
theory Auth_Handler
  imports Auth_Service Httpx
begin

text \<open>
  The HTTP side of authentication: \<^verbatim>\<open>internal/auth/handler.go\<close> and the middleware \<^verbatim>\<open>internal/middleware/auth.go\<close>.

  A handler takes the request body and the request context and returns the state after the call with the response. The JSON
  decoder of the framework is a parameter \<open>dec\<close>, which gives the decoded struct or nothing; the check of the \<^verbatim>\<open>binding:"required"\<close> tags is written out. The
  middleware either answers itself or hands the context on with the identity of the caller in it.
\<close>

section \<open>Binding\<close>

definition ShouldBindJSON :: "(string \<Rightarrow> 'b option) \<Rightarrow> ('b \<Rightarrow> string list) \<Rightarrow> string \<Rightarrow> 'b option" where
  "ShouldBindJSON dec required_fields body = (case dec body of
       None \<Rightarrow> None
     | Some b \<Rightarrow> if '''' \<in> set (required_fields b) then None else Some b)"

definition CreateUserRequest_required :: "CreateUserRequest \<Rightarrow> string list" where
  "CreateUserRequest_required b = [cu_Email b, cu_Password b]"

definition LoginRequest_required :: "LoginRequest \<Rightarrow> string list" where
  "LoginRequest_required b = [lr_Email b, lr_Password b]"

definition LogoutRequest_required :: "LogoutRequest \<Rightarrow> string list" where
  "LogoutRequest_required b = [lo_RefreshToken b]"

section \<open>The bearer token\<close>

definition ExtractBearerToken :: "string \<Rightarrow> string + string" where
  "ExtractBearerToken header =
     (if header = '''' then Inl ''missing authorization header''
      else case SplitN (TrimSpace header) CHR '' '' 2 of
        [scheme, rest] \<Rightarrow>
          if \<not> EqualFold scheme ''Bearer'' then Inl ''authorization header must be in form: Bearer <token>''
          else (let token = TrimSpace rest
                in if token = '''' then Inl ''bearer token is empty'' else Inr token)
      | _ \<Rightarrow> Inl ''authorization header must be in form: Bearer <token>'')"

section \<open>Handlers\<close>

definition create_user_error :: "auth_error \<Rightarrow> 'd response" where
  "create_user_error err =
     (if errors_Is err ErrEmailExists then Error StatusConflict (auth_error_text err)
      else if errors_Is err ErrInvalidEmail then Error StatusUnauthorized (auth_error_text err)
      else if (\<exists>reason. err = WeakPasswordError reason) then Error StatusBadRequest (auth_error_text err)
      else if errors_Is err ErrHashingPassword \<or> errors_Is err ErrToCreateUser then Error StatusInternalServerError (auth_error_text err)
      else Error StatusInternalServerError MsgInternalError)"

definition CreateUser ::
  "(string \<Rightarrow> CreateUserRequest option) \<Rightarrow> ('db, 'rd) AuthService \<Rightarrow> string \<Rightarrow> ('db, 'rd) auth_state \<Rightarrow> ('db, 'rd) auth_state \<times> SignupResult response"
where
  "CreateUser dec s body st = (case ShouldBindJSON dec CreateUserRequest_required body of
       None \<Rightarrow> (st, Error StatusBadRequest MsgInvalidBody)
     | Some req \<Rightarrow> (case CreateUserService s req st of
         (st', Inl err) \<Rightarrow> (st', create_user_error err)
       | (st', Inr result) \<Rightarrow> (st', Success StatusCreated ''user created'' (Some result))))"

definition login_error :: "auth_error \<Rightarrow> 'd response" where
  "login_error err =
     (if errors_Is err ErrInvalidEmail \<or> errors_Is err ErrWrongPassword \<or> errors_Is err ErrNotFound
      then Error StatusUnauthorized (auth_error_text err)
      else Error StatusInternalServerError MsgInternalError)"

definition LoginUser ::
  "(string \<Rightarrow> LoginRequest option) \<Rightarrow> ('db, 'rd) AuthService \<Rightarrow> string \<Rightarrow> ('db, 'rd) auth_state \<Rightarrow> ('db, 'rd) auth_state \<times> LoginResult response"
where
  "LoginUser dec s body st = (case ShouldBindJSON dec LoginRequest_required body of
       None \<Rightarrow> (st, Error StatusBadRequest MsgInvalidBody)
     | Some req \<Rightarrow> (case LoginUserService s req st of
         (st', Inl err) \<Rightarrow> (st', login_error err)
       | (st', Inr result) \<Rightarrow> (st', Success StatusOK ''login successful'' (Some result))))"

definition session_error :: "auth_error \<Rightarrow> 'd response" where
  "session_error err =
     (if errors_Is err ErrInvalidRefreshToken \<or> errors_Is err ErrRefreshTokenReused \<or> errors_Is err ErrUserNotFound
      then Error StatusUnauthorized (auth_error_text err)
      else Error StatusInternalServerError MsgInternalError)"

definition RefreshAccessToken_handler ::
  "('db, 'rd) AuthService \<Rightarrow> gin_context \<Rightarrow> ('db, 'rd) auth_state \<Rightarrow> ('db, 'rd) auth_state \<times> Tokens response"
where
  "RefreshAccessToken_handler s c st = (case ExtractBearerToken (gc_Header c ''Authorization'') of
       Inl msg \<Rightarrow> (st, Error StatusUnauthorized msg)
     | Inr refreshToken \<Rightarrow> (case RefreshAccessToken s refreshToken st of
         (st', Inl err) \<Rightarrow> (st', session_error err)
       | (st', Inr tokens) \<Rightarrow> (st', Success StatusOK ''token refreshed'' (Some tokens))))"

definition Logout ::
  "(string \<Rightarrow> LogoutRequest option) \<Rightarrow> ('db, 'rd) AuthService \<Rightarrow> string \<Rightarrow> gin_context \<Rightarrow> ('db, 'rd) auth_state \<Rightarrow> ('db, 'rd) auth_state \<times> unit response"
where
  "Logout dec s body c st = (case ShouldBindJSON dec LogoutRequest_required body of
       None \<Rightarrow> (st, Error StatusBadRequest MsgInvalidBody)
     | Some req \<Rightarrow> (case JTIFromContext c of
         (jti, False) \<Rightarrow> (st, Error StatusUnauthorized ''missing token context'')
       | (jti, True) \<Rightarrow> (let (exp, _) = ExpFromContext c
           in case LogoutService s jti exp (lo_RefreshToken req) st of
                (st', Some err) \<Rightarrow> (st', session_error err)
              | (st', None) \<Rightarrow> (st', Success StatusOK ''logout successful'' None))))"

section \<open>The middleware\<close>

definition RequireAuth ::
  "jwt \<Rightarrow> Config \<Rightarrow> 'rd redis_client \<Rightarrow> time \<Rightarrow> gin_context \<Rightarrow> 'rd \<Rightarrow> 'rd \<times> ('d response + gin_context)"
where
  "RequireAuth j cfg jtiStore now c rd = (case ExtractBearerToken (gc_Header c ''Authorization'') of
       Inl msg \<Rightarrow> (rd, Inl (AbortError StatusUnauthorized msg))
     | Inr token \<Rightarrow> (case ParseAccessToken j cfg now token of
         Inl msg \<Rightarrow> (rd, Inl (AbortError StatusUnauthorized ''invalid or expired token''))
       | Inr claims \<Rightarrow> (case IsRevoked jtiStore (ac_JTI claims) rd of
           (rd', Inl err) \<Rightarrow> (rd', Inl (AbortError StatusInternalServerError ''auth check failed''))
         | (rd', Inr True) \<Rightarrow> (rd', Inl (AbortError StatusUnauthorized ''token revoked''))
         | (rd', Inr False) \<Rightarrow> (rd', Inr (SetExp (ac_ExpiresAt claims) (SetJTI (ac_JTI claims) (SetUserID (ac_UserID claims) c)))))))"

text \<open>A route behind the middleware: the handler runs only when the middleware hands the context on.\<close>

definition behind_auth :: "'d response + gin_context \<Rightarrow> (gin_context \<Rightarrow> 's \<Rightarrow> 's \<times> 'd response) \<Rightarrow> 's \<Rightarrow> 's \<times> 'd response" where
  "behind_auth gate handler st = (case gate of Inl resp \<Rightarrow> (st, resp) | Inr c \<Rightarrow> handler c st)"

section \<open>Facts\<close>

lemma utf8_chunks_ascii: "list_all (\<lambda>c. byte c < 128) s \<Longrightarrow> utf8_chunks s = map (\<lambda>c. (byte c, [c])) s"
proof (induction s)
  case (Cons c s)
  then show ?case by (subst utf8_chunks.simps) (simp add: DecodeRune_def)
qed (simp add: utf8_chunks.simps)

definition visible :: "char \<Rightarrow> bool" where
  "visible c \<longleftrightarrow> 33 \<le> byte c \<and> byte c < 127"

lemma visible_not_space: "visible c \<Longrightarrow> \<not> IsSpace (byte c)"
  by (auto simp: visible_def IsSpace_def)

lemma TrimSpace_between:
  assumes "list_all (\<lambda>c. byte c < 128) (a # m @ [b])" and "visible a" and "visible b"
  shows "TrimSpace (a # m @ [b]) = a # m @ [b]"
proof -
  have "concat (map (\<lambda>c. [c]) xs) = xs" for xs :: string by (induction xs) auto
  then show ?thesis
    using assms(2,3) by (simp only: TrimSpace_def utf8_chunks_ascii [OF assms(1)]) (simp add: visible_not_space rev_map comp_def)
qed

lemma TrimSpace_visible:
  assumes "list_all visible s"
  shows "TrimSpace s = s"
proof -
  have ascii: "list_all (\<lambda>c. byte c < 128) s" using assms by (auto simp: list_all_iff visible_def)
  have "concat (map (\<lambda>c. [c]) xs) = xs" for xs :: string by (induction xs) auto
  moreover have "dropWhile (\<lambda>ch. IsSpace (fst ch)) (map (\<lambda>c. (byte c, [c])) t) = map (\<lambda>c. (byte c, [c])) t" if "list_all visible t" for t
    using that by (cases t) (auto simp: visible_not_space)
  ultimately show ?thesis using assms
    by (simp add: TrimSpace_def utf8_chunks_ascii [OF ascii] rev_map comp_def list_all_iff)
qed

text \<open>The middleware hands on exactly the contexts with a valid and unrevoked token.\<close>

lemma RequireAuth_Inr:
  assumes "RequireAuth j cfg jtiStore now c rd = (rd', Inr c')"
  obtains token claims where "ExtractBearerToken (gc_Header c ''Authorization'') = Inr token"
    "ParseAccessToken j cfg now token = Inr claims" "IsRevoked jtiStore (ac_JTI claims) rd = (rd', Inr False)"
    "c' = authenticated (ac_UserID claims) (ac_JTI claims) (ac_ExpiresAt claims) c"
  using assms by (auto simp: RequireAuth_def authenticated_def split: sum.splits prod.splits bool.splits)

lemma RequireAuth_Inl:
  assumes "RequireAuth j cfg jtiStore now c rd = (rd', Inl resp)"
  shows "rs_Aborted resp \<and> \<not> rs_Success resp \<and> (rs_Status resp = 401 \<or> rs_Status resp = 500)"
  using assms by (auto simp: RequireAuth_def http_status split: sum.splits prod.splits bool.splits)

section \<open>Properties\<close>

text \<open>
  C18. The middleware lets a request through only with a bearer token whose signature verifies with an HMAC method under the configured secret, whose issuer
  and audience are the configured ones, which has not expired, and whose id Redis does not report as revoked; the handler then sees the user, the id and the
  expiry of exactly that token. Every other request is aborted with 401 or 500 before any handler runs.
\<close>

theorem require_auth_gate:
  assumes "jwt_lib j genuine" and "RequireAuth j cfg jtiStore now c rd = (rd', gate)"
  shows "(case gate of
      Inr c' \<Rightarrow> \<exists>token alg cl t. ExtractBearerToken (gc_Header c ''Authorization'') = Inr token
         \<and> genuine (HMAC alg) (AccessSecret cfg) cl token \<and> claims_ok (access_options cfg) now cl
         \<and> cl_ExpiresAt cl = Some t \<and> now < t \<and> IsRevoked jtiStore (cl_ID cl) rd = (rd', Inr False)
         \<and> c' = authenticated (cl_Subject cl) (cl_ID cl) t c
    | Inl resp \<Rightarrow> rs_Aborted resp \<and> \<not> rs_Success resp \<and> (rs_Status resp = 401 \<or> rs_Status resp = 500)
         \<and> (\<forall>handler st. behind_auth gate handler st = (st, resp)))"
proof (cases gate)
  case (Inl resp)
  with RequireAuth_Inl [of j cfg jtiStore now c rd rd' resp] assms(2) show ?thesis by (simp add: behind_auth_def)
next
  case (Inr c')
  from RequireAuth_Inr [OF assms(2) [unfolded Inr]] obtain token claims where
    g: "ExtractBearerToken (gc_Header c ''Authorization'') = Inr token" "ParseAccessToken j cfg now token = Inr claims"
    "IsRevoked jtiStore (ac_JTI claims) rd = (rd', Inr False)"
    "c' = authenticated (ac_UserID claims) (ac_JTI claims) (ac_ExpiresAt claims) c" .
  from jwt_lib.ParseAccessToken_sound [OF assms(1) g(2)] obtain alg cl where
    cl: "now < ac_ExpiresAt claims" "genuine (HMAC alg) (AccessSecret cfg) cl token" "claims_ok (access_options cfg) now cl"
    "cl_Subject cl = ac_UserID claims" "cl_ID cl = ac_JTI claims" "cl_ExpiresAt cl = Some (ac_ExpiresAt claims)" by blast
  show ?thesis unfolding Inr sum.case
    by (rule exI [of _ token], rule exI [of _ alg], rule exI [of _ cl], rule exI [of _ "ac_ExpiresAt claims"]) (use g cl in simp)
qed

definition bearer_context :: "string \<Rightarrow> gin_context" where
  "bearer_context token = \<lparr>gc_Keys = Map.empty, gc_Header = (\<lambda>h. if h = ''Authorization'' then ''Bearer '' @ token else ''''), gc_Param = (\<lambda>p. '''')\<rparr>"

lemma ExtractBearerToken_visible:
  assumes "token \<noteq> ''''" and "list_all visible token" and "EqualFold scheme ''Bearer''"
  shows "ExtractBearerToken (scheme @ '' '' @ token) = Inr token"
proof -
  have letters: "65 \<le> byte c \<and> byte c < 123" if "c \<in> set scheme" for c
  proof -
    have "ascii_lower c \<in> set (map ascii_lower ''Bearer'')" using that assms(3) unfolding EqualFold_def by (metis image_eqI set_map)
    then show ?thesis by (auto simp: ascii_lower_def byte_def split: if_splits)
  qed
  have "length (map ascii_lower scheme) = length (map ascii_lower ''Bearer'')" using assms(3) by (simp only: EqualFold_def)
  then have six: "length scheme = 6" by simp
  obtain a m where scheme: "scheme = a # m" using six by (cases scheme) auto
  obtain n b where token: "token = n @ [b]" using assms(1) by (cases token rule: rev_cases) auto
  have small: "byte c < 128" if "c \<in> set scheme \<union> set token \<union> {CHR '' ''}" for c
    using that letters [of c] assms(2) by (auto simp: list_all_iff visible_def byte_def)
  have "visible a" "visible b" using letters [of a] assms(2) by (auto simp: scheme token visible_def)
  moreover have "list_all (\<lambda>c. byte c < 128) (a # (m @ '' '' @ n) @ [b])" using small by (auto simp: list_all_iff scheme token)
  ultimately have "TrimSpace (scheme @ '' '' @ token) = scheme @ '' '' @ token"
    using TrimSpace_between [of a "m @ '' '' @ n" b] by (simp add: scheme token)
  moreover have "CHR '' '' \<notin> set scheme" using letters [of "CHR '' ''"] by (auto simp: byte_def)
  ultimately show ?thesis
    using assms six SplitN_piece [of "CHR '' ''" scheme token 0] by (simp add: ExtractBearerToken_def TrimSpace_visible numeral_2_eq_2 Let_def)
qed

lemma sample_parse:
  "ParseAccessToken (sample_jwt ''ann'' 0) sample_config 0 ''token'' = Inr \<lparr>ac_UserID = ''ann'', ac_JTI = zero_jti, ac_ExpiresAt = 15 * Minute\<rparr>"
proof -
  have "zero_jti \<noteq> ''''" by (simp add: zero_jti_def EncodeToString_def hex_byte_def upt_rec)
  then show ?thesis
    by (simp add: ParseAccessToken_def sample_jwt_def book_jwt_def claims_at_def claims_ok_def access_options_def sample_config_def keyFunc_def HS256_def
        NumericDate_def go_time)
qed

lemma sample_bearer: "ExtractBearerToken (gc_Header (bearer_context ''token'') ''Authorization'') = Inr ''token''"
  using ExtractBearerToken_visible [of "''token''" "''Bearer''"]
  by (simp add: bearer_context_def visible_def byte_def EqualFold_def)

lemma gate_open:
  "RequireAuth (sample_jwt ''ann'' 0) sample_config ref_client 0 (bearer_context ''token'') rr_init =
     (rr_init, Inr (authenticated ''ann'' zero_jti (15 * Minute) (bearer_context ''token'')))"
  by (simp add: RequireAuth_def sample_bearer sample_parse IsRevoked_def rr_defs rr_init_def authenticated_def)

theorem require_auth_gate_witness:
  "\<exists>c'. RequireAuth (sample_jwt ''ann'' 0) sample_config ref_client 0 (bearer_context ''token'') rr_init = (rr_init, Inr c')
     \<and> UserIDFromContext c' = (''ann'', True)
     \<and> (\<exists>cl. sample_genuine ''ann'' 0 (HMAC ''HS256'') ''secret'' cl ''token'' \<and> claims_ok (access_options sample_config) 0 cl)"
proof -
  have lib: "jwt_lib (sample_jwt ''ann'' 0) (sample_genuine ''ann'' 0)"
    unfolding sample_jwt_def by (rule book.jwt_lib_axioms)
  from require_auth_gate [OF lib gate_open] sample_bearer have
    "\<exists>alg cl. sample_genuine ''ann'' 0 (HMAC alg) (AccessSecret sample_config) cl ''token'' \<and> claims_ok (access_options sample_config) 0 cl" by auto
  moreover have "AccessSecret sample_config = ''secret''" by (simp add: sample_config_def)
  ultimately show ?thesis by (auto simp: gate_open HS256_def)
qed

text \<open>
  A header made of the scheme, in any letter case, one space and a token of visible ASCII characters is read back to that token.
\<close>

theorem extract_bearer_round_trip:
  assumes "token \<noteq> ''''" and "list_all visible token" and "EqualFold scheme ''Bearer''"
  shows "ExtractBearerToken (scheme @ '' '' @ token) = Inr token"
  by (rule ExtractBearerToken_visible [OF assms])

theorem extract_bearer_round_trip_witness: "ExtractBearerToken ''bEARer aB.9-_'' = Inr ''aB.9-_''"
proof -
  have "EqualFold ''bEARer'' ''Bearer''" "list_all visible ''aB.9-_''" by code_simp+
  with extract_bearer_round_trip [of "''aB.9-_''" "''bEARer''"] show ?thesis by simp
qed

text \<open>
  C19. After a logout that reports success, the access token with which it was made is refused by the middleware, until at most one
  millisecond before it would have expired anyway: as long as the denylist entry is the one the logout wrote and the server's clock has not
  advanced by the token's remaining lifetime, a request with that token is aborted.
\<close>

theorem logout_locks_out:
  assumes "redis_keys (sv_jtiStore s) rnow expiry"
    and "LogoutService s jti exp refreshToken st = (st', None)" and "shd (au_clock st) < exp" and "exp - shd (au_clock st) \<le> maxDuration"
    and "expiry rd (jtiKey jti) = expiry (au_rd st') (jtiKey jti)"
    and "rnow rd < rnow (au_rd st) + (exp - shd (au_clock st)) - Millisecond"
    and "ExtractBearerToken (gc_Header c ''Authorization'') = Inr token" and "ParseAccessToken j cfg now token = Inr claims" and "ac_JTI claims = jti"
  shows "\<exists>rd' resp. RequireAuth j cfg (sv_jtiStore s) now c rd = (rd', Inl resp) \<and> rs_Aborted resp \<and> (rs_Status resp = 401 \<or> rs_Status resp = 500)"
proof -
  have sub: "time_Sub exp (shd (au_clock st)) = exp - shd (au_clock st)"
    using assms(3,4) by (intro time_Sub_exact) (simp_all add: go_time)
  from assms(2) have "Revoke (sv_jtiStore s) jti (exp - shd (au_clock st)) (au_rd st) = (au_rd st', None)"
    by (cases rule: LogoutService_cases) (auto simp: sub)
  from redis_keys.Revoke_denies [OF assms(1) this] assms(3)
  have "redis_keys.denied expiry jti (rnow (au_rd st) + (exp - shd (au_clock st)) - Millisecond) (au_rd st')" by simp
  then have denied: "redis_keys.denied expiry jti (rnow (au_rd st) + (exp - shd (au_clock st)) - Millisecond) rd"
    using assms(5) by (simp add: redis_keys.denied_def [OF assms(1)])
  obtain rd' ans where r: "IsRevoked (sv_jtiStore s) jti rd = (rd', ans)" by fastforce
  have "ans \<noteq> Inr False" using redis_keys.IsRevoked_denied [OF assms(1) denied, of rd'] r assms(6) by auto
  then show ?thesis using r assms(7-9)
    by (cases ans) (auto simp: RequireAuth_def http_status split: bool.splits)
qed

lemma logout_run:
  "LogoutService (mem_auth_service ''ann'' 0) zero_jti (15 * Minute) ''x'' (auth_at (auth_mem [ann] []) 0) =
     ((auth_at (auth_mem [ann] []) 0)\<lparr>au_rd := rr_init\<lparr>rr_keys := [(jtiKey zero_jti, 15 * Minute)]\<rparr>\<rparr>, None)"
  by (simp add: LogoutService_def Revoke_def rr_defs rr_init_def time_Now_def time_Sub_def FindRefreshTokenByHash_def auth_mem_eval auth_at_def go_time)

theorem logout_locks_out_witness:
  "\<exists>rd' resp. RequireAuth (sample_jwt ''ann'' 0) sample_config ref_client 0 (bearer_context ''token'') (rr_init\<lparr>rr_keys := [(jtiKey zero_jti, 15 * Minute)]\<rparr>) = (rd', Inl resp)
     \<and> rs_Aborted resp \<and> (rs_Status resp = 401 \<or> rs_Status resp = 500)"
proof -
  have keys: "redis_keys (sv_jtiStore (mem_auth_service ''ann'' 0)) rr_now (\<lambda>r. map_of (rr_keys r))"
    by (simp add: rr.redis_keys_axioms)
  from logout_locks_out [OF keys logout_run _ _ _ _ sample_bearer sample_parse, of "rr_init\<lparr>rr_keys := [(jtiKey zero_jti, 15 * Minute)]\<rparr>"]
  show ?thesis by (simp add: go_time rr_init_def auth_at_def)
qed

end
