(* ===== verification/Jobs_Model.thy ===== *)
theory Jobs_Model
  imports Gorm
begin

text \<open>
  Package \<^verbatim>\<open>internal/jobs\<close>, data and persistence: the structs of \<^verbatim>\<open>model.go\<close>, \<^verbatim>\<open>dto.go\<close> and
  \<^verbatim>\<open>message.go\<close>, the sentinels of \<^verbatim>\<open>errors.go\<close>, and the methods of \<^verbatim>\<open>repository.go\<close> over the parameter
  for \<^verbatim>\<open>gorm\<close>. The struct tags of \<^verbatim>\<open>Job\<close> decide which zero-valued fields a \<^verbatim>\<open>Create\<close> fills in and which
  fields an \<^verbatim>\<open>Updates\<close> with a struct writes; \<open>job_defaults\<close> and \<open>job_nonzero_update\<close> read them off.
\<close>

section \<open>Data\<close>

type_synonym JobStatus = string
type_synonym JobType = string

text \<open>\<^verbatim>\<open>datatypes.JSON\<close> is a byte slice; \<open>None\<close> is the nil slice.\<close>

type_synonym JSON = "string option"

definition JobEmail :: JobType where "JobEmail = ''sendEmail''"
definition JobGenerateReport :: JobType where "JobGenerateReport = ''generateReport''"
definition JobResizeImage :: JobType where "JobResizeImage = ''resizeImage''"
definition JobExportCSV :: JobType where "JobExportCSV = ''exportCSV''"

definition JobStatusPending :: JobStatus where "JobStatusPending = ''pending''"
definition JobStatusRunning :: JobStatus where "JobStatusRunning = ''running''"
definition JobStatusCompleted :: JobStatus where "JobStatusCompleted = ''completed''"
definition JobStatusFailed :: JobStatus where "JobStatusFailed = ''failed''"
definition JobStatusError :: JobStatus where "JobStatusError = ''error''"

lemmas job_constants = JobEmail_def JobGenerateReport_def JobResizeImage_def JobExportCSV_def
  JobStatusPending_def JobStatusRunning_def JobStatusCompleted_def JobStatusFailed_def JobStatusError_def

record Job =
  j_ID :: string
  j_UserID :: string
  j_Type :: JobType
  j_Payload :: JSON
  j_Status :: JobStatus
  j_Priority :: int
  j_WorkerID :: "string option"
  j_Attempts :: int
  j_MaxRetries :: int
  j_ErrorMsg :: "string option"
  j_ScheduledAt :: time
  j_QueuedAt :: "time option"
  j_StartedAt :: "time option"
  j_CompletedAt :: "time option"
  j_CreatedAt :: time
  j_UpdatedAt :: time
  j_DeletedAt :: "time option"

definition Job_TableName :: string where "Job_TableName = ''jobs''"

text \<open>The zero \<^verbatim>\<open>Job\<close> struct.\<close>

definition zeroJob :: Job where
  "zeroJob = \<lparr>j_ID = '''', j_UserID = '''', j_Type = '''', j_Payload = None, j_Status = '''', j_Priority = 0,
     j_WorkerID = None, j_Attempts = 0, j_MaxRetries = 0, j_ErrorMsg = None, j_ScheduledAt = zeroTime,
     j_QueuedAt = None, j_StartedAt = None, j_CompletedAt = None, j_CreatedAt = zeroTime,
     j_UpdatedAt = zeroTime, j_DeletedAt = None\<rparr>"

record JobMessage =
  m_ID :: string
  m_UserID :: string
  m_Type :: JobType
  m_Payload :: JSON
  m_Priority :: int
  m_MaxRetries :: int
  m_ScheduledAt :: time

record CreateJobRequest =
  cr_UserID :: string
  cr_Type :: JobType
  cr_Payload :: JSON
  cr_Priority :: "int option"
  cr_MaxRetries :: "int option"
  cr_ScheduledAt :: "time option"

record UpdateJobRequest =
  ur_UserID :: string
  ur_Type :: JobType
  ur_Payload :: JSON
  ur_Priority :: "int option"
  ur_MaxRetries :: "int option"
  ur_ScheduledAt :: "time option"

section \<open>Errors\<close>

datatype job_sentinel =
    ErrJobNotFound | ErrInvalidJobInput | ErrJobInternal | ErrToCreateJob | ErrToCreateJobs
  | ErrToGetJob | ErrToGetAllJobs | ErrToUpdateJob | ErrToDeleteJob | ErrUnauthorized

fun job_sentinel_text :: "job_sentinel \<Rightarrow> string" where
  "job_sentinel_text ErrJobNotFound = ''job not found''"
| "job_sentinel_text ErrInvalidJobInput = ''invalid job input''"
| "job_sentinel_text ErrJobInternal = ''internal error''"
| "job_sentinel_text ErrToCreateJob = ''failed to create job''"
| "job_sentinel_text ErrToCreateJobs = ''failed to create jobs''"
| "job_sentinel_text ErrToGetJob = ''failed to get job''"
| "job_sentinel_text ErrToGetAllJobs = ''failed to get jobs''"
| "job_sentinel_text ErrToUpdateJob = ''failed to update job''"
| "job_sentinel_text ErrToDeleteJob = ''failed to delete job''"
| "job_sentinel_text ErrUnauthorized = ''unauthorized''"

text \<open>
  An error of the service wraps one sentinel; \<^verbatim>\<open>errors.Is\<close> looks at the sentinel, \<^verbatim>\<open>Error()\<close> gives the text.
\<close>

datatype job_error = JobError (wrapped: job_sentinel) (error_text: string)

definition job_err :: "job_sentinel \<Rightarrow> job_error" where
  "job_err s = JobError s (job_sentinel_text s)"

definition job_err_wrap :: "job_sentinel \<Rightarrow> string \<Rightarrow> job_error" where
  \<comment> \<open>\<^verbatim>\<open>fmt.Errorf("%w: ...", sentinel, ...)\<close>\<close>
  "job_err_wrap s detail = JobError s (job_sentinel_text s @ '': '' @ detail)"

section \<open>What the struct tags say\<close>

text \<open>
  A \<^verbatim>\<open>Create\<close> leaves the zero-valued fields with a \<^verbatim>\<open>default:\<close> tag to their default: a generated id, the
  empty JSON object, \<^verbatim>\<open>'pending'\<close>, priority 5, 3 retries, the database clock.
\<close>

definition job_defaults :: "string \<Rightarrow> time \<Rightarrow> time \<Rightarrow> time \<Rightarrow> Job \<Rightarrow> Job" where
  "job_defaults uid tScheduled tCreated tUpdated j = j\<lparr>
     j_ID := (if j_ID j = '''' then uid else j_ID j),
     j_Payload := (if j_Payload j = None then Some ''{}'' else j_Payload j),
     j_Status := (if j_Status j = '''' then JobStatusPending else j_Status j),
     j_Priority := (if j_Priority j = 0 then 5 else j_Priority j),
     j_MaxRetries := (if j_MaxRetries j = 0 then 3 else j_MaxRetries j),
     j_ScheduledAt := (if j_ScheduledAt j = zeroTime then tScheduled else j_ScheduledAt j),
     j_CreatedAt := (if j_CreatedAt j = zeroTime then tCreated else j_CreatedAt j),
     j_UpdatedAt := (if j_UpdatedAt j = zeroTime then tUpdated else j_UpdatedAt j)\<rparr>"

text \<open>An \<^verbatim>\<open>Updates\<close> with a struct writes its non-zero fields only.\<close>

definition nz :: "'a \<Rightarrow> 'a \<Rightarrow> 'a \<Rightarrow> 'a" where
  "nz zero new old = (if new = zero then old else new)"

definition job_nonzero_update :: "Job \<Rightarrow> Job \<Rightarrow> Job" where
  "job_nonzero_update new row = row\<lparr>
     j_ID := nz '''' (j_ID new) (j_ID row),
     j_UserID := nz '''' (j_UserID new) (j_UserID row),
     j_Type := nz '''' (j_Type new) (j_Type row),
     j_Payload := nz None (j_Payload new) (j_Payload row),
     j_Status := nz '''' (j_Status new) (j_Status row),
     j_Priority := nz 0 (j_Priority new) (j_Priority row),
     j_WorkerID := nz None (j_WorkerID new) (j_WorkerID row),
     j_Attempts := nz 0 (j_Attempts new) (j_Attempts row),
     j_MaxRetries := nz 0 (j_MaxRetries new) (j_MaxRetries row),
     j_ErrorMsg := nz None (j_ErrorMsg new) (j_ErrorMsg row),
     j_ScheduledAt := nz zeroTime (j_ScheduledAt new) (j_ScheduledAt row),
     j_QueuedAt := nz None (j_QueuedAt new) (j_QueuedAt row),
     j_StartedAt := nz None (j_StartedAt new) (j_StartedAt row),
     j_CompletedAt := nz None (j_CompletedAt new) (j_CompletedAt row),
     j_CreatedAt := nz zeroTime (j_CreatedAt new) (j_CreatedAt row),
     j_DeletedAt := nz None (j_DeletedAt new) (j_DeletedAt row)\<rparr>"

definition job_live :: "Job \<Rightarrow> bool" where
  "job_live j \<longleftrightarrow> j_DeletedAt j = None"

definition job_filled :: "Job \<Rightarrow> Job \<Rightarrow> bool" where
  "job_filled given stored \<longleftrightarrow> (\<exists>uid t1 t2 t3. stored = job_defaults uid t1 t2 t3 given)"

definition job_tracked :: "Job \<Rightarrow> Job \<Rightarrow> bool" where
  "job_tracked r r' \<longleftrightarrow> r' = r\<lparr>j_UpdatedAt := j_UpdatedAt r'\<rparr>"

definition job_marked :: "Job \<Rightarrow> Job \<Rightarrow> bool" where
  "job_marked r r' \<longleftrightarrow> (\<exists>t. r' = r\<lparr>j_DeletedAt := Some t\<rparr>)"

section \<open>Repository\<close>

type_synonym ('db, 'a) db_result = "'db \<times> (gorm_error + 'a)"

definition gorm_err :: "'db \<times> (gorm_error + 'a) \<Rightarrow> 'db \<times> gorm_error option" where
  \<comment> \<open>the \<^verbatim>\<open>.Error\<close> field of a finished statement\<close>
  "gorm_err r = (fst r, case snd r of Inl e \<Rightarrow> Some e | Inr _ \<Rightarrow> None)"

definition CreateJob :: "('db, Job) gorm \<Rightarrow> Job \<Rightarrow> 'db \<Rightarrow> ('db, Job) db_result" where
  [repo_defs]: "CreateJob g job db = (case gorm_Create g db [job] of
       (db', Inl e) \<Rightarrow> (db', Inl e)
     | (db', Inr js) \<Rightarrow> (db', Inr (case js of j # _ \<Rightarrow> j | [] \<Rightarrow> job)))"

definition CreateJobs :: "('db, Job) gorm \<Rightarrow> Job list \<Rightarrow> 'db \<Rightarrow> ('db, Job list) db_result" where
  [repo_defs]: "CreateJobs g jobs db = gorm_Create g db jobs"

definition GetJobByID :: "('db, Job) gorm \<Rightarrow> string \<Rightarrow> 'db \<Rightarrow> ('db, Job) db_result" where
  [repo_defs]: "GetJobByID g jid db = gorm_Take g db (\<lambda>j. j_ID j = jid)"

definition GetAllJobs :: "('db, Job) gorm \<Rightarrow> string \<Rightarrow> 'db \<Rightarrow> ('db, Job list) db_result" where
  [repo_defs]: "GetAllJobs g userID db = gorm_Find g db (\<lambda>j. j_UserID j = userID)"

definition UpdateJob :: "('db, Job) gorm \<Rightarrow> string \<Rightarrow> Job \<Rightarrow> 'db \<Rightarrow> ('db, Job) db_result" where
  [repo_defs]: "UpdateJob g jid job db =
     (case gorm_Updates g db (\<lambda>j. j_ID j = jid) (job_nonzero_update job) of
        (db', Inl e) \<Rightarrow> (db', Inl e)
      | (db', Inr n) \<Rightarrow> (db', Inr job))"

definition DeleteJob :: "('db, Job) gorm \<Rightarrow> string \<Rightarrow> 'db \<Rightarrow> 'db \<times> gorm_error option" where
  [repo_defs]: "DeleteJob g jid db = gorm_err (gorm_Delete g db (\<lambda>j. j_ID j = jid))"

definition unqueued_pending :: "time \<Rightarrow> Job \<Rightarrow> bool" where
  "unqueued_pending before j \<longleftrightarrow>
     j_Status j = JobStatusPending \<and> j_QueuedAt j = None \<and> j_ScheduledAt j \<le> before"

definition GetUnqueuedPendingJobs :: "('db, Job) gorm \<Rightarrow> time \<Rightarrow> 'db \<Rightarrow> ('db, Job list) db_result" where
  [repo_defs]: "GetUnqueuedPendingJobs g before db = gorm_Find g db (unqueued_pending before)"

definition MarkQueued :: "('db, Job) gorm \<Rightarrow> string \<Rightarrow> time \<Rightarrow> 'db \<Rightarrow> 'db \<times> gorm_error option" where
  [repo_defs]: "MarkQueued g jid queuedAt db =
     gorm_err (gorm_Updates g db (\<lambda>j. j_ID j = jid) (\<lambda>j. j\<lparr>j_QueuedAt := Some queuedAt\<rparr>))"

section \<open>Facts about the field functions\<close>

lemma job_defaults_sel [simp]:
  "j_UserID (job_defaults u a b c j) = j_UserID j"
  "j_Type (job_defaults u a b c j) = j_Type j"
  "j_Status (job_defaults u a b c j) = (if j_Status j = '''' then JobStatusPending else j_Status j)"
  "j_Priority (job_defaults u a b c j) = (if j_Priority j = 0 then 5 else j_Priority j)"
  "j_MaxRetries (job_defaults u a b c j) = (if j_MaxRetries j = 0 then 3 else j_MaxRetries j)"
  "j_Payload (job_defaults u a b c j) = (if j_Payload j = None then Some ''{}'' else j_Payload j)"
  "j_ScheduledAt (job_defaults u a b c j) = (if j_ScheduledAt j = zeroTime then a else j_ScheduledAt j)"
  "j_QueuedAt (job_defaults u a b c j) = j_QueuedAt j"
  "j_Attempts (job_defaults u a b c j) = j_Attempts j"
  "j_DeletedAt (job_defaults u a b c j) = j_DeletedAt j"
  "j_WorkerID (job_defaults u a b c j) = j_WorkerID j"
  "j_ErrorMsg (job_defaults u a b c j) = j_ErrorMsg j"
  "j_StartedAt (job_defaults u a b c j) = j_StartedAt j"
  "j_CompletedAt (job_defaults u a b c j) = j_CompletedAt j"
  by (simp_all add: job_defaults_def)

lemma job_nonzero_update_sel [simp]:
  "j_ID (job_nonzero_update new r) = nz '''' (j_ID new) (j_ID r)"
  "j_Priority (job_nonzero_update new r) = nz 0 (j_Priority new) (j_Priority r)"
  "j_MaxRetries (job_nonzero_update new r) = nz 0 (j_MaxRetries new) (j_MaxRetries r)"
  by (simp_all add: job_nonzero_update_def)

lemma job_tracked_sel:
  assumes "job_tracked r r'"
  shows "j_ID r' = j_ID r" "j_UserID r' = j_UserID r" "j_Type r' = j_Type r" "j_Payload r' = j_Payload r"
    "j_Status r' = j_Status r" "j_Priority r' = j_Priority r" "j_WorkerID r' = j_WorkerID r"
    "j_Attempts r' = j_Attempts r" "j_MaxRetries r' = j_MaxRetries r" "j_ErrorMsg r' = j_ErrorMsg r"
    "j_ScheduledAt r' = j_ScheduledAt r" "j_QueuedAt r' = j_QueuedAt r" "j_StartedAt r' = j_StartedAt r"
    "j_CompletedAt r' = j_CompletedAt r" "j_CreatedAt r' = j_CreatedAt r" "j_DeletedAt r' = j_DeletedAt r"
proof -
  from assms obtain t where r': "r' = r\<lparr>j_UpdatedAt := t\<rparr>" unfolding job_tracked_def by blast
  show "j_ID r' = j_ID r" "j_UserID r' = j_UserID r" "j_Type r' = j_Type r" "j_Payload r' = j_Payload r"
    "j_Status r' = j_Status r" "j_Priority r' = j_Priority r" "j_WorkerID r' = j_WorkerID r"
    "j_Attempts r' = j_Attempts r" "j_MaxRetries r' = j_MaxRetries r" "j_ErrorMsg r' = j_ErrorMsg r"
    "j_ScheduledAt r' = j_ScheduledAt r" "j_QueuedAt r' = j_QueuedAt r" "j_StartedAt r' = j_StartedAt r"
    "j_CompletedAt r' = j_CompletedAt r" "j_CreatedAt r' = j_CreatedAt r" "j_DeletedAt r' = j_DeletedAt r"
    by (simp_all add: r')
qed

lemma gorm_err_simps [simp]:
  "gorm_err (db, Inl e) = (db, Some e)" "gorm_err (db, Inr x) = (db, None)"
  by (simp_all add: gorm_err_def)

lemma gorm_errE:
  assumes "gorm_err r = (db', e)"
  obtains n where "r = (db', Inr n)" "e = None" | x where "r = (db', Inl x)" "e = Some x"
  using assms by (cases r; cases "snd r") auto

section \<open>The contract of the repository\<close>

text \<open>The laws of the \<^verbatim>\<open>jobs\<close> table and what the repository methods guarantee under them.\<close>

locale jobs_store = gorm_soft_delete g tbl j_ID job_live job_filled job_tracked job_marked
  for g :: "('db, Job) gorm" and tbl :: "'db \<Rightarrow> string \<Rightarrow> Job option"
begin

lemma CreateJob_Inr:
  assumes "CreateJob g job db = (db', Inr j)"
  shows "job_filled job j \<and> tbl db (j_ID j) = None \<and> tbl db' = (tbl db)(j_ID j \<mapsto> j)"
  using assms by (auto simp: CreateJob_def split: prod.splits sum.splits list.splits dest!: create_one)

lemma CreateJob_Inl: "CreateJob g job db = (db', Inl e) \<Longrightarrow> tbl db' = tbl db"
  by (auto simp: CreateJob_def split: prod.splits sum.splits dest: create_Inl)

lemma GetJobByID_frame: "GetJobByID g i db = (db', r) \<Longrightarrow> tbl db' = tbl db"
  by (auto simp: GetJobByID_def dest: take_tbl)

lemma GetJobByID_Inr: "GetJobByID g i db = (db', Inr j) \<Longrightarrow> tbl db i = Some j \<and> job_live j \<and> j_ID j = i"
  by (auto simp: GetJobByID_def dest: take_Inr)

lemma GetJobByID_not_found:
  "GetJobByID g i db = (db', Inl ErrRecordNotFound) \<Longrightarrow> tbl db i = Some j \<Longrightarrow> \<not> job_live j"
  using take_not_found [of db _ db' i j] key_tbl [of db i j] by (auto simp: GetJobByID_def)

lemma GetAllJobs_Inr:
  "GetAllJobs g u db = (db', Inr js) \<Longrightarrow>
     distinct (map j_ID js) \<and> (\<forall>j. j \<in> set js \<longleftrightarrow> tbl db (j_ID j) = Some j \<and> job_live j \<and> j_UserID j = u)"
  by (auto simp: GetAllJobs_def dest: find_Inr)

lemma UpdateJob_other: "UpdateJob g i j db = (db', r) \<Longrightarrow> k \<noteq> i \<Longrightarrow> tbl db' k = tbl db k"
  using updates_frame [of db _ _ db' _ k] key_tbl [of db k]
  by (auto simp: UpdateJob_def split: prod.splits sum.splits)

lemma UpdateJob_Inr:
  assumes "UpdateJob g i j db = (db', Inr j')" and "tbl db i = Some r" and "job_live r" and "j_ID j = i"
  shows "j' = j \<and> (\<exists>r'. tbl db' i = Some r' \<and> job_tracked (job_nonzero_update j r) r')"
proof -
  have "j_ID r = i" using assms(2) by (rule key_tbl)
  moreover have "j_ID (job_nonzero_update j r) = i"
    using assms(4) \<open>j_ID r = i\<close> by (simp add: nz_def)
  ultimately show ?thesis
    using assms updates_hit [of db "\<lambda>j. j_ID j = i" "job_nonzero_update j" db' _ i r]
    by (auto simp: UpdateJob_def split: prod.splits sum.splits)
qed

lemma UpdateJob_Inl: "UpdateJob g i j db = (db', Inl e) \<Longrightarrow> tbl db' = tbl db"
  by (auto simp: UpdateJob_def split: prod.splits sum.splits dest: updates_Inl)

lemma DeleteJob_other: "DeleteJob g i db = (db', r) \<Longrightarrow> k \<noteq> i \<Longrightarrow> tbl db' k = tbl db k"
  using delete_frame [of db _ db' _ k] key_tbl [of db k] by (auto simp: DeleteJob_def elim!: gorm_errE)

lemma DeleteJob_None:
  "DeleteJob g i db = (db', None) \<Longrightarrow> tbl db i = Some r \<Longrightarrow> job_live r \<Longrightarrow>
     \<exists>r'. tbl db' i = Some r' \<and> job_marked r r'"
  using delete_hit [of db _ db' _ i r] key_tbl [of db i r] by (auto simp: DeleteJob_def elim!: gorm_errE)

lemma DeleteJob_Some: "DeleteJob g i db = (db', Some e) \<Longrightarrow> tbl db' = tbl db"
  by (auto simp: DeleteJob_def elim!: gorm_errE dest: delete_Inl)

lemma MarkQueued_other: "MarkQueued g i t db = (db', r) \<Longrightarrow> k \<noteq> i \<Longrightarrow> tbl db' k = tbl db k"
  using updates_frame [of db _ _ db' _ k] key_tbl [of db k] by (auto simp: MarkQueued_def elim!: gorm_errE)

lemma MarkQueued_Some: "MarkQueued g i t db = (db', Some e) \<Longrightarrow> tbl db' = tbl db"
  by (auto simp: MarkQueued_def elim!: gorm_errE dest: updates_Inl)

lemma MarkQueued_None:
  assumes "MarkQueued g i t db = (db', None)" and "tbl db i = Some r" and "job_live r"
  shows "\<exists>r'. tbl db' i = Some r' \<and> job_tracked (r\<lparr>j_QueuedAt := Some t\<rparr>) r'"
proof -
  have "j_ID r = i" using assms(2) by (rule key_tbl)
  with assms show ?thesis
    using updates_hit [of db "\<lambda>j. j_ID j = i" "\<lambda>j. j\<lparr>j_QueuedAt := Some t\<rparr>" db' _ i r]
    by (auto simp: MarkQueued_def elim!: gorm_errE)
qed

lemma GetUnqueuedPendingJobs_frame: "GetUnqueuedPendingJobs g t db = (db', r) \<Longrightarrow> tbl db' = tbl db"
  by (auto simp: GetUnqueuedPendingJobs_def dest: find_tbl)

lemma GetUnqueuedPendingJobs_Inr:
  "GetUnqueuedPendingJobs g t db = (db', Inr js) \<Longrightarrow> distinct (map j_ID js)
     \<and> (\<forall>j. j \<in> set js \<longleftrightarrow> tbl db (j_ID j) = Some j \<and> job_live j \<and> unqueued_pending t j)"
  by (auto simp: GetUnqueuedPendingJobs_def dest: find_Inr)

end

section \<open>The jobs table in the reference store\<close>

fun fresh_id :: "nat \<Rightarrow> string" where
  "fresh_id n = ''id-'' @ replicate n CHR ''i''"

definition mem_jobs :: "(Job mem_db, Job) gorm" where
  "mem_jobs = mem_gorm j_ID job_live (\<lambda>n. job_defaults (fresh_id n) 0 0 0) (\<lambda>j. Some (j\<lparr>j_DeletedAt := Some 0\<rparr>))"

interpretation mem_jobs: jobs_store mem_jobs "mem_tbl j_ID"
  unfolding mem_jobs_def jobs_store_def
  by (rule mem_gorm_soft_delete [where dead = "\<lambda>j. j\<lparr>j_DeletedAt := Some 0\<rparr>"])
     (auto simp: job_filled_def job_tracked_def job_marked_def job_live_def)

definition no_jobs :: "Job mem_db" where
  "no_jobs = \<lparr>mem_rows = [], mem_faults = [], mem_supply = 0\<rparr>"

end
