(* ===== verification/Rabbitmq.thy ===== *)
theory Rabbitmq
  imports Jobflow_Prelude
begin

text \<open>
  Package \<^verbatim>\<open>internal/rabbitmq\<close> without the consumer: the queue configuration and its declaration
  (\<^verbatim>\<open>queues.go\<close>, \<^verbatim>\<open>declareQueue.go\<close>), the connection with its retries (\<^verbatim>\<open>rabbitmqConnection.go\<close>) and the
  two publish calls with publisher confirms (\<^verbatim>\<open>publisher.go\<close>).

  The AMQP client library and the broker are parameters: a record of the client calls on an abstract
  state. Two locales say what the code relies on: \<open>amqp_confirms\<close> (confirmations arrive in the order of
  the publishes on the channel, and an acknowledged message is in the broker's hands) and
  \<open>amqp_topology\<close> (a successful declaration is in force).
\<close>

section \<open>The client library\<close>

datatype amqp_arg = ArgString string | ArgInt int

type_synonym amqp_table = "string \<rightharpoonup> amqp_arg"

record amqp_publishing =
  pub_ContentType :: string
  pub_DeliveryMode :: nat
  pub_MessageId :: string
  pub_Headers :: amqp_table
  pub_Body :: string

type_synonym delivery = "string \<times> string \<times> amqp_publishing"

text \<open>How the \<^verbatim>\<open>select\<close> on the confirmation channel and the context ends.\<close>

datatype confirm_wait = ConfirmClosed | Confirmed bool | CtxDone string

record 'mq amqp =
  amqp_Dial :: "string \<Rightarrow> 'mq \<Rightarrow> 'mq \<times> string option"
  conn_Channel :: "'mq \<Rightarrow> 'mq \<times> string option"
  ch_ConfirmMode :: "'mq \<Rightarrow> 'mq \<times> string option"
  ch_Close :: "'mq \<Rightarrow> 'mq \<times> string option"
  conn_Close :: "'mq \<Rightarrow> 'mq \<times> string option"
  uuid_NewString :: "'mq \<Rightarrow> 'mq \<times> string"
  ch_Publish :: "string \<Rightarrow> string \<Rightarrow> amqp_publishing \<Rightarrow> 'mq \<Rightarrow> 'mq \<times> string option"
  ch_AwaitConfirm :: "'mq \<Rightarrow> 'mq \<times> confirm_wait"
  ch_QueueDeclare :: "string \<Rightarrow> bool \<Rightarrow> bool \<Rightarrow> bool \<Rightarrow> amqp_table \<Rightarrow> 'mq \<Rightarrow> 'mq \<times> string option"
  ch_ExchangeDeclare :: "string \<Rightarrow> string \<Rightarrow> bool \<Rightarrow> amqp_table \<Rightarrow> 'mq \<Rightarrow> 'mq \<times> string option"
  ch_QueueBind :: "string \<Rightarrow> string \<Rightarrow> string \<Rightarrow> 'mq \<Rightarrow> 'mq \<times> string option"
  ch_Qos :: "nat \<Rightarrow> 'mq \<Rightarrow> 'mq \<times> string option"
  ch_Consume :: "string \<Rightarrow> 'mq \<Rightarrow> 'mq \<times> string option"

definition amqp_Persistent :: nat where "amqp_Persistent = 2"
definition QueueTypeArg :: string where "QueueTypeArg = ''x-queue-type''"
definition QueueTypeQuorum :: string where "QueueTypeQuorum = ''quorum''"

section \<open>Queues\<close>

definition QueueJobs :: string where "QueueJobs = ''jobs''"
definition QueueSMS :: string where "QueueSMS = ''sms''"
definition QueuePushNotification :: string where "QueuePushNotification = ''pushNotification''"
definition QueueReportGeneration :: string where "QueueReportGeneration = ''reportGeneration''"
definition ExchangeJobsDelayed :: string where "ExchangeJobsDelayed = QueueJobs @ ''.delayed''"

record QueueConfig =
  qc_Name :: string
  qc_Durable :: bool
  qc_AutoDelete :: bool
  qc_Exclusive :: bool
  qc_Type :: string
  qc_DLXName :: string
  qc_MessageTTL :: int
  qc_UseDelayedExchange :: bool

definition DefaultQueueConfig :: "string \<Rightarrow> QueueConfig" where
  "DefaultQueueConfig name =
     \<lparr>qc_Name = name, qc_Durable = True, qc_AutoDelete = False, qc_Exclusive = False,
      qc_Type = QueueTypeQuorum, qc_DLXName = '''', qc_MessageTTL = 0, qc_UseDelayedExchange = False\<rparr>"

definition AppQueues :: "QueueConfig list" where
  "AppQueues =
     [DefaultQueueConfig QueueSMS,
      DefaultQueueConfig QueuePushNotification,
      DefaultQueueConfig QueueReportGeneration,
      \<lparr>qc_Name = QueueJobs, qc_Durable = True, qc_AutoDelete = False, qc_Exclusive = False,
       qc_Type = ''classic'', qc_DLXName = '''', qc_MessageTTL = 0, qc_UseDelayedExchange = True\<rparr>]"

datatype declare_error =
    DeclareQueueError string string
  | DeclareExchangeError string string
  | BindQueueError string string string

definition queue_args :: "QueueConfig \<Rightarrow> amqp_table" where
  "queue_args cfg =
     (let args = [QueueTypeArg \<mapsto> ArgString (qc_Type cfg)];
          args = (if qc_DLXName cfg \<noteq> '''' then args(''x-dead-letter-exchange'' \<mapsto> ArgString (qc_DLXName cfg)) else args)
      in if qc_MessageTTL cfg > 0 then args(''x-message-ttl'' \<mapsto> ArgInt (qc_MessageTTL cfg)) else args)"

definition DeclareQueue :: "'mq amqp \<Rightarrow> QueueConfig \<Rightarrow> 'mq \<Rightarrow> 'mq \<times> declare_error option" where
  "DeclareQueue a cfg mq =
     (case ch_QueueDeclare a (qc_Name cfg) (qc_Durable cfg) (qc_AutoDelete cfg) (qc_Exclusive cfg)
             (queue_args cfg) mq of
        (mq', Some e) \<Rightarrow> (mq', Some (DeclareQueueError (qc_Name cfg) e))
      | (mq', None) \<Rightarrow> (mq', None))"

definition delayedExchange :: "string \<Rightarrow> string" where
  "delayedExchange queueName = queueName @ ''.delayed''"

definition DeclareDelayedExchange :: "'mq amqp \<Rightarrow> string \<Rightarrow> 'mq \<Rightarrow> 'mq \<times> declare_error option" where
  "DeclareDelayedExchange a queueName mq =
     (let exchangeName = delayedExchange queueName in
      case ch_ExchangeDeclare a exchangeName ''x-delayed-message'' True [''x-delayed-type'' \<mapsto> ArgString ''direct''] mq of
        (mq', Some e) \<Rightarrow> (mq', Some (DeclareExchangeError exchangeName e))
      | (mq', None) \<Rightarrow>
          (case ch_QueueBind a queueName queueName exchangeName mq' of
             (mq'', Some e) \<Rightarrow> (mq'', Some (BindQueueError queueName exchangeName e))
           | (mq'', None) \<Rightarrow> (mq'', None)))"

fun InitializeQueues :: "'mq amqp \<Rightarrow> QueueConfig list \<Rightarrow> 'mq \<Rightarrow> 'mq \<times> declare_error option" where
  "InitializeQueues a [] mq = (mq, None)"
| "InitializeQueues a (cfg # cfgs) mq =
     (case DeclareQueue a cfg mq of
        (mq', Some e) \<Rightarrow> (mq', Some e)
      | (mq', None) \<Rightarrow>
          (if qc_UseDelayedExchange cfg
           then (case DeclareDelayedExchange a (qc_Name cfg) mq' of
                   (mq'', Some e) \<Rightarrow> (mq'', Some e)
                 | (mq'', None) \<Rightarrow> InitializeQueues a cfgs mq'')
           else InitializeQueues a cfgs mq'))"

section \<open>Connecting\<close>

definition connectMaxAttempts :: nat where "connectMaxAttempts = 30"
definition connectRetryDelay :: duration where "connectRetryDelay = 2 * Second"

text \<open>
  The dial loop with \<open>n\<close> attempts left: the error of the last dial (\<open>None\<close> after a success) and the
  time slept. A \<^verbatim>\<open>log.Fatalf\<close> ends the process: \<open>Inl\<close> with its message.
\<close>

fun dial_loop :: "'mq amqp \<Rightarrow> string \<Rightarrow> nat \<Rightarrow> string option \<Rightarrow> 'mq \<Rightarrow> 'mq \<times> string option \<times> duration" where
  "dial_loop a url 0 err mq = (mq, err, 0)"
| "dial_loop a url (Suc n) err mq =
     (case amqp_Dial a url mq of
        (mq', None) \<Rightarrow> (mq', None, 0)
      | (mq', Some e) \<Rightarrow>
          (let (mq'', err', slept) = dial_loop a url n (Some e) mq' in (mq'', err', connectRetryDelay + slept)))"

datatype connect_failure = ConnectFatal string | ChannelFatal string | ConfirmFatal string

definition NewRabbitMQConnection :: "'mq amqp \<Rightarrow> string \<Rightarrow> 'mq \<Rightarrow> 'mq \<times> connect_failure option \<times> duration" where
  "NewRabbitMQConnection a url mq =
     (case dial_loop a url connectMaxAttempts None mq of
        (mq', Some e, slept) \<Rightarrow> (mq', Some (ConnectFatal e), slept)
      | (mq', None, slept) \<Rightarrow>
          (case conn_Channel a mq' of
             (mq'', Some e) \<Rightarrow> (mq'', Some (ChannelFatal e), slept)
           | (mq'', None) \<Rightarrow>
               (case ch_ConfirmMode a mq'' of
                  (mq3, Some e) \<Rightarrow> (mq3, Some (ConfirmFatal e), slept)
                | (mq3, None) \<Rightarrow> (mq3, None, slept))))"

definition close :: "'mq amqp \<Rightarrow> bool \<Rightarrow> bool \<Rightarrow> 'mq \<Rightarrow> 'mq" where
  \<comment> \<open>the flags say whether the \<^verbatim>\<open>Channel\<close> and \<^verbatim>\<open>Conn\<close> fields are non-nil; errors are only logged\<close>
  "close a hasChannel hasConn mq =
     (let mq' = (if hasChannel then fst (ch_Close a mq) else mq)
      in if hasConn then fst (conn_Close a mq') else mq')"

section \<open>Publishing\<close>

datatype publish_error =
    PublishError string string
  | ConfirmChannelClosed string
  | BrokerNacked string
  | PublishCtxDone string string

text \<open>The wait for the broker's verdict, shared by both calls.\<close>

definition await_confirm :: "'mq amqp \<Rightarrow> string \<Rightarrow> 'mq \<Rightarrow> 'mq \<times> publish_error option" where
  "await_confirm a target mq =
     (case ch_AwaitConfirm a mq of
        (mq', ConfirmClosed) \<Rightarrow> (mq', Some (ConfirmChannelClosed target))
      | (mq', Confirmed ack) \<Rightarrow> (mq', if ack then None else Some (BrokerNacked target))
      | (mq', CtxDone e) \<Rightarrow> (mq', Some (PublishCtxDone target e)))"

definition json_publishing :: "string \<Rightarrow> amqp_table \<Rightarrow> string \<Rightarrow> amqp_publishing" where
  "json_publishing mid headers body =
     \<lparr>pub_ContentType = ''application/json'', pub_DeliveryMode = amqp_Persistent,
      pub_MessageId = mid, pub_Headers = headers, pub_Body = body\<rparr>"

definition Publish :: "'mq amqp \<Rightarrow> string \<Rightarrow> string \<Rightarrow> 'mq \<Rightarrow> 'mq \<times> publish_error option" where
  "Publish a queue body mq =
     (case uuid_NewString a mq of (mq1, mid) \<Rightarrow>
       (case ch_Publish a '''' queue (json_publishing mid Map.empty body) mq1 of
          (mq2, Some e) \<Rightarrow> (mq2, Some (PublishError queue e))
        | (mq2, None) \<Rightarrow> await_confirm a queue mq2))"

definition xdelay :: "duration \<Rightarrow> int" where
  "xdelay delay = (let delayMs = dur_Milliseconds delay in if delayMs < 0 then 0 else delayMs)"

definition PublishDelayed :: "'mq amqp \<Rightarrow> string \<Rightarrow> string \<Rightarrow> duration \<Rightarrow> 'mq \<Rightarrow> 'mq \<times> publish_error option" where
  "PublishDelayed a queue body delay mq =
     (let delayMs = xdelay delay; exchangeName = delayedExchange queue in
      case uuid_NewString a mq of (mq1, mid) \<Rightarrow>
       (case ch_Publish a exchangeName queue (json_publishing mid [''x-delay'' \<mapsto> ArgInt delayMs] body) mq1 of
          (mq2, Some e) \<Rightarrow> (mq2, Some (PublishError exchangeName e))
        | (mq2, None) \<Rightarrow> await_confirm a exchangeName mq2))"

section \<open>Publisher confirms\<close>

text \<open>
  \<open>sent\<close> lists the messages published on the channel, in order (their delivery tags are 1, 2, ...),
  \<open>seen\<close> counts the confirmations the program has received, \<open>accepted\<close> is the set of messages the
  broker has taken responsibility for. The client library hands over confirmations in tag order.
\<close>

locale amqp_confirms =
  fixes a :: "'mq amqp"
    and sent :: "'mq \<Rightarrow> delivery list"
    and seen :: "'mq \<Rightarrow> nat"
    and accepted :: "'mq \<Rightarrow> delivery set"
  assumes uuid_frame: "uuid_NewString a mq = (mq', mid) \<Longrightarrow>
        sent mq' = sent mq \<and> seen mq' = seen mq \<and> accepted mq \<subseteq> accepted mq'"
    and publish_ok: "ch_Publish a ex rk p mq = (mq', None) \<Longrightarrow>
        sent mq' = sent mq @ [(ex, rk, p)] \<and> seen mq' = seen mq \<and> accepted mq \<subseteq> accepted mq'"
    and publish_err: "ch_Publish a ex rk p mq = (mq', Some e) \<Longrightarrow>
        sent mq' = sent mq \<and> seen mq' = seen mq \<and> accepted mq \<subseteq> accepted mq'"
    and confirm_sent: "ch_AwaitConfirm a mq = (mq', w) \<Longrightarrow>
        sent mq' = sent mq \<and> accepted mq \<subseteq> accepted mq'"
    and confirm_seen: "ch_AwaitConfirm a mq = (mq', Confirmed ack) \<Longrightarrow>
        seen mq < length (sent mq) \<and> seen mq' = Suc (seen mq)"
    and confirm_ack: "ch_AwaitConfirm a mq = (mq', Confirmed True) \<Longrightarrow>
        sent mq ! seen mq \<in> accepted mq'"
    and confirm_other: "ch_AwaitConfirm a mq = (mq', w) \<Longrightarrow> (\<And>ack. w \<noteq> Confirmed ack) \<Longrightarrow>
        seen mq' = seen mq"
begin

text \<open>Confirmations still due on the channel.\<close>

definition lag :: "'mq \<Rightarrow> nat" where
  "lag mq = length (sent mq) - seen mq"

definition consistent :: "'mq \<Rightarrow> bool" where
  "consistent mq \<longleftrightarrow> seen mq \<le> length (sent mq)"

lemma sync_iff: "consistent mq \<Longrightarrow> lag mq = 0 \<longleftrightarrow> seen mq = length (sent mq)"
  by (auto simp: lag_def consistent_def)

lemma sync_consistent: "seen mq = length (sent mq) \<Longrightarrow> consistent mq"
  by (simp add: consistent_def)

lemma await_confirm_frame:
  assumes "await_confirm a t mq = (mq', r)"
  shows "sent mq' = sent mq" and "accepted mq \<subseteq> accepted mq'"
  using assms confirm_sent [of mq]
  by (auto simp: await_confirm_def split: prod.splits confirm_wait.splits)

lemma await_confirm_None:
  assumes "await_confirm a t mq = (mq', None)"
  shows "seen mq < length (sent mq) \<and> seen mq' = Suc (seen mq) \<and> sent mq ! seen mq \<in> accepted mq'"
  using assms confirm_seen [of mq] confirm_ack [of mq]
  by (auto simp: await_confirm_def split: prod.splits confirm_wait.splits if_splits)

lemma await_confirm_nacked:
  assumes "await_confirm a t mq = (mq', Some (BrokerNacked u))"
  shows "seen mq < length (sent mq) \<and> seen mq' = Suc (seen mq)"
  using assms confirm_seen [of mq]
  by (auto simp: await_confirm_def split: prod.splits confirm_wait.splits if_splits)

lemma await_confirm_other:
  assumes "await_confirm a t mq = (mq', Some e)" and "\<And>u. e \<noteq> BrokerNacked u"
  shows "seen mq' = seen mq"
  using assms confirm_other [of mq]
  by (auto simp: await_confirm_def split: prod.splits confirm_wait.splits if_splits)

text \<open>
  The shape of a delayed publish: nothing was sent, or exactly one message was appended and the
  verdict read afterwards is for the message number \<open>seen\<close>, which is the message just sent when no
  confirmation was due before.
\<close>

lemma PublishDelayed_cases:
  assumes "PublishDelayed a q body d mq = (mq', r)"
  obtains (unsent) e where "r = Some (PublishError (delayedExchange q) e)"
      "sent mq' = sent mq" "seen mq' = seen mq" "accepted mq \<subseteq> accepted mq'"
  | (sent) mid mq2 where
      "await_confirm a (delayedExchange q) mq2 = (mq', r)"
      "sent mq2 = sent mq @ [(delayedExchange q, q, json_publishing mid [''x-delay'' \<mapsto> ArgInt (xdelay d)] body)]"
      "seen mq2 = seen mq" "accepted mq \<subseteq> accepted mq2"
proof -
  obtain mq1 mid where u: "uuid_NewString a mq = (mq1, mid)" by (cases "uuid_NewString a mq")
  let ?p = "json_publishing mid [''x-delay'' \<mapsto> ArgInt (xdelay d)] body"
  obtain mq2 e where p: "ch_Publish a (delayedExchange q) q ?p mq1 = (mq2, e)"
    by (cases "ch_Publish a (delayedExchange q) q ?p mq1")
  show thesis
  proof (cases e)
    case None
    note p' = publish_ok [OF p [unfolded None]]
    show thesis
      by (rule sent [of mq2 mid])
         (use assms u p p' None uuid_frame [OF u] in \<open>auto simp: PublishDelayed_def\<close>)
  next
    case (Some x)
    note p' = publish_err [OF p [unfolded Some]]
    show thesis
      by (rule unsent [of x])
         (use assms u p p' Some uuid_frame [OF u] in \<open>auto simp: PublishDelayed_def\<close>)
  qed
qed

lemma PublishDelayed_mono: "PublishDelayed a q body d mq = (mq', r) \<Longrightarrow> accepted mq \<subseteq> accepted mq'"
  by (erule PublishDelayed_cases) (auto dest: await_confirm_frame(2))

lemma PublishDelayed_ok:
  assumes "PublishDelayed a q body d mq = (mq', None)" and "lag mq = 0" and "consistent mq"
  shows "lag mq' = 0 \<and> consistent mq' \<and>
    (\<exists>mid. (delayedExchange q, q, json_publishing mid [''x-delay'' \<mapsto> ArgInt (xdelay d)] body) \<in> accepted mq')"
  using assms(1)
proof (cases rule: PublishDelayed_cases)
  case (sent mid mq2)
  have "seen mq = length (sent mq)" using assms(2,3) by (simp add: lag_def consistent_def)
  with sent(2,3) await_confirm_None [OF sent(1)] await_confirm_frame(1) [OF sent(1)] show ?thesis
    by (auto simp: lag_def consistent_def)
qed simp

lemma PublishDelayed_lag:
  assumes "PublishDelayed a q body d mq = (mq', r)" and "consistent mq"
  shows "consistent mq' \<and> lag mq' = (case r of
      None \<Rightarrow> lag mq
    | Some (PublishError _ _) \<Rightarrow> lag mq
    | Some (BrokerNacked _) \<Rightarrow> lag mq
    | Some _ \<Rightarrow> Suc (lag mq))"
  using assms(1)
proof (cases rule: PublishDelayed_cases)
  case (sent mid mq2)
  note frame = await_confirm_frame(1) [OF sent(1)]
  show ?thesis
  proof (cases r)
    case None
    with sent frame assms(2) await_confirm_None [of _ mq2 mq'] show ?thesis
      by (auto simp: lag_def consistent_def)
  next
    case (Some e)
    with sent frame assms(2) await_confirm_nacked [of _ mq2 mq'] await_confirm_other [of _ mq2 mq' e]
    show ?thesis
      by (cases e) (auto simp: lag_def consistent_def await_confirm_def split: prod.splits confirm_wait.splits if_splits)
  qed
qed (use assms(2) in \<open>auto simp: lag_def consistent_def\<close>)

lemma PublishDelayed_sync:
  assumes "seen mq = length (sent mq)" and "PublishDelayed a q body d mq = (mq', r)"
  shows "(r = None \<longrightarrow> (\<exists>mid. (delayedExchange q, q, json_publishing mid [''x-delay'' \<mapsto> ArgInt (xdelay d)] body)
            \<in> accepted mq') \<and> seen mq' = length (sent mq'))
    \<and> (\<forall>x e. r = Some (BrokerNacked x) \<or> r = Some (PublishError x e) \<longrightarrow> seen mq' = length (sent mq'))
    \<and> (\<forall>x e. r = Some (PublishCtxDone x e) \<longrightarrow> length (sent mq') = Suc (seen mq'))"
proof -
  have sync: "lag mq = 0" "consistent mq" using assms(1) by (simp_all add: lag_def consistent_def)
  have ok: "\<exists>mid. (delayedExchange q, q, json_publishing mid [''x-delay'' \<mapsto> ArgInt (xdelay d)] body) \<in> accepted mq'"
    if "r = None" using PublishDelayed_ok [OF _ sync] assms(2) that by blast
  show ?thesis using ok PublishDelayed_lag [OF assms(2) sync(2)] sync(1)
    by (auto simp: lag_def consistent_def)
qed

text \<open>With confirmations due, a success vouches for the oldest unconfirmed message only.\<close>

lemma PublishDelayed_ok_oldest:
  assumes "PublishDelayed a q body d mq = (mq', None)" and "0 < lag mq"
  shows "sent mq ! seen mq \<in> accepted mq'"
  using assms(1)
proof (cases rule: PublishDelayed_cases)
  case (sent mid mq2)
  with assms(2) await_confirm_None [OF sent(1)] show ?thesis
    by (simp add: lag_def nth_append split: if_splits)
qed simp

end

section \<open>Topology\<close>

definition insert_if :: "bool \<Rightarrow> 'x \<Rightarrow> 'x set \<Rightarrow> 'x set" where
  "insert_if c x A = (if c then insert x A else A)"

text \<open>A successful declaration is in force, and no later one withdraws it.\<close>

locale amqp_topology =
  fixes a :: "'mq amqp"
    and queues :: "'mq \<Rightarrow> (string \<times> bool \<times> amqp_table) set"
    and exchanges :: "'mq \<Rightarrow> (string \<times> string) set"
    and bindings :: "'mq \<Rightarrow> (string \<times> string \<times> string) set"
  assumes qdeclare: "ch_QueueDeclare a q du ad excl args mq = (mq', r) \<Longrightarrow>
        insert_if (r = None) (q, du, args) (queues mq) \<subseteq> queues mq' \<and>
        exchanges mq \<subseteq> exchanges mq' \<and> bindings mq \<subseteq> bindings mq'"
    and edeclare: "ch_ExchangeDeclare a x kind du xargs mq = (mq', r) \<Longrightarrow>
        queues mq \<subseteq> queues mq' \<and>
        insert_if (r = None) (x, kind) (exchanges mq) \<subseteq> exchanges mq' \<and> bindings mq \<subseteq> bindings mq'"
    and qbind: "ch_QueueBind a q rk x mq = (mq', r) \<Longrightarrow>
        queues mq \<subseteq> queues mq' \<and> exchanges mq \<subseteq> exchanges mq' \<and>
        insert_if (r = None) (q, rk, x) (bindings mq) \<subseteq> bindings mq'"
begin

abbreviation grows :: "'mq \<Rightarrow> 'mq \<Rightarrow> bool" where
  "grows mq mq' \<equiv> queues mq \<subseteq> queues mq' \<and> exchanges mq \<subseteq> exchanges mq' \<and> bindings mq \<subseteq> bindings mq'"

lemma DeclareQueue_topology:
  assumes "DeclareQueue a cfg mq = (mq', r)"
  shows "grows mq mq' \<and> (r = None \<longrightarrow> (qc_Name cfg, qc_Durable cfg, queue_args cfg) \<in> queues mq')"
  using assms
  by (auto simp: DeclareQueue_def insert_if_def split: prod.splits option.splits if_splits dest!: qdeclare)

lemma DeclareDelayedExchange_topology:
  assumes "DeclareDelayedExchange a q mq = (mq', r)"
  shows "grows mq mq' \<and> (r = None \<longrightarrow> (delayedExchange q, ''x-delayed-message'') \<in> exchanges mq'
    \<and> (q, q, delayedExchange q) \<in> bindings mq')"
  using assms
  by (auto simp: DeclareDelayedExchange_def insert_if_def Let_def
      split: prod.splits option.splits if_splits dest!: edeclare qbind) (blast+)

lemma InitializeQueues_topology:
  assumes "InitializeQueues a cfgs mq = (mq', r)"
  shows "grows mq mq' \<and> (r = None \<longrightarrow> (\<forall>cfg\<in>set cfgs.
      (qc_Name cfg, qc_Durable cfg, queue_args cfg) \<in> queues mq'
    \<and> (qc_UseDelayedExchange cfg \<longrightarrow>
         (delayedExchange (qc_Name cfg), ''x-delayed-message'') \<in> exchanges mq'
       \<and> (qc_Name cfg, qc_Name cfg, delayedExchange (qc_Name cfg)) \<in> bindings mq')))"
  using assms
proof (induction cfgs arbitrary: mq)
  case (Cons cfg cfgs)
  obtain mq1 r1 where q: "DeclareQueue a cfg mq = (mq1, r1)" by (cases "DeclareQueue a cfg mq")
  obtain mq2 r2 where x: "DeclareDelayedExchange a (qc_Name cfg) mq1 = (mq2, r2)"
    by (cases "DeclareDelayedExchange a (qc_Name cfg) mq1")
  note step = DeclareQueue_topology [OF q] DeclareDelayedExchange_topology [OF x]
  show ?case
  proof (cases "r1 = None \<and> (qc_UseDelayedExchange cfg \<longrightarrow> r2 = None)")
    case True
    let ?m = "if qc_UseDelayedExchange cfg then mq2 else mq1"
    from True Cons.prems q x have "InitializeQueues a cfgs ?m = (mq', r)"
      by (auto split: if_splits)
    from Cons.IH [OF this] step True show ?thesis by (auto split: if_splits)
  next
    case False
    with Cons.prems q x have "r \<noteq> None" and "mq' = mq1 \<or> mq' = mq2"
      by (auto split: option.splits if_splits)
    with step show ?thesis by blast
  qed
qed simp

end

section \<open>A reference broker\<close>

text \<open>
  A broker that keeps what was published and declared. \<open>rb_nacked\<close> lists the numbers of the messages it
  refuses, \<open>rb_waits\<close> scripts how the coming waits end (a confirmation is read by default),
  \<open>rb_failures\<close> how many of the coming client calls fail.
\<close>

datatype wait_script = WaitConfirm | WaitTimeout | WaitClosed

record ref_broker =
  rb_sent :: "delivery list"
  rb_seen :: nat
  rb_nacked :: "nat list"
  rb_waits :: "wait_script list"
  rb_failures :: nat
  rb_queues :: "(string \<times> bool \<times> amqp_table) list"
  rb_exchanges :: "(string \<times> string) list"
  rb_bindings :: "(string \<times> string \<times> string) list"

definition rb_init :: ref_broker where
  "rb_init = \<lparr>rb_sent = [], rb_seen = 0, rb_nacked = [], rb_waits = [], rb_failures = 0,
     rb_queues = [], rb_exchanges = [], rb_bindings = []\<rparr>"

definition rb_accepted :: "ref_broker \<Rightarrow> delivery set" where
  "rb_accepted b = {rb_sent b ! i | i. i < length (rb_sent b) \<and> i \<notin> set (rb_nacked b)}"

definition rb_call :: "(ref_broker \<Rightarrow> ref_broker) \<Rightarrow> ref_broker \<Rightarrow> ref_broker \<times> string option" where
  "rb_call f b = (if rb_failures b = 0 then (f b, None)
     else (b\<lparr>rb_failures := rb_failures b - 1\<rparr>, Some ''connection lost''))"

definition rb_receive :: "ref_broker \<Rightarrow> ref_broker \<times> confirm_wait" where
  "rb_receive b = (if rb_seen b < length (rb_sent b)
     then (b\<lparr>rb_seen := Suc (rb_seen b)\<rparr>, Confirmed (rb_seen b \<notin> set (rb_nacked b)))
     else (b, ConfirmClosed))"

definition rb_await :: "ref_broker \<Rightarrow> ref_broker \<times> confirm_wait" where
  "rb_await b = (case rb_waits b of
       [] \<Rightarrow> rb_receive b
     | WaitConfirm # ws \<Rightarrow> rb_receive (b\<lparr>rb_waits := ws\<rparr>)
     | WaitTimeout # ws \<Rightarrow> (b\<lparr>rb_waits := ws\<rparr>, CtxDone ''context deadline exceeded'')
     | WaitClosed # ws \<Rightarrow> (b\<lparr>rb_waits := ws\<rparr>, ConfirmClosed))"

definition ref_amqp :: "ref_broker amqp" where
  "ref_amqp =
     \<lparr>amqp_Dial = (\<lambda>url. rb_call id), conn_Channel = rb_call id, ch_ConfirmMode = rb_call id,
      ch_Close = rb_call id, conn_Close = rb_call id, uuid_NewString = (\<lambda>b. (b, ''message-id'')),
      ch_Publish = (\<lambda>ex rk p. rb_call (\<lambda>b. b\<lparr>rb_sent := rb_sent b @ [(ex, rk, p)]\<rparr>)),
      ch_AwaitConfirm = rb_await,
      ch_QueueDeclare = (\<lambda>q du ad excl args. rb_call (\<lambda>b. b\<lparr>rb_queues := (q, du, args) # rb_queues b\<rparr>)),
      ch_ExchangeDeclare = (\<lambda>x kind du args. rb_call (\<lambda>b. b\<lparr>rb_exchanges := (x, kind) # rb_exchanges b\<rparr>)),
      ch_QueueBind = (\<lambda>q rk x. rb_call (\<lambda>b. b\<lparr>rb_bindings := (q, rk, x) # rb_bindings b\<rparr>)),
      ch_Qos = (\<lambda>n. rb_call id), ch_Consume = (\<lambda>q. rb_call id)\<rparr>"

lemmas rb_defs = ref_amqp_def rb_call_def rb_await_def rb_receive_def rb_accepted_def

lemma rb_accepted_publish:
  "rb_accepted b \<subseteq> rb_accepted (b\<lparr>rb_sent := rb_sent b @ xs\<rparr>)"
  by (force simp: rb_accepted_def nth_append)

interpretation ref: amqp_confirms ref_amqp rb_sent rb_seen rb_accepted
proof (unfold_locales, goal_cases)
  case (2 ex rk p mq mq')
  then show ?case using rb_accepted_publish [of mq] by (auto simp: ref_amqp_def rb_call_def split: if_splits)
qed (auto simp: rb_defs split: if_splits list.splits wait_script.splits)

interpretation ref: amqp_topology ref_amqp "set \<circ> rb_queues" "set \<circ> rb_exchanges" "set \<circ> rb_bindings"
  by unfold_locales (auto simp: ref_amqp_def rb_call_def insert_if_def split: if_splits)

section \<open>Properties\<close>

text \<open>
  The schedule that reaches the broker: the \<^verbatim>\<open>x-delay\<close> of a job is never negative, is 0 for a schedule in
  the past, and otherwise rounds the remaining time down to the millisecond (while the remaining time fits
  a \<^verbatim>\<open>time.Duration\<close>), so delivery is due at most one millisecond before the schedule and never after it.
\<close>

lemma xdelay_nonneg: "0 \<le> xdelay d"
  by (simp add: xdelay_def Let_def)

lemma xdelay_past: "t \<le> now \<Longrightarrow> xdelay (time_Sub t now) = 0"
  using dur_Milliseconds_mono_zero [of "time_Sub t now"]
  by (simp add: xdelay_def Let_def time_Sub_nonpos_iff)

lemma xdelay_future:
  assumes "0 \<le> d"
  shows "Millisecond * xdelay d \<le> d \<and> d < Millisecond * xdelay d + Millisecond"
proof -
  have "xdelay d = d div 1000000"
    using assms by (simp add: xdelay_def Let_def dur_Milliseconds_nonneg go_time pos_imp_zdiv_neg_iff)
  then show ?thesis by (simp only: go_time) linarith
qed

text \<open>
  C37. Publishing for schedule \<open>t\<close> at time \<open>now\<close> asks the broker for a delay that ends at \<open>t\<close> to
  within a millisecond, and never later.
\<close>

theorem xdelay_meets_schedule:
  assumes "t - now \<le> maxDuration"
  shows "0 \<le> xdelay (time_Sub t now)
    \<and> (t \<le> now \<longrightarrow> xdelay (time_Sub t now) = 0)
    \<and> (now < t \<longrightarrow> now + Millisecond * xdelay (time_Sub t now) \<le> t
                  \<and> t < now + Millisecond * xdelay (time_Sub t now) + Millisecond)"
proof -
  have exact: "time_Sub t now = t - now" if "now < t"
    using that assms by (intro time_Sub_exact) (auto simp: go_time)
  show ?thesis
    using xdelay_nonneg xdelay_past [of t now] xdelay_future [of "t - now"] exact by auto
qed

theorem xdelay_meets_schedule_witness:
  "xdelay (time_Sub 7500001 2000000) = 5
   \<and> 2000000 + Millisecond * xdelay (time_Sub 7500001 2000000) \<le> 7500001"
  using xdelay_meets_schedule [of 7500001 2000000]
  by (simp add: xdelay_def time_Sub_def dur_Milliseconds_def go_time)

text \<open>
  C12. With no confirmation outstanding, a delayed publish that reports success has put exactly its
  own message, routed through the queue's delayed exchange under the queue's name, into the broker's
  hands, and leaves no confirmation outstanding; a nack and a failed send leave none outstanding either.
\<close>

theorem publish_delayed_confirmed:
  assumes "amqp_confirms a sent seen accepted" and "seen mq = length (sent mq)"
    and "PublishDelayed a q body d mq = (mq', r)"
  shows "(r = None \<longrightarrow> (\<exists>mid. (delayedExchange q, q, json_publishing mid [''x-delay'' \<mapsto> ArgInt (xdelay d)] body)
            \<in> accepted mq') \<and> seen mq' = length (sent mq'))
    \<and> (\<forall>x e. r = Some (BrokerNacked x) \<or> r = Some (PublishError x e) \<longrightarrow> seen mq' = length (sent mq'))
    \<and> (\<forall>x e. r = Some (PublishCtxDone x e) \<longrightarrow> length (sent mq') = Suc (seen mq'))"
  by (rule amqp_confirms.PublishDelayed_sync [OF assms])

text \<open>Running the reference broker on closed terms.\<close>

lemmas publish_eval = PublishDelayed_def await_confirm_def ref_amqp_def rb_call_def rb_await_def
  rb_receive_def rb_init_def json_publishing_def delayedExchange_def xdelay_def dur_Milliseconds_def
  go_time Let_def

theorem publish_delayed_confirmed_witness:
  "\<exists>mid. (''jobs.delayed'', ''jobs'', json_publishing mid [''x-delay'' \<mapsto> ArgInt 5] ''{}'')
     \<in> rb_accepted (fst (PublishDelayed ref_amqp ''jobs'' ''{}'' 5000000 rb_init))"
proof -
  obtain mq' where *: "PublishDelayed ref_amqp ''jobs'' ''{}'' 5000000 rb_init = (mq', None)"
    by (simp add: publish_eval)
  have "rb_seen rb_init = length (rb_sent rb_init)" by (simp add: rb_init_def)
  from publish_delayed_confirmed [OF ref.amqp_confirms_axioms this *] * show ?thesis
    by (simp add: delayedExchange_def xdelay_def dur_Milliseconds_def go_time)
qed

text \<open>
  After a publish whose context ended before its confirmation arrived, the channel owes one
  confirmation, and the next publish takes that one for its own: it can report success for a message
  the broker refused.
\<close>

theorem publish_after_timeout_misattributed:
  "\<exists>mq mq1 mq2 t e. rb_seen mq = length (rb_sent mq)
     \<and> PublishDelayed ref_amqp QueueJobs ''first'' 0 mq = (mq1, Some (PublishCtxDone t e))
     \<and> PublishDelayed ref_amqp QueueJobs ''second'' 0 mq1 = (mq2, None)
     \<and> \<not> (\<exists>ex rk p. (ex, rk, p) \<in> rb_accepted mq2 \<and> pub_Body p = ''second'')"
proof -
  let ?mq = "rb_init\<lparr>rb_waits := [WaitTimeout], rb_nacked := [1]\<rparr>"
  let ?mq1 = "fst (PublishDelayed ref_amqp QueueJobs ''first'' 0 ?mq)"
  let ?mq2 = "fst (PublishDelayed ref_amqp QueueJobs ''second'' 0 ?mq1)"
  have "rb_seen ?mq = length (rb_sent ?mq)" by (simp add: rb_init_def)
  moreover have "PublishDelayed ref_amqp QueueJobs ''first'' 0 ?mq =
      (?mq1, Some (PublishCtxDone ''jobs.delayed'' ''context deadline exceeded''))"
    by (simp add: publish_eval QueueJobs_def)
  moreover have "PublishDelayed ref_amqp QueueJobs ''second'' 0 ?mq1 = (?mq2, None)"
    by (simp add: publish_eval QueueJobs_def)
  moreover have "\<forall>ex rk p. (ex, rk, p) \<in> rb_accepted ?mq2 \<longrightarrow> pub_Body p \<noteq> ''second''"
    by (auto simp: publish_eval QueueJobs_def rb_accepted_def less_Suc_eq)
  ultimately show ?thesis by blast
qed

lemma AppQueues_names: "set (map qc_Name AppQueues) = {QueueSMS, QueuePushNotification, QueueReportGeneration, QueueJobs}"
  by (simp add: AppQueues_def DefaultQueueConfig_def)

lemma AppQueues_durable: "cfg \<in> set AppQueues \<Longrightarrow> qc_Durable cfg"
  by (auto simp: AppQueues_def DefaultQueueConfig_def)

lemma AppQueues_no_dlx: "cfg \<in> set AppQueues \<Longrightarrow> queue_args cfg ''x-dead-letter-exchange'' = None"
  by (auto simp: AppQueues_def DefaultQueueConfig_def queue_args_def QueueTypeArg_def Let_def)

text \<open>
  When \<^verbatim>\<open>InitializeQueues(AppQueues)\<close> succeeds, all four queues are declared durable, and the
  jobs queue is bound, under the routing key that \<^verbatim>\<open>PublishDelayed\<close> uses, to the delayed exchange it
  publishes to; none of the queues has a dead-letter exchange.
\<close>

theorem initialize_queues_topology:
  assumes "amqp_topology a queues exchanges bindings"
    and "InitializeQueues a AppQueues mq = (mq', None)"
  shows "(\<forall>name \<in> {QueueSMS, QueuePushNotification, QueueReportGeneration, QueueJobs}.
            \<exists>args. (name, True, args) \<in> queues mq' \<and> args ''x-dead-letter-exchange'' = None)
    \<and> (delayedExchange QueueJobs, ''x-delayed-message'') \<in> exchanges mq'
    \<and> (QueueJobs, QueueJobs, delayedExchange QueueJobs) \<in> bindings mq'"
proof -
  note top = amqp_topology.InitializeQueues_topology [OF assms]
  have declared: "\<exists>args. (qc_Name cfg, True, args) \<in> queues mq' \<and> args ''x-dead-letter-exchange'' = None"
    if "cfg \<in> set AppQueues" for cfg
    using top that AppQueues_durable [OF that] AppQueues_no_dlx [OF that] by (metis (full_types))
  have "\<forall>name \<in> set (map qc_Name AppQueues). \<exists>args. (name, True, args) \<in> queues mq' \<and> args ''x-dead-letter-exchange'' = None"
    using declared by auto
  moreover have "\<exists>cfg\<in>set AppQueues. qc_Name cfg = QueueJobs \<and> qc_UseDelayedExchange cfg"
    by (simp add: AppQueues_def)
  ultimately show ?thesis using top by (simp only: AppQueues_names) metis
qed

theorem initialize_queues_topology_witness:
  "(''jobs'', ''jobs'', ''jobs.delayed'')
     \<in> set (rb_bindings (fst (InitializeQueues ref_amqp AppQueues rb_init)))"
proof -
  obtain mq' where *: "InitializeQueues ref_amqp AppQueues rb_init = (mq', None)"
    by (simp add: AppQueues_def DefaultQueueConfig_def DeclareQueue_def DeclareDelayedExchange_def
        ref_amqp_def rb_call_def rb_init_def Let_def)
  from initialize_queues_topology [OF ref.amqp_topology_axioms this] show ?thesis
    by (simp add: * QueueJobs_def delayedExchange_def)
qed

fun dials :: "'mq amqp \<Rightarrow> string \<Rightarrow> nat \<Rightarrow> 'mq \<Rightarrow> 'mq" where
  "dials a url 0 mq = mq"
| "dials a url (Suc n) mq = dials a url n (fst (amqp_Dial a url mq))"

lemma dial_loop_connects:
  assumes "k < n" and "\<And>i. i < k \<Longrightarrow> snd (amqp_Dial a url (dials a url i mq)) \<noteq> None"
    and "snd (amqp_Dial a url (dials a url k mq)) = None"
  shows "dial_loop a url n err mq = (dials a url (Suc k) mq, None, int k * connectRetryDelay)"
  using assms
proof (induction n arbitrary: k mq err)
  case (Suc n)
  obtain mq1 e where d: "amqp_Dial a url mq = (mq1, e)" by (cases "amqp_Dial a url mq")
  show ?case
  proof (cases k)
    case 0
    with Suc.prems d show ?thesis by simp
  next
    case (Suc j)
    then obtain x where e: "e = Some x" using Suc.prems(2) [of 0] d by auto
    have "dial_loop a url n (Some x) mq1 = (dials a url (Suc j) mq1, None, int j * connectRetryDelay)"
    proof (rule Suc.IH)
      show "snd (amqp_Dial a url (dials a url i mq1)) \<noteq> None" if "i < j" for i
        using Suc.prems(2) [of "Suc i"] that Suc d by simp
    qed (use Suc.prems Suc d in auto)
    with d e Suc show ?thesis by (simp add: algebra_simps)
  qed
qed simp

lemma dial_loop_gives_up:
  assumes "\<And>i. i < n \<Longrightarrow> snd (amqp_Dial a url (dials a url i mq)) \<noteq> None" and "n = 0 \<Longrightarrow> err \<noteq> None"
  shows "\<exists>e. dial_loop a url n err mq = (dials a url n mq, Some e, int n * connectRetryDelay)"
  using assms
proof (induction n arbitrary: mq err)
  case (Suc n)
  obtain mq1 x where d: "amqp_Dial a url mq = (mq1, Some x)"
    using Suc.prems(1) [of 0] by (cases "amqp_Dial a url mq") auto
  have "\<exists>e. dial_loop a url n (Some x) mq1 = (dials a url n mq1, Some e, int n * connectRetryDelay)"
  proof (rule Suc.IH)
    show "snd (amqp_Dial a url (dials a url i mq1)) \<noteq> None" if "i < n" for i
      using Suc.prems(1) [of "Suc i"] that d by simp
  qed simp
  with d show ?case by (auto simp: algebra_simps)
qed auto

text \<open>
  C38. The connection loop: when dial number \<open>k\<close> (from 0) is the first to succeed and \<open>k < 30\<close>, the loop
  stops there after \<open>k\<close> waits of two seconds; when the first 30 dials fail, it gives up after exactly 30
  dials and one minute, with the last error.
\<close>

theorem new_connection_dials:
  assumes "\<And>i. i < k \<Longrightarrow> snd (amqp_Dial a url (dials a url i mq)) \<noteq> None"
    and "k < connectMaxAttempts \<Longrightarrow> snd (amqp_Dial a url (dials a url k mq)) = None"
  shows "if k < connectMaxAttempts
    then dial_loop a url connectMaxAttempts None mq = (dials a url (Suc k) mq, None, int k * (2 * Second))
    else \<exists>e. NewRabbitMQConnection a url mq = (dials a url 30 mq, Some (ConnectFatal e), Minute)"
proof (cases "k < connectMaxAttempts")
  case True
  with dial_loop_connects [OF True assms(1) assms(2) [OF True]] show ?thesis
    by (simp add: connectRetryDelay_def)
next
  case False
  then have "\<exists>e. dial_loop a url connectMaxAttempts None mq =
      (dials a url connectMaxAttempts mq, Some e, int connectMaxAttempts * connectRetryDelay)"
    using assms(1) by (intro dial_loop_gives_up) (auto simp: connectMaxAttempts_def)
  with False show ?thesis
    by (auto simp: NewRabbitMQConnection_def connectMaxAttempts_def connectRetryDelay_def go_time)
qed

lemma rb_Dial: "amqp_Dial ref_amqp url b = rb_call id b"
  by (simp add: ref_amqp_def)

lemma rb_dials: "rb_failures (dials ref_amqp url i b) = rb_failures b - i"
  by (induction i arbitrary: b) (auto simp: rb_Dial rb_call_def)

theorem new_connection_dials_witness:
  "snd (dial_loop ref_amqp ''amqp'' connectMaxAttempts None (rb_init\<lparr>rb_failures := 3\<rparr>)) = (None, 6 * Second)"
proof -
  let ?mq = "rb_init\<lparr>rb_failures := 3\<rparr>"
  have "snd (amqp_Dial ref_amqp ''amqp'' (dials ref_amqp ''amqp'' i ?mq)) \<noteq> None" if "i < 3" for i
    using that by (simp add: rb_Dial rb_call_def rb_dials)
  moreover have "snd (amqp_Dial ref_amqp ''amqp'' (dials ref_amqp ''amqp'' 3 ?mq)) = None"
    by (simp add: rb_Dial rb_call_def rb_dials)
  ultimately show ?thesis
    using new_connection_dials [of 3 ref_amqp "''amqp''" ?mq] by (simp add: connectMaxAttempts_def)
qed

end
