(* ===== verification/Jobs_Service.thy ===== *)
theory Jobs_Service
  imports Jobs_Model Rabbitmq
begin

text \<open>
  \<^verbatim>\<open>internal/jobs/service.go\<close> (with the two empty validators of \<^verbatim>\<open>validation.go\<close>): job creation, one by one and in
  bulk, with the publish that follows the insert, the reconciler's sweep, and read, update and
  delete. The service threads three pieces of state: the database, the broker channel and the clock. \<^verbatim>\<open>json.Marshal\<close> of a message
  runs the \<^verbatim>\<open>MarshalJSON\<close> method of \<^verbatim>\<open>datatypes.JSON\<close>, which is not part of the repository, so the
  marshaller is a field of the service. Request contexts appear only through the errors that an expired one causes
  in the database and broker calls. The result structs with the single field \<^verbatim>\<open>Job\<close> (or \<^verbatim>\<open>Jobs\<close>) are
  represented by that field.
\<close>

section \<open>Model\<close>

record ('db, 'mq) JobsService =
  svc_repo :: "('db, Job) gorm"
  svc_mq :: "'mq amqp"
  svc_marshal :: "JobMessage \<Rightarrow> string + string"

definition NewJobsService :: "('db, Job) gorm \<Rightarrow> 'mq amqp \<Rightarrow> (JobMessage \<Rightarrow> string + string) \<Rightarrow> ('db, 'mq) JobsService" where
  [simp]: "NewJobsService repo mq marshal = \<lparr>svc_repo = repo, svc_mq = mq, svc_marshal = marshal\<rparr>"

record ('db, 'mq) jobs_state =
  js_db :: 'db
  js_mq :: 'mq
  js_clock :: clock

definition validateCreateJob :: "CreateJobRequest \<Rightarrow> job_error option" where
  "validateCreateJob req = None"

definition validateUpdateJob :: "UpdateJobRequest \<Rightarrow> job_error option" where
  "validateUpdateJob req = None"

definition message_of :: "Job \<Rightarrow> JobMessage" where
  "message_of job = \<lparr>m_ID = j_ID job, m_UserID = j_UserID job, m_Type = j_Type job, m_Payload = j_Payload job,
     m_Priority = j_Priority job, m_MaxRetries = j_MaxRetries job, m_ScheduledAt = j_ScheduledAt job\<rparr>"

datatype publish_failure = MarshalFailed string | PublishFailed publish_error

text \<open>\<^verbatim>\<open>publishJob\<close> stamps the job it is given, so it returns the job along with the error.\<close>

definition publishJob ::
  "('db, 'mq) JobsService \<Rightarrow> Job \<Rightarrow> ('db, 'mq) jobs_state \<Rightarrow> ('db, 'mq) jobs_state \<times> Job \<times> publish_failure option"
where
  "publishJob s job st =
     (case svc_marshal s (message_of job) of
        Inl e \<Rightarrow> (st, job, Some (MarshalFailed e))
      | Inr payload \<Rightarrow>
          (let (now, clk) = time_Now (js_clock st);
               delay = time_Sub (j_ScheduledAt job) now
           in case PublishDelayed (svc_mq s) QueueJobs payload delay (js_mq st) of
                (mq', Some e) \<Rightarrow> (st\<lparr>js_mq := mq', js_clock := clk\<rparr>, job, Some (PublishFailed e))
              | (mq', None) \<Rightarrow>
                  (let (queuedAt, clk') = time_Now clk
                   in case MarkQueued (svc_repo s) (j_ID job) queuedAt (js_db st) of
                        (db', Some e) \<Rightarrow> (st\<lparr>js_db := db', js_mq := mq', js_clock := clk'\<rparr>, job, None)
                      | (db', None) \<Rightarrow>
                          (st\<lparr>js_db := db', js_mq := mq', js_clock := clk'\<rparr>, job\<lparr>j_QueuedAt := Some queuedAt\<rparr>, None))))"

definition too_many_retries :: "int option \<Rightarrow> bool" where
  "too_many_retries mr = (case mr of None \<Rightarrow> False | Some n \<Rightarrow> n > 10)"

definition max_retries_error :: job_error where
  "max_retries_error = job_err_wrap ErrInvalidJobInput ''max retries must be 10 or less''"

definition job_of_request :: "string \<Rightarrow> CreateJobRequest \<Rightarrow> Job" where
  "job_of_request userID r =
     (let job = zeroJob\<lparr>j_UserID := userID, j_Type := cr_Type r, j_Payload := cr_Payload r\<rparr>;
          job = (case cr_MaxRetries r of None \<Rightarrow> job | Some n \<Rightarrow> job\<lparr>j_MaxRetries := n\<rparr>);
          job = (case cr_ScheduledAt r of None \<Rightarrow> job | Some t \<Rightarrow> job\<lparr>j_ScheduledAt := t\<rparr>)
      in case cr_Priority r of None \<Rightarrow> job | Some n \<Rightarrow> job\<lparr>j_Priority := n\<rparr>)"

definition CreateJobService ::
  "('db, 'mq) JobsService \<Rightarrow> CreateJobRequest \<Rightarrow> ('db, 'mq) jobs_state \<Rightarrow> ('db, 'mq) jobs_state \<times> (job_error + Job)"
where
  "CreateJobService s req st =
     (if too_many_retries (cr_MaxRetries req) then (st, Inl max_retries_error)
      else (case CreateJob (svc_repo s) (job_of_request (cr_UserID req) req) (js_db st) of
              (db', Inl e) \<Rightarrow> (st\<lparr>js_db := db'\<rparr>, Inl (job_err_wrap ErrToCreateJob (gorm_error_text e)))
            | (db', Inr createdJob) \<Rightarrow>
                (case publishJob s createdJob (st\<lparr>js_db := db'\<rparr>) of
                   (st', job, err) \<Rightarrow> (st', Inr job))))"

fun publish_created ::
  "('db, 'mq) JobsService \<Rightarrow> Job list \<Rightarrow> ('db, 'mq) jobs_state \<Rightarrow> ('db, 'mq) jobs_state \<times> Job list"
where
  "publish_created s [] st = (st, [])"
| "publish_created s (j # js) st =
     (case publishJob s j st of (st', j', err) \<Rightarrow>
        (case publish_created s js st' of (st'', js') \<Rightarrow> (st'', j' # js')))"

definition CreateJobsService ::
  "('db, 'mq) JobsService \<Rightarrow> CreateJobRequest list \<Rightarrow> string \<Rightarrow> ('db, 'mq) jobs_state \<Rightarrow>
   ('db, 'mq) jobs_state \<times> (job_error + Job list)"
where
  "CreateJobsService s reqs userID st =
     (if list_ex (\<lambda>r. too_many_retries (cr_MaxRetries r)) reqs then (st, Inl max_retries_error)
      else (case CreateJobs (svc_repo s) (map (job_of_request userID) reqs) (js_db st) of
              (db', Inl e) \<Rightarrow> (st\<lparr>js_db := db'\<rparr>, Inl (job_err_wrap ErrToCreateJobs (gorm_error_text e)))
            | (db', Inr createdJobs) \<Rightarrow>
                (case publish_created s createdJobs (st\<lparr>js_db := db'\<rparr>) of (st', js) \<Rightarrow> (st', Inr js))))"

definition queuePublishGrace :: duration where "queuePublishGrace = 2 * Minute"

fun republish_all :: "('db, 'mq) JobsService \<Rightarrow> Job list \<Rightarrow> ('db, 'mq) jobs_state \<Rightarrow> ('db, 'mq) jobs_state" where
  "republish_all s [] st = st"
| "republish_all s (j # js) st = (case publishJob s j st of (st', j', err) \<Rightarrow> republish_all s js st')"

definition RepublishStuckJobs ::
  "('db, 'mq) JobsService \<Rightarrow> ('db, 'mq) jobs_state \<Rightarrow> ('db, 'mq) jobs_state \<times> gorm_error option"
where
  "RepublishStuckJobs s st =
     (let (now, clk) = time_Now (js_clock st); cutoff = now - queuePublishGrace
      in case GetUnqueuedPendingJobs (svc_repo s) cutoff (js_db st) of
           (db', Inl e) \<Rightarrow> (st\<lparr>js_db := db', js_clock := clk\<rparr>, Some e)
         | (db', Inr stuck) \<Rightarrow> (republish_all s stuck (st\<lparr>js_db := db', js_clock := clk\<rparr>), None))"

definition GetJobByIdService ::
  "('db, 'mq) JobsService \<Rightarrow> string \<Rightarrow> ('db, 'mq) jobs_state \<Rightarrow> ('db, 'mq) jobs_state \<times> (job_error + Job)"
where
  "GetJobByIdService s jid st =
     (case GetJobByID (svc_repo s) jid (js_db st) of
        (db', Inl ErrRecordNotFound) \<Rightarrow> (st\<lparr>js_db := db'\<rparr>, Inl (job_err ErrJobNotFound))
      | (db', Inl e) \<Rightarrow> (st\<lparr>js_db := db'\<rparr>, Inl (job_err_wrap ErrToGetJob (gorm_error_text e)))
      | (db', Inr job) \<Rightarrow> (st\<lparr>js_db := db'\<rparr>, Inr job))"

definition GetAllJobsService ::
  "('db, 'mq) JobsService \<Rightarrow> string \<Rightarrow> ('db, 'mq) jobs_state \<Rightarrow> ('db, 'mq) jobs_state \<times> (job_error + Job list)"
where
  "GetAllJobsService s userID st =
     (case GetAllJobs (svc_repo s) userID (js_db st) of
        (db', Inl ErrRecordNotFound) \<Rightarrow> (st\<lparr>js_db := db'\<rparr>, Inl (job_err ErrJobNotFound))
      | (db', Inl e) \<Rightarrow> (st\<lparr>js_db := db'\<rparr>, Inl (job_err_wrap ErrToGetAllJobs (gorm_error_text e)))
      | (db', Inr js) \<Rightarrow> (st\<lparr>js_db := db'\<rparr>, Inr js))"

definition apply_update :: "UpdateJobRequest \<Rightarrow> Job \<Rightarrow> Job" where
  "apply_update req job =
     (let job = (if ur_Type req \<noteq> '''' then job\<lparr>j_Type := ur_Type req\<rparr> else job);
          job = (if ur_Payload req \<noteq> None then job\<lparr>j_Payload := ur_Payload req\<rparr> else job);
          job = (case ur_MaxRetries req of None \<Rightarrow> job | Some n \<Rightarrow> job\<lparr>j_MaxRetries := n\<rparr>);
          job = (case ur_ScheduledAt req of None \<Rightarrow> job | Some t \<Rightarrow> job\<lparr>j_ScheduledAt := t\<rparr>)
      in case ur_Priority req of None \<Rightarrow> job | Some n \<Rightarrow> job\<lparr>j_Priority := n\<rparr>)"

definition UpdateJobService ::
  "('db, 'mq) JobsService \<Rightarrow> string \<Rightarrow> string \<Rightarrow> UpdateJobRequest \<Rightarrow> ('db, 'mq) jobs_state \<Rightarrow>
   ('db, 'mq) jobs_state \<times> (job_error + Job)"
where
  "UpdateJobService s jid userID req st =
     (case GetJobByID (svc_repo s) jid (js_db st) of
        (db', Inl ErrRecordNotFound) \<Rightarrow> (st\<lparr>js_db := db'\<rparr>, Inl (job_err ErrJobNotFound))
      | (db', Inl e) \<Rightarrow> (st\<lparr>js_db := db'\<rparr>, Inl (job_err_wrap ErrToGetJob (gorm_error_text e)))
      | (db', Inr job) \<Rightarrow>
          (if j_UserID job \<noteq> userID then (st\<lparr>js_db := db'\<rparr>, Inl (job_err ErrUnauthorized))
           else if too_many_retries (ur_MaxRetries req) then (st\<lparr>js_db := db'\<rparr>, Inl max_retries_error)
           else (let job' = apply_update req job
                 in case UpdateJob (svc_repo s) (j_ID job') job' db' of
                      (db'', Inl e) \<Rightarrow> (st\<lparr>js_db := db''\<rparr>, Inl (job_err_wrap ErrToUpdateJob (gorm_error_text e)))
                    | (db'', Inr res) \<Rightarrow> (st\<lparr>js_db := db''\<rparr>, Inr res))))"

definition DeleteJobService ::
  "('db, 'mq) JobsService \<Rightarrow> string \<Rightarrow> string \<Rightarrow> ('db, 'mq) jobs_state \<Rightarrow> ('db, 'mq) jobs_state \<times> job_error option"
where
  "DeleteJobService s jid userID st =
     (case GetJobByID (svc_repo s) jid (js_db st) of
        (db', Inl ErrRecordNotFound) \<Rightarrow> (st\<lparr>js_db := db'\<rparr>, Some (job_err ErrJobNotFound))
      | (db', Inl e) \<Rightarrow> (st\<lparr>js_db := db'\<rparr>, Some (job_err_wrap ErrToGetJob (gorm_error_text e)))
      | (db', Inr job) \<Rightarrow>
          (if j_UserID job \<noteq> userID then (st\<lparr>js_db := db'\<rparr>, Some (job_err ErrUnauthorized))
           else (case DeleteJob (svc_repo s) jid db' of
                   (db'', Some e) \<Rightarrow> (st\<lparr>js_db := db''\<rparr>, Some (job_err_wrap ErrToDeleteJob (gorm_error_text e)))
                 | (db'', None) \<Rightarrow> (st\<lparr>js_db := db''\<rparr>, None))))"

section \<open>What a publish promises\<close>

text \<open>
  \<open>job_in_broker\<close>: the broker has taken responsibility for a message that carries the job, routed through
  the delayed exchange of the jobs queue. \<open>publish_step\<close>: the stored row is as before, or the one
  change is its \<^verbatim>\<open>queued_at\<close> stamp.
\<close>

definition job_in_broker :: "(JobMessage \<Rightarrow> string + string) \<Rightarrow> delivery set \<Rightarrow> Job \<Rightarrow> bool" where
  "job_in_broker marshal taken_over j \<longleftrightarrow> (\<exists>body mid d. marshal (message_of j) = Inr body \<and>
     (delayedExchange QueueJobs, QueueJobs, json_publishing mid [''x-delay'' \<mapsto> ArgInt (xdelay d)] body) \<in> taken_over)"

definition publish_step :: "Job \<Rightarrow> Job \<Rightarrow> bool" where
  "publish_step r r' \<longleftrightarrow> r' = r \<or> (\<exists>t. job_tracked (r\<lparr>j_QueuedAt := Some t\<rparr>) r')"

lemma job_in_broker_mono: "job_in_broker m A j \<Longrightarrow> A \<subseteq> B \<Longrightarrow> job_in_broker m B j"
  unfolding job_in_broker_def by blast

lemma publish_step_sel:
  assumes "publish_step r r'"
  shows "j_ID r' = j_ID r" "j_UserID r' = j_UserID r" "j_Type r' = j_Type r" "j_Payload r' = j_Payload r"
    "j_Status r' = j_Status r" "j_Priority r' = j_Priority r" "j_MaxRetries r' = j_MaxRetries r"
    "j_ScheduledAt r' = j_ScheduledAt r" "j_DeletedAt r' = j_DeletedAt r" "j_Attempts r' = j_Attempts r"
  using assms unfolding publish_step_def by (auto dest: job_tracked_sel)

lemma message_of_step: "publish_step r r' \<Longrightarrow> message_of r' = message_of r"
  by (simp add: message_of_def publish_step_sel)

section \<open>The jobs a request describes\<close>

lemma job_of_request_sel [simp]:
  "j_ID (job_of_request u r) = ''''" "j_UserID (job_of_request u r) = u" "j_Type (job_of_request u r) = cr_Type r"
  "j_Payload (job_of_request u r) = cr_Payload r" "j_Status (job_of_request u r) = ''''"
  "j_Priority (job_of_request u r) = (case cr_Priority r of None \<Rightarrow> 0 | Some n \<Rightarrow> n)"
  "j_MaxRetries (job_of_request u r) = (case cr_MaxRetries r of None \<Rightarrow> 0 | Some n \<Rightarrow> n)"
  "j_ScheduledAt (job_of_request u r) = (case cr_ScheduledAt r of None \<Rightarrow> zeroTime | Some t \<Rightarrow> t)"
  "j_QueuedAt (job_of_request u r) = None" "j_DeletedAt (job_of_request u r) = None"
  "j_Attempts (job_of_request u r) = 0" "j_WorkerID (job_of_request u r) = None"
  "j_StartedAt (job_of_request u r) = None" "j_CompletedAt (job_of_request u r) = None"
  "j_ErrorMsg (job_of_request u r) = None"
  by (auto simp: job_of_request_def zeroJob_def Let_def split: option.splits)

lemma apply_update_sel [simp]:
  "j_ID (apply_update q j) = j_ID j" "j_UserID (apply_update q j) = j_UserID j"
  "j_Status (apply_update q j) = j_Status j" "j_QueuedAt (apply_update q j) = j_QueuedAt j"
  "j_DeletedAt (apply_update q j) = j_DeletedAt j"
  "j_Type (apply_update q j) = (if ur_Type q = '''' then j_Type j else ur_Type q)"
  "j_Payload (apply_update q j) = (case ur_Payload q of None \<Rightarrow> j_Payload j | Some p \<Rightarrow> Some p)"
  "j_Priority (apply_update q j) = (case ur_Priority q of None \<Rightarrow> j_Priority j | Some n \<Rightarrow> n)"
  "j_MaxRetries (apply_update q j) = (case ur_MaxRetries q of None \<Rightarrow> j_MaxRetries j | Some n \<Rightarrow> n)"
  "j_ScheduledAt (apply_update q j) = (case ur_ScheduledAt q of None \<Rightarrow> j_ScheduledAt j | Some t \<Rightarrow> t)"
  by (auto simp: apply_update_def Let_def split: option.splits)

text \<open>A freshly created row: pending, not queued, live, nobody's attempt yet.\<close>

definition fresh_row :: "string \<Rightarrow> CreateJobRequest \<Rightarrow> Job \<Rightarrow> bool" where
  "fresh_row userID req r \<longleftrightarrow>
     j_UserID r = userID \<and> j_Type r = cr_Type req
   \<and> j_Payload r = (case cr_Payload req of None \<Rightarrow> Some ''{}'' | Some p \<Rightarrow> Some p)
   \<and> j_Status r = JobStatusPending \<and> j_Attempts r = 0 \<and> job_live r
   \<and> j_Priority r = (if cr_Priority req \<in> {None, Some 0} then 5 else the (cr_Priority req))
   \<and> j_MaxRetries r = (if cr_MaxRetries req \<in> {None, Some 0} then 3 else the (cr_MaxRetries req))
   \<and> (cr_ScheduledAt req \<notin> {None, Some zeroTime} \<longrightarrow> j_ScheduledAt r = the (cr_ScheduledAt req))"

lemma filled_fresh_row:
  assumes "job_filled (job_of_request u req) r"
  shows "fresh_row u req r" and "j_QueuedAt r = None"
  using assms unfolding job_filled_def fresh_row_def job_live_def
  by (auto split: option.splits)

lemma fresh_row_step: "fresh_row u req r \<Longrightarrow> publish_step r r' \<Longrightarrow> fresh_row u req r'"
  by (simp add: fresh_row_def publish_step_sel job_live_def)

lemma publish_stepI:
  "j' = j \<and> r = j \<or> (\<exists>t. j' = j\<lparr>j_QueuedAt := Some t\<rparr> \<and> job_tracked j' r) \<Longrightarrow> publish_step j r"
  unfolding publish_step_def by blast

lemma stamped_tracked:
  "j' = j \<and> r = j \<or> (\<exists>t. j' = j\<lparr>j_QueuedAt := Some t\<rparr> \<and> job_tracked j' r) \<Longrightarrow> job_tracked j' r"
  unfolding job_tracked_def by auto

lemma job_in_broker_step:
  "publish_step j r \<Longrightarrow> job_in_broker m A r \<longleftrightarrow> job_in_broker m A j"
  by (simp add: job_in_broker_def message_of_step)

text \<open>The two publishing loops run the same sequence of publishes.\<close>

lemma republish_all_eq: "republish_all s js st = fst (publish_created s js st)"
  by (induction js arbitrary: st) (auto split: prod.splits)

locale jobs_service =
  store: jobs_store "svc_repo s" tbl + broker: amqp_confirms "svc_mq s" sent seen accepted
  for s :: "('db, 'mq) JobsService" and tbl :: "'db \<Rightarrow> string \<Rightarrow> Job option"
    and sent :: "'mq \<Rightarrow> delivery list" and seen :: "'mq \<Rightarrow> nat" and accepted :: "'mq \<Rightarrow> delivery set"
begin

text \<open>How a call of \<^verbatim>\<open>publishJob\<close> touches the database.\<close>

lemma publishJob_cases:
  assumes "publishJob s job st = (st', job', err)"
  obtains (unpublished) "js_db st' = js_db st" "job' = job" "err \<noteq> None"
  | (unmarked) t e where "MarkQueued (svc_repo s) (j_ID job) t (js_db st) = (js_db st', Some e)" "job' = job" "err = None"
  | (marked) t where "MarkQueued (svc_repo s) (j_ID job) t (js_db st) = (js_db st', None)"
      "job' = job\<lparr>j_QueuedAt := Some t\<rparr>" "err = None"
proof (cases "svc_marshal s (message_of job)")
  case (Inl e)
  with assms show thesis by (intro unpublished) (auto simp: publishJob_def)
next
  case (Inr body)
  obtain now clk where n: "time_Now (js_clock st) = (now, clk)" by (cases "time_Now (js_clock st)")
  obtain t clk' where t: "time_Now clk = (t, clk')" by (cases "time_Now clk")
  obtain mq' r where p: "PublishDelayed (svc_mq s) QueueJobs body (time_Sub (j_ScheduledAt job) now) (js_mq st) = (mq', r)"
    by (cases "PublishDelayed (svc_mq s) QueueJobs body (time_Sub (j_ScheduledAt job) now) (js_mq st)")
  obtain db' m where q: "MarkQueued (svc_repo s) (j_ID job) t (js_db st) = (db', m)"
    by (cases "MarkQueued (svc_repo s) (j_ID job) t (js_db st)")
  note run = assms [unfolded publishJob_def Let_def, simplified Inr n p q t prod.case sum.case]
  show thesis
  proof (cases r)
    case (Some e)
    with run show thesis by (intro unpublished) auto
  next
    case None
    note published = this
    show thesis
    proof (cases m)
      case (Some e)
      with run published t q show thesis by (intro unmarked [of t e]) auto
    next
      case None
      with run published t q show thesis by (intro marked [of t]) auto
    qed
  qed
qed

text \<open>
  One publish: no other row changes, the row itself at most gets its stamp, and only when the call
  succeeds; a success on a channel that owes no confirmation puts the job into the broker's hands.
\<close>

lemma publishJob_row:
  assumes "publishJob s job st = (st', job', err)" and "tbl (js_db st) (j_ID job) = Some job" and "job_live job"
  shows "\<exists>r. tbl (js_db st') (j_ID job) = Some r
      \<and> (job' = job \<and> r = job \<or> err = None \<and> (\<exists>t. job' = job\<lparr>j_QueuedAt := Some t\<rparr> \<and> job_tracked job' r))"
    and "k \<noteq> j_ID job \<Longrightarrow> tbl (js_db st') k = tbl (js_db st) k"
proof -
  show "\<exists>r. tbl (js_db st') (j_ID job) = Some r
      \<and> (job' = job \<and> r = job \<or> err = None \<and> (\<exists>t. job' = job\<lparr>j_QueuedAt := Some t\<rparr> \<and> job_tracked job' r))"
    using assms(1)
  proof (cases rule: publishJob_cases)
    case (marked t)
    with store.MarkQueued_None [OF marked(1) assms(2,3)] show ?thesis by blast
  qed (use assms(2) in \<open>auto dest: store.MarkQueued_Some\<close>)
  show "tbl (js_db st') k = tbl (js_db st) k" if "k \<noteq> j_ID job"
    using assms(1) by (cases rule: publishJob_cases) (auto dest: store.MarkQueued_other [OF _ that])
qed

lemma publishJob_broker:
  assumes "publishJob s job st = (st', job', err)" and "broker.consistent (js_mq st)"
  shows "broker.consistent (js_mq st') \<and> broker.lag (js_mq st) \<le> broker.lag (js_mq st')
    \<and> accepted (js_mq st) \<subseteq> accepted (js_mq st')
    \<and> (err = None \<longrightarrow> broker.lag (js_mq st') = broker.lag (js_mq st))
    \<and> (err = None \<longrightarrow> broker.lag (js_mq st') = 0 \<longrightarrow> job_in_broker (svc_marshal s) (accepted (js_mq st')) job)"
proof (cases "svc_marshal s (message_of job)")
  case (Inl e)
  with assms show ?thesis by (auto simp: publishJob_def)
next
  case (Inr body)
  define d where "d = time_Sub (j_ScheduledAt job) (fst (time_Now (js_clock st)))"
  obtain mq' r where p: "PublishDelayed (svc_mq s) QueueJobs body d (js_mq st) = (mq', r)"
    by (cases "PublishDelayed (svc_mq s) QueueJobs body d (js_mq st)")
  have mq: "js_mq st' = mq'" and err: "err = None \<longleftrightarrow> r = None"
    using assms(1) Inr p
    by (auto simp: publishJob_def d_def Let_def split: prod.splits option.splits)
  note lag = broker.PublishDelayed_lag [OF p assms(2)]
  have mono: "broker.lag (js_mq st) \<le> broker.lag mq'"
    using lag by (auto split: option.splits publish_error.splits)
  have "job_in_broker (svc_marshal s) (accepted mq') job" if "r = None" "broker.lag mq' = 0"
    using broker.PublishDelayed_ok [of QueueJobs body d "js_mq st" mq'] p that mono assms(2) Inr
    by (auto simp: job_in_broker_def)
  with lag mono err broker.PublishDelayed_mono [OF p] show ?thesis by (simp add: mq)
qed

text \<open>A sequence of publishes of distinct rows.\<close>

lemma publish_created_broker:
  assumes "publish_created s js st = (st', js')" and "broker.consistent (js_mq st)"
  shows "broker.consistent (js_mq st') \<and> broker.lag (js_mq st) \<le> broker.lag (js_mq st')
    \<and> accepted (js_mq st) \<subseteq> accepted (js_mq st')"
  using assms
proof (induction js arbitrary: st js')
  case (Cons j js)
  obtain st1 j1 err where p: "publishJob s j st = (st1, j1, err)" by (cases "publishJob s j st")
  obtain js1 where r: "publish_created s js st1 = (st', js1)"
    using Cons.prems(1) p by (auto split: prod.splits)
  from publishJob_broker [OF p Cons.prems(2)] Cons.IH [OF r] show ?case by auto
qed simp

lemma publish_created_rows:
  assumes "publish_created s js st = (st', js')" and "broker.consistent (js_mq st)"
    and "distinct (map j_ID js)" and "\<And>j. j \<in> set js \<Longrightarrow> tbl (js_db st) (j_ID j) = Some j \<and> job_live j"
  shows "(\<forall>k. k \<notin> j_ID ` set js \<longrightarrow> tbl (js_db st') k = tbl (js_db st) k)
    \<and> list_all2 (\<lambda>j j'. \<exists>r. tbl (js_db st') (j_ID j) = Some r
        \<and> (j' = j \<and> r = j \<or> (\<exists>t. j' = j\<lparr>j_QueuedAt := Some t\<rparr> \<and> job_tracked j' r)
             \<and> (broker.lag (js_mq st') = 0 \<longrightarrow> job_in_broker (svc_marshal s) (accepted (js_mq st')) j))) js js'"
  using assms
proof (induction js arbitrary: st js')
  case (Cons j js)
  obtain st1 j1 err where p: "publishJob s j st = (st1, j1, err)" by (cases "publishJob s j st")
  obtain js1 where r: "publish_created s js st1 = (st', js1)" and js': "js' = j1 # js1"
    using Cons.prems(1) p by (auto split: prod.splits)
  have live: "tbl (js_db st) (j_ID j) = Some j" "job_live j" using Cons.prems(4) by auto
  note row = publishJob_row [OF p live] and mq = publishJob_broker [OF p Cons.prems(2)]
  have rest: "tbl (js_db st1) (j_ID x) = Some x \<and> job_live x" if "x \<in> set js" for x
  proof -
    have "j_ID x \<noteq> j_ID j" using that Cons.prems(3) by (auto simp: rev_image_eqI)
    then show ?thesis using row(2) Cons.prems(4) [of x] that by simp
  qed
  have IH: "\<forall>k. k \<notin> j_ID ` set js \<longrightarrow> tbl (js_db st') k = tbl (js_db st1) k"
    and IH': "list_all2 (\<lambda>j j'. \<exists>r. tbl (js_db st') (j_ID j) = Some r
        \<and> (j' = j \<and> r = j \<or> (\<exists>t. j' = j\<lparr>j_QueuedAt := Some t\<rparr> \<and> job_tracked j' r)
             \<and> (broker.lag (js_mq st') = 0 \<longrightarrow> job_in_broker (svc_marshal s) (accepted (js_mq st')) j))) js js1"
    using Cons.IH [OF r] mq Cons.prems(3) rest by auto
  have mq': "broker.lag (js_mq st1) \<le> broker.lag (js_mq st')" "accepted (js_mq st1) \<subseteq> accepted (js_mq st')"
    using publish_created_broker [OF r] mq by auto
  have same: "tbl (js_db st') (j_ID j) = tbl (js_db st1) (j_ID j)"
    using IH Cons.prems(3) by auto
  have "job_in_broker (svc_marshal s) (accepted (js_mq st')) j" if "err = None" "broker.lag (js_mq st') = 0"
    using mq mq' that by (auto intro: job_in_broker_mono)
  with row(1) same IH' js' IH row(2) show ?case by (auto split: prod.splits)
qed simp

end

section \<open>What the service operations promise\<close>

text \<open>
  The outcome for one created row: it is stored, pending and not yet attempted, the caller gets the stored row, and the row is either stamped as
  queued, with the job in the broker's hands, or still eligible for the reconciler.
\<close>

definition created_row ::
  "(JobMessage \<Rightarrow> string + string) \<Rightarrow> (string \<Rightarrow> Job option) \<Rightarrow> delivery set \<Rightarrow> string \<Rightarrow> CreateJobRequest \<Rightarrow> Job \<Rightarrow> bool \<Rightarrow> bool"
where
  "created_row marshal rows taken_over userID req job in_sync \<longleftrightarrow> (\<exists>r. rows (j_ID job) = Some r \<and> job_tracked job r
     \<and> fresh_row userID req r
     \<and> (j_QueuedAt r \<noteq> None \<longrightarrow> in_sync \<longrightarrow> job_in_broker marshal taken_over r)
     \<and> (j_QueuedAt r = None \<longrightarrow> (\<forall>t \<ge> j_ScheduledAt r. unqueued_pending t r)))"

context jobs_service
begin

abbreviation stored :: "('db, 'mq) jobs_state \<Rightarrow> string \<Rightarrow> CreateJobRequest \<Rightarrow> Job \<Rightarrow> bool" where
  "stored st' u req job \<equiv>
     created_row (svc_marshal s) (tbl (js_db st')) (accepted (js_mq st')) u req job (broker.lag (js_mq st') = 0)"

lemma created_rowI:
  assumes "job_filled (job_of_request u req) j" and "tbl (js_db st') (j_ID j) = Some r"
    and step: "j' = j \<and> r = j \<or> (\<exists>t. j' = j\<lparr>j_QueuedAt := Some t\<rparr> \<and> job_tracked j' r)
      \<and> (broker.lag (js_mq st') = 0 \<longrightarrow> job_in_broker (svc_marshal s) (accepted (js_mq st')) j)"
  shows "stored st' u req j'" and "j_ID j' = j_ID j"
proof -
  have step': "j' = j \<and> r = j \<or> (\<exists>t. j' = j\<lparr>j_QueuedAt := Some t\<rparr> \<and> job_tracked j' r)"
    using step by blast
  note fresh = filled_fresh_row [OF assms(1)]
  have "j_QueuedAt r = None \<or> (broker.lag (js_mq st') = 0 \<longrightarrow> job_in_broker (svc_marshal s) (accepted (js_mq st')) j)"
    using step fresh(2) by auto
  moreover have "fresh_row u req r" by (rule fresh_row_step [OF fresh(1) publish_stepI [OF step']])
  moreover show "j_ID j' = j_ID j" using step' by auto
  ultimately show "stored st' u req j'"
    using assms(2) stamped_tracked [OF step'] job_in_broker_step [OF publish_stepI [OF step']]
    unfolding created_row_def by (auto simp: unqueued_pending_def fresh_row_def)
qed

lemma CreateJobService_created:
  assumes "CreateJobService s req st = (st', Inr job)" and "broker.consistent (js_mq st)"
  shows "stored st' (cr_UserID req) req job \<and> tbl (js_db st) (j_ID job) = None
    \<and> (\<forall>k. k \<noteq> j_ID job \<longrightarrow> tbl (js_db st') k = tbl (js_db st) k)
    \<and> (j_QueuedAt job \<noteq> None \<longrightarrow> broker.lag (js_mq st') = broker.lag (js_mq st))"
proof -
  let ?j = "job_of_request (cr_UserID req) req"
  obtain db1 j err where c: "CreateJob (svc_repo s) ?j (js_db st) = (db1, Inr j)"
    and p: "publishJob s j (st\<lparr>js_db := db1\<rparr>) = (st', job, err)"
    using assms(1) by (auto simp: CreateJobService_def split: if_splits prod.splits sum.splits)
  note created = store.CreateJob_Inr [OF c]
  have row: "tbl db1 (j_ID j) = Some j" "job_live j"
    using created filled_fresh_row(1) [of "cr_UserID req" req j] by (auto simp: fresh_row_def)
  note after = publishJob_row [OF p, simplified, OF row] and mq = publishJob_broker [OF p, simplified, OF assms(2)]
  from after(1) obtain r where r: "tbl (js_db st') (j_ID j) = Some r"
    "job = j \<and> r = j \<or> err = None \<and> (\<exists>t. job = j\<lparr>j_QueuedAt := Some t\<rparr> \<and> job_tracked job r)" by blast
  have "job = j \<and> r = j \<or> (\<exists>t. job = j\<lparr>j_QueuedAt := Some t\<rparr> \<and> job_tracked job r)
      \<and> (broker.lag (js_mq st') = 0 \<longrightarrow> job_in_broker (svc_marshal s) (accepted (js_mq st')) j)"
    using r(2) mq by (elim disjE) simp_all
  note row' = created_rowI [OF _ r(1) this, of "cr_UserID req" req]
  have "err = None" if "j_QueuedAt job \<noteq> None"
    using that r(2) created filled_fresh_row(2) [of "cr_UserID req" req j] by auto
  with row' created after(2) mq show ?thesis by auto
qed

lemma CreateJobsService_created:
  assumes "CreateJobsService s reqs u st = (st', Inr jobs)" and "broker.consistent (js_mq st)"
  shows "list_all2 (stored st' u) reqs jobs \<and> distinct (map j_ID jobs)
    \<and> (\<forall>j\<in>set jobs. tbl (js_db st) (j_ID j) = None)
    \<and> (\<forall>k. k \<notin> j_ID ` set jobs \<longrightarrow> tbl (js_db st') k = tbl (js_db st) k)"
proof -
  obtain db1 js where c: "gorm_Create (svc_repo s) (js_db st) (map (job_of_request u) reqs) = (db1, Inr js)"
    and p: "publish_created s js (st\<lparr>js_db := db1\<rparr>) = (st', jobs)"
    using assms(1) by (auto simp: CreateJobsService_def CreateJobs_def split: if_splits prod.splits sum.splits)
  note created = store.create_fresh [OF c]
  have filled: "list_all2 (\<lambda>req j. job_filled (job_of_request u req) j) reqs js"
    using created(1) by (simp add: list_all2_conv_all_nth)
  have live: "job_live j" if "j \<in> set js" for j
    using filled that filled_fresh_row(1) [of u _ j] by (auto simp: fresh_row_def list_all2_conv_all_nth in_set_conv_nth)
  note rows = publish_created_rows [OF p, simplified, OF assms(2)]
  have all: "(\<forall>k. k \<notin> j_ID ` set js \<longrightarrow> tbl (js_db st') k = tbl db1 k)"
    and each: "list_all2 (\<lambda>j j'. \<exists>r. tbl (js_db st') (j_ID j) = Some r
        \<and> (j' = j \<and> r = j \<or> (\<exists>t. j' = j\<lparr>j_QueuedAt := Some t\<rparr> \<and> job_tracked j' r)
             \<and> (broker.lag (js_mq st') = 0 \<longrightarrow> job_in_broker (svc_marshal s) (accepted (js_mq st')) j))) js jobs"
    using rows created(2) store.create_new [OF c] live by auto
  have one: "stored st' u (reqs ! i) (jobs ! i) \<and> j_ID (jobs ! i) = j_ID (js ! i)" if i: "i < length js" for i
  proof -
    have "job_filled (job_of_request u (reqs ! i)) (js ! i)"
      using filled i by (simp add: list_all2_conv_all_nth)
    moreover from list_all2_nthD [OF each i] obtain r where r: "tbl (js_db st') (j_ID (js ! i)) = Some r
      \<and> (jobs ! i = js ! i \<and> r = js ! i \<or> (\<exists>t. jobs ! i = (js ! i)\<lparr>j_QueuedAt := Some t\<rparr> \<and> job_tracked (jobs ! i) r)
         \<and> (broker.lag (js_mq st') = 0 \<longrightarrow> job_in_broker (svc_marshal s) (accepted (js_mq st')) (js ! i)))"
      by (rule exE)
    ultimately show ?thesis using created_rowI [OF _ conjunct1 [OF r] conjunct2 [OF r]] by simp
  qed
  have len: "length reqs = length js" "length jobs = length js"
    using filled each by (auto dest: list_all2_lengthD)
  have ids: "map j_ID jobs = map j_ID js" using one len by (simp add: list_eq_iff_nth_eq)
  then have ids': "j_ID ` set jobs = j_ID ` set js" by (metis set_map)
  have "list_all2 (stored st' u) reqs jobs" using one len by (simp add: list_all2_conv_all_nth)
  moreover have "distinct (map j_ID jobs)" using ids created(2) by simp
  moreover have "\<forall>j\<in>set jobs. tbl (js_db st) (j_ID j) = None" using ids' created(3) by blast
  moreover have "\<forall>k. k \<notin> j_ID ` set jobs \<longrightarrow> tbl (js_db st') k = tbl (js_db st) k"
    using all store.create_other [OF c] unfolding ids' by simp
  ultimately show ?thesis by blast
qed

end

context jobs_service
begin

text \<open>The reconciler's sweep.\<close>

lemma RepublishStuckJobs_rows:
  assumes "RepublishStuckJobs s st = (st', None)" and "broker.consistent (js_mq st)"
    and cutoff: "cutoff = fst (time_Now (js_clock st)) - queuePublishGrace"
    and row: "tbl (js_db st) k = Some r"
  shows "\<exists>r'. tbl (js_db st') k = Some r' \<and> publish_step r r'
    \<and> (r' \<noteq> r \<longrightarrow> job_live r \<and> unqueued_pending cutoff r \<and>
         (broker.lag (js_mq st') = 0 \<longrightarrow> job_in_broker (svc_marshal s) (accepted (js_mq st')) r'))"
proof -
  obtain clk where now: "time_Now (js_clock st) = (cutoff + queuePublishGrace, clk)"
    using cutoff by (cases "time_Now (js_clock st)") simp
  obtain db1 stuck js' where g: "GetUnqueuedPendingJobs (svc_repo s) cutoff (js_db st) = (db1, Inr stuck)"
    and p: "publish_created s stuck (st\<lparr>js_db := db1, js_clock := clk\<rparr>) = (st', js')"
    using assms(1) now
    by (auto simp: RepublishStuckJobs_def republish_all_eq Let_def prod_eq_iff split: prod.splits sum.splits)
  note found = store.GetUnqueuedPendingJobs_Inr [OF g] and same = store.GetUnqueuedPendingJobs_frame [OF g]
  note rows = publish_created_rows [OF p, simplified, OF assms(2)]
  have other: "k \<notin> j_ID ` set stuck \<longrightarrow> tbl (js_db st') k = tbl db1 k"
    and each: "list_all2 (\<lambda>j j'. \<exists>r. tbl (js_db st') (j_ID j) = Some r
        \<and> (j' = j \<and> r = j \<or> (\<exists>t. j' = j\<lparr>j_QueuedAt := Some t\<rparr> \<and> job_tracked j' r)
             \<and> (broker.lag (js_mq st') = 0 \<longrightarrow> job_in_broker (svc_marshal s) (accepted (js_mq st')) j))) stuck js'"
    using rows found same by auto
  show ?thesis
  proof (cases "k \<in> j_ID ` set stuck")
    case True
    then obtain i where i: "i < length stuck" "k = j_ID (stuck ! i)" by (auto simp: in_set_conv_nth)
    then have "stuck ! i \<in> set stuck" by simp
    then have r: "r = stuck ! i" "job_live r" "unqueued_pending cutoff r" using found row i by auto
    from list_all2_nthD [OF each i(1)] obtain r' where r': "tbl (js_db st') k = Some r'
      \<and> (js' ! i = r \<and> r' = r \<or> (\<exists>t. js' ! i = r\<lparr>j_QueuedAt := Some t\<rparr> \<and> job_tracked (js' ! i) r')
         \<and> (broker.lag (js_mq st') = 0 \<longrightarrow> job_in_broker (svc_marshal s) (accepted (js_mq st')) r))"
      unfolding i(2) r(1) by (rule exE)
    then have step: "publish_step r r'" by (intro publish_stepI [of "js' ! i"]) blast
    with r' r(2,3) show ?thesis by (auto simp: job_in_broker_step [OF step])
  next
    case False
    with other same row show ?thesis by (auto simp: publish_step_def)
  qed
qed

lemma RepublishStuckJobs_no_new:
  assumes "RepublishStuckJobs s st = (st', None)" and "broker.consistent (js_mq st)"
    and "tbl (js_db st) k = None"
  shows "tbl (js_db st') k = None"
proof -
  obtain clk now db1 stuck js' where g: "GetUnqueuedPendingJobs (svc_repo s) (now - queuePublishGrace) (js_db st) = (db1, Inr stuck)"
    and p: "publish_created s stuck (st\<lparr>js_db := db1, js_clock := clk\<rparr>) = (st', js')"
    using assms(1)
    by (auto simp: RepublishStuckJobs_def republish_all_eq Let_def prod_eq_iff split: prod.splits sum.splits)
  note found = store.GetUnqueuedPendingJobs_Inr [OF g] and same = store.GetUnqueuedPendingJobs_frame [OF g]
  have "k \<notin> j_ID ` set stuck" using found assms(3) by auto
  with publish_created_rows [OF p, simplified, OF assms(2)] found same assms(3) show ?thesis by auto
qed

text \<open>Progress of the sweep, while the database and the broker serve every call.\<close>

lemma publish_created_progress:
  assumes broker_up: "\<And>mq q b d. mq_up mq \<Longrightarrow> \<exists>mq'. PublishDelayed (svc_mq s) q b d mq = (mq', None) \<and> mq_up mq'"
    and db_up: "\<And>db i t. up db \<Longrightarrow> \<exists>db'. MarkQueued (svc_repo s) i t db = (db', None) \<and> up db'"
    and marshals: "\<And>m. \<exists>b. svc_marshal s m = Inr b"
    and "publish_created s js st = (st', js')" and "up (js_db st)" and "mq_up (js_mq st)"
  shows "list_all2 (\<lambda>j j'. \<exists>t. j' = j\<lparr>j_QueuedAt := Some t\<rparr>) js js'"
  using assms(4-)
proof (induction js arbitrary: st js')
  case (Cons j js)
  obtain now clk where now: "time_Now (js_clock st) = (now, clk)" by (cases "time_Now (js_clock st)")
  obtain t clk' where t: "time_Now clk = (t, clk')" by (cases "time_Now clk")
  obtain b where b: "svc_marshal s (message_of j) = Inr b" using marshals by blast
  obtain mq' where mq': "PublishDelayed (svc_mq s) QueueJobs b (time_Sub (j_ScheduledAt j) now) (js_mq st) = (mq', None)" "mq_up mq'"
    using broker_up [OF Cons.prems(3)] by blast
  obtain db' where db': "MarkQueued (svc_repo s) (j_ID j) t (js_db st) = (db', None)" "up db'"
    using db_up [OF Cons.prems(2)] by blast
  have p: "publishJob s j st = (st\<lparr>js_db := db', js_mq := mq', js_clock := clk'\<rparr>, j\<lparr>j_QueuedAt := Some t\<rparr>, None)"
    by (simp add: publishJob_def b now mq' t db')
  obtain js1 where r: "publish_created s js (st\<lparr>js_db := db', js_mq := mq', js_clock := clk'\<rparr>) = (st', js1)"
    and js': "js' = j\<lparr>j_QueuedAt := Some t\<rparr> # js1"
    using Cons.prems(1) p by (auto split: prod.splits)
  from Cons.IH [OF r] db'(2) mq'(2) js' show ?case by auto
qed simp

end

context jobs_service
begin

lemma RepublishStuckJobs_progress:
  assumes broker_up: "\<And>mq q b d. mq_up mq \<Longrightarrow> \<exists>mq'. PublishDelayed (svc_mq s) q b d mq = (mq', None) \<and> mq_up mq'"
    and db_up: "\<And>db i t. up db \<Longrightarrow> \<exists>db'. MarkQueued (svc_repo s) i t db = (db', None) \<and> up db'"
    and find_up: "\<And>db t. up db \<Longrightarrow> \<exists>db' js. GetUnqueuedPendingJobs (svc_repo s) t db = (db', Inr js) \<and> up db'"
    and marshals: "\<And>m. \<exists>b. svc_marshal s m = Inr b"
    and "up (js_db st)" and "mq_up (js_mq st)" and sync: "broker.consistent (js_mq st)"
    and cutoff: "cutoff = fst (time_Now (js_clock st)) - queuePublishGrace"
  shows "\<exists>st'. RepublishStuckJobs s st = (st', None) \<and>
    (\<forall>k r. tbl (js_db st') k = Some r \<longrightarrow> job_live r \<longrightarrow> \<not> unqueued_pending cutoff r)"
proof -
  obtain now clk where now: "time_Now (js_clock st) = (now, clk)" by (cases "time_Now (js_clock st)")
  obtain db1 stuck where g: "GetUnqueuedPendingJobs (svc_repo s) cutoff (js_db st) = (db1, Inr stuck)" "up db1"
    using find_up [OF assms(5)] by blast
  obtain st' js' where p: "publish_created s stuck (st\<lparr>js_db := db1, js_clock := clk\<rparr>) = (st', js')"
    by (cases "publish_created s stuck (st\<lparr>js_db := db1, js_clock := clk\<rparr>)")
  have run: "RepublishStuckJobs s st = (st', None)"
    using now g p cutoff by (simp add: RepublishStuckJobs_def republish_all_eq)
  note found = store.GetUnqueuedPendingJobs_Inr [OF g(1)] and same = store.GetUnqueuedPendingJobs_frame [OF g(1)]
  have queued: "list_all2 (\<lambda>j j'. \<exists>t. j' = j\<lparr>j_QueuedAt := Some t\<rparr>) stuck js'"
    by (rule publish_created_progress [OF broker_up db_up marshals p]) (use g(2) assms(6) in simp_all)
  have rows: "list_all2 (\<lambda>j j'. \<exists>r. tbl (js_db st') (j_ID j) = Some r
        \<and> (j' = j \<and> r = j \<or> (\<exists>t. j' = j\<lparr>j_QueuedAt := Some t\<rparr> \<and> job_tracked j' r)
             \<and> (broker.lag (js_mq st') = 0 \<longrightarrow> job_in_broker (svc_marshal s) (accepted (js_mq st')) j))) stuck js'"
    using publish_created_rows [OF p, simplified, OF sync] found same by auto
  have "\<not> unqueued_pending cutoff r" if r: "tbl (js_db st') k = Some r" "job_live r" for k r
  proof
    assume stuck: "unqueued_pending cutoff r"
    obtain r0 where r0: "tbl (js_db st) k = Some r0"
      using RepublishStuckJobs_no_new [OF run sync, of k] r(1) by (cases "tbl (js_db st) k") auto
    have unq: "j_QueuedAt r = None" using stuck by (simp add: unqueued_pending_def)
    have "r = r0"
      using RepublishStuckJobs_rows [OF run sync refl r0] r(1) unq
      by (auto simp: publish_step_def dest: job_tracked_sel(12))
    then have "r \<in> set stuck" using found r0 r stuck store.key_tbl [OF r0] by auto
    then obtain i where i: "i < length stuck" "r = stuck ! i" by (auto simp: in_set_conv_nth)
    have k: "k = j_ID r" using store.key_tbl [OF r(1)] by simp
    from list_all2_nthD [OF queued i(1)] obtain t where t: "js' ! i = r\<lparr>j_QueuedAt := Some t\<rparr>"
      unfolding i(2) [symmetric] by (rule exE)
    then have "j_QueuedAt (js' ! i) = Some t" by simp
    with list_all2_nthD [OF rows i(1)] r(1) unq show False
      unfolding i(2) [symmetric] k by (auto dest: job_tracked_sel(12))
  qed
  with run show ?thesis by blast
qed

text \<open>Update and delete.\<close>

lemma UpdateJobService_spec:
  assumes "UpdateJobService s jid u req st = (st', res)"
  shows "js_mq st' = js_mq st" and "k \<noteq> jid \<Longrightarrow> tbl (js_db st') k = tbl (js_db st) k"
    and "res = Inl e \<Longrightarrow> tbl (js_db st') = tbl (js_db st)"
    and "res = Inr j \<Longrightarrow> \<exists>r r'. tbl (js_db st) jid = Some r \<and> job_live r \<and> j_UserID r = u
        \<and> \<not> too_many_retries (ur_MaxRetries req) \<and> j = apply_update req r
        \<and> tbl (js_db st') jid = Some r' \<and> job_tracked (job_nonzero_update j r) r'"
proof -
  obtain db1 g where g: "GetJobByID (svc_repo s) jid (js_db st) = (db1, g)" by (cases "GetJobByID (svc_repo s) jid (js_db st)")
  note same = store.GetJobByID_frame [OF g]
  let ?out = "js_mq st' = js_mq st \<and> (k \<noteq> jid \<longrightarrow> tbl (js_db st') k = tbl (js_db st) k)
    \<and> (res = Inl e \<longrightarrow> tbl (js_db st') = tbl (js_db st))
    \<and> (res = Inr j \<longrightarrow> (\<exists>r r'. tbl (js_db st) jid = Some r \<and> job_live r \<and> j_UserID r = u
        \<and> \<not> too_many_retries (ur_MaxRetries req) \<and> j = apply_update req r
        \<and> tbl (js_db st') jid = Some r' \<and> job_tracked (job_nonzero_update j r) r'))"
  have "?out"
  proof (cases "\<exists>r. g = Inr r \<and> j_UserID r = u \<and> \<not> too_many_retries (ur_MaxRetries req)")
    case True
    then obtain r where r: "g = Inr r" "j_UserID r = u" "\<not> too_many_retries (ur_MaxRetries req)" by blast
    note row = store.GetJobByID_Inr [OF g [unfolded r(1)]]
    obtain db2 h where h: "UpdateJob (svc_repo s) jid (apply_update req r) db1 = (db2, h)"
      by (cases "UpdateJob (svc_repo s) jid (apply_update req r) db1")
    have st': "st' = st\<lparr>js_db := db2\<rparr>" and res: "res = (case h of Inl x \<Rightarrow> Inl (job_err_wrap ErrToUpdateJob (gorm_error_text x)) | Inr x \<Rightarrow> Inr x)"
      using assms g r row h by (auto simp: UpdateJobService_def Let_def split: sum.splits)
    show ?thesis
    proof (cases h)
      case (Inl x)
      with st' res h same show ?thesis by (auto dest: store.UpdateJob_Inl)
    next
      case (Inr x)
      have "tbl db1 jid = Some r" using row same by simp
      from store.UpdateJob_Inr [OF h [unfolded Inr] this] row
      have "x = apply_update req r" "\<exists>r'. tbl db2 jid = Some r' \<and> job_tracked (job_nonzero_update (apply_update req r) r) r'"
        by auto
      with Inr st' res row r same store.UpdateJob_other [OF h, of k] show ?thesis by auto
    qed
  next
    case False
    then have "js_mq st' = js_mq st \<and> js_db st' = db1 \<and> (\<exists>x. res = Inl x)"
      using assms g by (auto simp: UpdateJobService_def Let_def split: sum.splits gorm_error.splits if_splits)
    with same show ?thesis by auto
  qed
  then show "js_mq st' = js_mq st" and "k \<noteq> jid \<Longrightarrow> tbl (js_db st') k = tbl (js_db st) k"
    and "res = Inl e \<Longrightarrow> tbl (js_db st') = tbl (js_db st)"
    and "res = Inr j \<Longrightarrow> \<exists>r r'. tbl (js_db st) jid = Some r \<and> job_live r \<and> j_UserID r = u
        \<and> \<not> too_many_retries (ur_MaxRetries req) \<and> j = apply_update req r
        \<and> tbl (js_db st') jid = Some r' \<and> job_tracked (job_nonzero_update j r) r'"
    by blast+
qed

lemma DeleteJobService_spec:
  assumes "DeleteJobService s jid u st = (st', err)"
  shows "js_mq st' = js_mq st" and "k \<noteq> jid \<Longrightarrow> tbl (js_db st') k = tbl (js_db st) k"
    and "err = Some e \<Longrightarrow> tbl (js_db st') = tbl (js_db st)"
    and "err = None \<Longrightarrow> \<exists>r r'. tbl (js_db st) jid = Some r \<and> job_live r \<and> j_UserID r = u
        \<and> tbl (js_db st') jid = Some r' \<and> job_marked r r'"
proof -
  obtain db1 g where g: "GetJobByID (svc_repo s) jid (js_db st) = (db1, g)" by (cases "GetJobByID (svc_repo s) jid (js_db st)")
  note same = store.GetJobByID_frame [OF g]
  have "js_mq st' = js_mq st \<and> (k \<noteq> jid \<longrightarrow> tbl (js_db st') k = tbl (js_db st) k)
    \<and> (err = Some e \<longrightarrow> tbl (js_db st') = tbl (js_db st))
    \<and> (err = None \<longrightarrow> (\<exists>r r'. tbl (js_db st) jid = Some r \<and> job_live r \<and> j_UserID r = u
        \<and> tbl (js_db st') jid = Some r' \<and> job_marked r r'))"
  proof (cases "\<exists>r. g = Inr r \<and> j_UserID r = u")
    case True
    then obtain r where r: "g = Inr r" "j_UserID r = u" by blast
    note row = store.GetJobByID_Inr [OF g [unfolded r(1)]]
    obtain db2 h where h: "DeleteJob (svc_repo s) jid db1 = (db2, h)" by (cases "DeleteJob (svc_repo s) jid db1")
    have st': "st' = st\<lparr>js_db := db2\<rparr>" and err: "err = map_option (\<lambda>x. job_err_wrap ErrToDeleteJob (gorm_error_text x)) h"
      using assms g r row h by (auto simp: DeleteJobService_def split: option.splits)
    have row1: "tbl db1 jid = Some r" using row same by simp
    show ?thesis
      using st' err row row1 r same store.DeleteJob_other [OF h, of k] h
        store.DeleteJob_None [of jid db1 db2 r] store.DeleteJob_Some [of jid db1 db2]
      by (cases h) auto
  next
    case False
    then have "js_mq st' = js_mq st \<and> js_db st' = db1 \<and> (\<exists>x. err = Some x)"
      using assms g by (auto simp: DeleteJobService_def split: sum.splits gorm_error.splits if_splits)
    with same show ?thesis by auto
  qed
  then show "js_mq st' = js_mq st" and "k \<noteq> jid \<Longrightarrow> tbl (js_db st') k = tbl (js_db st) k"
    and "err = Some e \<Longrightarrow> tbl (js_db st') = tbl (js_db st)"
    and "err = None \<Longrightarrow> \<exists>r r'. tbl (js_db st) jid = Some r \<and> job_live r \<and> j_UserID r = u
        \<and> tbl (js_db st') jid = Some r' \<and> job_marked r r'"
    by blast+
qed

text \<open>A stranger's request is refused with one of two errors.\<close>

lemma not_owner_errors:
  assumes "tbl (js_db st) jid = Some r" and "job_live r" and "j_UserID r \<noteq> u"
  shows "\<exists>e. snd (UpdateJobService s jid u req st) = Inl e \<and> wrapped e \<in> {ErrUnauthorized, ErrToGetJob}"
    and "\<exists>e. snd (DeleteJobService s jid u st) = Some e \<and> wrapped e \<in> {ErrUnauthorized, ErrToGetJob}"
proof -
  obtain db1 g where g: "GetJobByID (svc_repo s) jid (js_db st) = (db1, g)" by (cases "GetJobByID (svc_repo s) jid (js_db st)")
  have "g \<noteq> Inl ErrRecordNotFound" using store.GetJobByID_not_found [of jid "js_db st" db1 r] g assms by blast
  moreover have "x = r" if "g = Inr x" for x using store.GetJobByID_Inr [of jid "js_db st" db1 x] g that assms(1) by simp
  ultimately show "\<exists>e. snd (UpdateJobService s jid u req st) = Inl e \<and> wrapped e \<in> {ErrUnauthorized, ErrToGetJob}"
    and "\<exists>e. snd (DeleteJobService s jid u st) = Some e \<and> wrapped e \<in> {ErrUnauthorized, ErrToGetJob}"
    using g assms(3)
    by (auto simp: UpdateJobService_def DeleteJobService_def job_err_def job_err_wrap_def split: sum.splits gorm_error.splits)
qed

end

context jobs_service
begin

lemma CreateJobService_sync:
  assumes "seen (js_mq st) = length (sent (js_mq st))" and "CreateJobService s req st = (st', res)"
  shows "(\<forall>job. res = Inr job \<longrightarrow>
        created_row (svc_marshal s) (tbl (js_db st')) (accepted (js_mq st')) (cr_UserID req) req job True
      \<and> tbl (js_db st) (j_ID job) = None
      \<and> (\<forall>k. k \<noteq> j_ID job \<longrightarrow> tbl (js_db st') k = tbl (js_db st) k))
    \<and> (\<forall>e. res = Inl e \<longrightarrow> tbl (js_db st') = tbl (js_db st) \<and> js_mq st' = js_mq st)"
proof (cases res)
  case (Inl e)
  with assms(2) show ?thesis
    by (auto simp: CreateJobService_def split: if_splits prod.splits sum.splits dest: store.CreateJob_Inl)
next
  case (Inr job)
  have sync: "broker.consistent (js_mq st)" "broker.lag (js_mq st) = 0"
    using assms(1) by (simp_all add: broker.lag_def broker.consistent_def)
  note created = CreateJobService_created [OF assms(2) [unfolded Inr] sync(1)]
  then obtain r where r: "tbl (js_db st') (j_ID job) = Some r" "job_tracked job r"
    unfolding created_row_def by blast
  have "j_QueuedAt r = j_QueuedAt job" using r(2) by (rule job_tracked_sel)
  with created sync(2) r(1) Inr show ?thesis unfolding created_row_def by auto
qed

lemma CreateJobsService_sync:
  assumes "seen (js_mq st) = length (sent (js_mq st))" and "CreateJobsService s reqs u st = (st', res)"
  shows "(\<forall>jobs. res = Inr jobs \<longrightarrow>
        list_all2 (\<lambda>req job. created_row (svc_marshal s) (tbl (js_db st')) (accepted (js_mq st')) u req job
            (seen (js_mq st') = length (sent (js_mq st')))) reqs jobs
      \<and> distinct (map j_ID jobs) \<and> (\<forall>j\<in>set jobs. tbl (js_db st) (j_ID j) = None)
      \<and> (\<forall>k. k \<notin> j_ID ` set jobs \<longrightarrow> tbl (js_db st') k = tbl (js_db st) k))
    \<and> (\<forall>e. res = Inl e \<longrightarrow> tbl (js_db st') = tbl (js_db st) \<and> js_mq st' = js_mq st)
    \<and> ((\<exists>r\<in>set reqs. too_many_retries (cr_MaxRetries r)) \<longrightarrow> res = Inl max_retries_error)"
proof -
  have many: "(\<exists>r\<in>set reqs. too_many_retries (cr_MaxRetries r)) \<longrightarrow> res = Inl max_retries_error"
    using assms(2) by (auto simp: CreateJobsService_def list_ex_iff split: if_splits)
  show ?thesis
  proof (cases res)
    case (Inl e)
    with assms(2) many show ?thesis
      by (auto simp: CreateJobsService_def CreateJobs_def split: if_splits prod.splits sum.splits dest: store.create_Inl)
  next
    case (Inr jobs)
    have sync: "broker.consistent (js_mq st)" using assms(1) by (rule broker.sync_consistent)
    note created = CreateJobsService_created [OF assms(2) [unfolded Inr] sync]
    have "broker.consistent (js_mq st')"
      using assms(2) Inr sync publish_created_broker
      by (auto simp: CreateJobsService_def split: if_splits prod.splits sum.splits)
    with created many Inr show ?thesis by (simp add: broker.sync_iff)
  qed
qed

end

context jobs_service
begin

lemma RepublishStuckJobs_sync:
  assumes "seen (js_mq st) = length (sent (js_mq st))" and "RepublishStuckJobs s st = (st', None)"
  shows "(tbl (js_db st') k = None \<longleftrightarrow> tbl (js_db st) k = None)
    \<and> (\<forall>r. tbl (js_db st) k = Some r \<longrightarrow> (\<exists>r'. tbl (js_db st') k = Some r' \<and> publish_step r r'
        \<and> (r' \<noteq> r \<longrightarrow> job_live r \<and> unqueued_pending (shd (js_clock st) - 2 * Minute) r
             \<and> (seen (js_mq st') = length (sent (js_mq st')) \<longrightarrow>
                  job_in_broker (svc_marshal s) (accepted (js_mq st')) r'))))"
proof -
  have sync: "broker.consistent (js_mq st)" using assms(1) by (rule broker.sync_consistent)
  have cutoff: "shd (js_clock st) - 2 * Minute = fst (time_Now (js_clock st)) - queuePublishGrace"
    by (simp add: time_Now_def queuePublishGrace_def)
  note rows = RepublishStuckJobs_rows [OF assms(2) sync cutoff]
  have lag: "seen (js_mq st') = length (sent (js_mq st')) \<longrightarrow> broker.lag (js_mq st') = 0"
    by (simp add: broker.lag_def)
  show ?thesis
  proof (cases "tbl (js_db st) k")
    case None
    with RepublishStuckJobs_no_new [OF assms(2) sync None] show ?thesis by simp
  next
    case (Some r)
    with rows [OF Some] lag show ?thesis by auto
  qed
qed

lemma RepublishStuckJobs_up:
  assumes "seen (js_mq st) = length (sent (js_mq st))"
    and "\<And>mq q b d. mq_up mq \<Longrightarrow> \<exists>mq'. PublishDelayed (svc_mq s) q b d mq = (mq', None) \<and> mq_up mq'"
    and "\<And>db i t. up db \<Longrightarrow> \<exists>db'. MarkQueued (svc_repo s) i t db = (db', None) \<and> up db'"
    and "\<And>db t. up db \<Longrightarrow> \<exists>db' js. GetUnqueuedPendingJobs (svc_repo s) t db = (db', Inr js) \<and> up db'"
    and "\<And>m. \<exists>b. svc_marshal s m = Inr b"
    and "up (js_db st)" and "mq_up (js_mq st)"
  shows "\<exists>st'. RepublishStuckJobs s st = (st', None) \<and>
    (\<forall>k r. tbl (js_db st') k = Some r \<longrightarrow> job_live r \<longrightarrow> \<not> unqueued_pending (shd (js_clock st) - 2 * Minute) r)"
proof -
  have cutoff: "shd (js_clock st) - 2 * Minute = fst (time_Now (js_clock st)) - queuePublishGrace"
    by (simp add: time_Now_def queuePublishGrace_def)
  from assms(1) have sync: "broker.consistent (js_mq st)" by (rule broker.sync_consistent)
  show ?thesis by (rule RepublishStuckJobs_progress [OF assms(2-7) sync cutoff])
qed

end

section \<open>The service over the reference store and broker\<close>

definition mem_service :: "(Job mem_db, ref_broker) JobsService" where
  "mem_service = \<lparr>svc_repo = mem_jobs, svc_mq = ref_amqp, svc_marshal = (\<lambda>m. Inr (m_ID m))\<rparr>"

interpretation mem_service: jobs_service mem_service "mem_tbl j_ID" rb_sent rb_seen rb_accepted
  unfolding jobs_service_def mem_service_def
  by (simp add: mem_jobs.jobs_store_axioms ref.amqp_confirms_axioms)

definition mem_state :: "Job list \<Rightarrow> (Job mem_db, ref_broker) jobs_state" where
  "mem_state js = \<lparr>js_db = no_jobs\<lparr>mem_rows := js\<rparr>, js_mq = rb_init, js_clock = sconst (5 * Minute)\<rparr>"

definition plain_request :: "string \<Rightarrow> CreateJobRequest" where
  "plain_request u = \<lparr>cr_UserID = u, cr_Type = JobEmail, cr_Payload = None, cr_Priority = None,
     cr_MaxRetries = None, cr_ScheduledAt = None\<rparr>"

definition plain_job :: "string \<Rightarrow> string \<Rightarrow> Job" where
  "plain_job i u = zeroJob\<lparr>j_ID := i, j_UserID := u, j_Type := JobEmail, j_Status := JobStatusPending,
     j_Priority := 5, j_MaxRetries := 3\<rparr>"

lemmas service_eval = mem_service_def mem_state_def plain_request_def plain_job_def mem_jobs_def no_jobs_def
  publishJob_def repo_defs mem_defs publish_eval message_of_def zeroJob_def job_constants job_of_request_def
  too_many_retries_def job_live_def QueueJobs_def job_defaults_def time_Now_def time_Sub_def zeroTime_def

lemma mem_service_sel [simp]:
  "svc_repo mem_service = mem_jobs" "svc_mq mem_service = ref_amqp" "svc_marshal mem_service = (\<lambda>m. Inr (m_ID m))"
  "js_mq (mem_state js) = rb_init" "mem_rows (js_db (mem_state js)) = js" "cr_UserID (plain_request u) = u"
  "shd (js_clock (mem_state js)) = 5 * Minute" "mem_faults (js_db (mem_state js)) = []"
  by (simp_all add: mem_service_def mem_state_def plain_request_def no_jobs_def)

lemma plain_job_sel [simp]: "j_ID (plain_job i u) = i" "j_UserID (plain_job i u) = u" "j_MaxRetries (plain_job i u) = 3"
  by (simp_all add: plain_job_def)

lemma mem_state_sync: "rb_seen (js_mq (mem_state js)) = length (rb_sent (js_mq (mem_state js)))"
  by (simp add: rb_init_def)

section \<open>Properties\<close>



text \<open>
  C11. \<^verbatim>\<open>CreateJobsService\<close> is all or nothing on the database: an error changes no row and publishes
  nothing, and one request with more than 10 retries is enough for that; a success stores one new row per request, in order, with distinct
  new ids, all owned by the caller, each queued or eligible for the reconciler as for a single job (the
  broker's part for the rows stamped as queued, when no confirmation is outstanding at the end).
\<close>

theorem create_jobs_all_or_nothing:
  assumes "jobs_service s tbl sent seen accepted" and "seen (js_mq st) = length (sent (js_mq st))"
    and "CreateJobsService s reqs u st = (st', res)"
  shows "(\<forall>jobs. res = Inr jobs \<longrightarrow>
        list_all2 (\<lambda>req job. created_row (svc_marshal s) (tbl (js_db st')) (accepted (js_mq st')) u req job
            (seen (js_mq st') = length (sent (js_mq st')))) reqs jobs
      \<and> distinct (map j_ID jobs) \<and> (\<forall>j\<in>set jobs. tbl (js_db st) (j_ID j) = None)
      \<and> (\<forall>k. k \<notin> j_ID ` set jobs \<longrightarrow> tbl (js_db st') k = tbl (js_db st) k))
    \<and> (\<forall>e. res = Inl e \<longrightarrow> tbl (js_db st') = tbl (js_db st) \<and> js_mq st' = js_mq st)
    \<and> ((\<exists>r\<in>set reqs. too_many_retries (cr_MaxRetries r)) \<longrightarrow> res = Inl max_retries_error)"
  using jobs_service.CreateJobsService_sync [OF assms] by blast

theorem create_jobs_all_or_nothing_witness:
  "distinct (map j_ID (projr (snd (CreateJobsService mem_service [plain_request ''x'', plain_request ''y''] ''ann'' (mem_state [])))))
   \<and> length (projr (snd (CreateJobsService mem_service [plain_request ''x'', plain_request ''y''] ''ann'' (mem_state [])))) = 2"
proof -
  obtain st' jobs where run: "CreateJobsService mem_service [plain_request ''x'', plain_request ''y''] ''ann'' (mem_state []) = (st', Inr jobs)"
    by (simp add: CreateJobsService_def service_eval)
  from create_jobs_all_or_nothing [OF mem_service.jobs_service_axioms mem_state_sync run]
  have "distinct (map j_ID jobs) \<and> length jobs = 2" by (auto dest: list_all2_lengthD)
  then show ?thesis by (simp add: run)
qed




definition rb_up :: "ref_broker \<Rightarrow> bool" where
  "rb_up b \<longleftrightarrow> rb_failures b = 0 \<and> rb_nacked b = [] \<and> rb_waits b = [] \<and> rb_seen b \<le> length (rb_sent b)"

lemma rb_up_publish:
  assumes "rb_up mq"
  shows "\<exists>mq'. PublishDelayed ref_amqp q b d mq = (mq', None) \<and> rb_up mq'"
  using assms by (auto simp: rb_up_def PublishDelayed_def await_confirm_def ref_amqp_def rb_call_def rb_await_def
      rb_receive_def Let_def)

lemma mem_up_calls:
  assumes "mem_faults db = []"
  shows "\<exists>db'. MarkQueued mem_jobs i t db = (db', None) \<and> mem_faults db' = []"
    and "\<exists>db' js. GetUnqueuedPendingJobs mem_jobs t db = (db', Inr js) \<and> mem_faults db' = []"
  using assms by (auto simp: MarkQueued_def GetUnqueuedPendingJobs_def mem_jobs_def mem_gorm_def mem_call_def
      mem_updates_def Let_def list_all_iff)


text \<open>
  C29. An update never publishes and never touches another row. It succeeds only for the owner of a live job and at most 10
  retries; the caller gets the row with the request's fields applied, and the stored row takes the
  non-zero fields of that answer. A failure changes no row.
\<close>

theorem update_job_effect:
  assumes "jobs_service s tbl sent seen accepted" and "UpdateJobService s jid u req st = (st', res)"
  shows "js_mq st' = js_mq st \<and> (\<forall>k. k \<noteq> jid \<longrightarrow> tbl (js_db st') k = tbl (js_db st) k)
    \<and> (\<forall>e. res = Inl e \<longrightarrow> tbl (js_db st') = tbl (js_db st))
    \<and> (\<forall>j. res = Inr j \<longrightarrow> (\<exists>r r'. tbl (js_db st) jid = Some r \<and> job_live r \<and> j_UserID r = u
        \<and> \<not> too_many_retries (ur_MaxRetries req) \<and> j = apply_update req r
        \<and> tbl (js_db st') jid = Some r' \<and> job_tracked (job_nonzero_update j r) r'))"
  using jobs_service.UpdateJobService_spec [OF assms] by blast

definition retry_update :: "int \<Rightarrow> UpdateJobRequest" where
  "retry_update n = \<lparr>ur_UserID = '''', ur_Type = '''', ur_Payload = None, ur_Priority = None,
     ur_MaxRetries = Some n, ur_ScheduledAt = None\<rparr>"

lemma retry_update_sel [simp]: "ur_MaxRetries (retry_update n) = Some n" "ur_Priority (retry_update n) = None"
  by (simp_all add: retry_update_def)

theorem update_job_effect_witness:
  "\<exists>r'. mem_tbl j_ID (js_db (fst (UpdateJobService mem_service ''j1'' ''ann'' (retry_update 7)
      (mem_state [plain_job ''j1'' ''ann''])))) ''j1'' = Some r' \<and> j_MaxRetries r' = 7"
proof -
  obtain st' j where run: "UpdateJobService mem_service ''j1'' ''ann'' (retry_update 7) (mem_state [plain_job ''j1'' ''ann'']) = (st', Inr j)"
    by (simp add: UpdateJobService_def service_eval retry_update_def apply_update_def job_nonzero_update_def nz_def)
  from update_job_effect [OF mem_service.jobs_service_axioms run]
  obtain r r' where "j = apply_update (retry_update 7) r" "mem_tbl j_ID (js_db st') ''j1'' = Some r'"
    "job_tracked (job_nonzero_update j r) r'" by blast
  then show ?thesis
    using job_tracked_sel(9) [of "job_nonzero_update j r" r'] by (simp add: run nz_def)
qed

text \<open>
  An update that asks for 0 retries or priority 0 is answered with a job that shows the 0, while the
  stored row keeps its old number.
\<close>

theorem update_zero_not_stored:
  assumes "jobs_service s tbl sent seen accepted" and "UpdateJobService s jid u req st = (st', Inr j)"
  shows "\<exists>r r'. tbl (js_db st) jid = Some r \<and> tbl (js_db st') jid = Some r'
    \<and> (ur_MaxRetries req = Some 0 \<longrightarrow> j_MaxRetries j = 0 \<and> j_MaxRetries r' = j_MaxRetries r)
    \<and> (ur_Priority req = Some 0 \<longrightarrow> j_Priority j = 0 \<and> j_Priority r' = j_Priority r)"
proof -
  from jobs_service.UpdateJobService_spec(4) [OF assms refl] obtain r r' where
    r: "tbl (js_db st) jid = Some r" "tbl (js_db st') jid = Some r'" "j = apply_update req r"
      "job_tracked (job_nonzero_update j r) r'" by blast
  have "j_MaxRetries r' = nz 0 (j_MaxRetries j) (j_MaxRetries r)" "j_Priority r' = nz 0 (j_Priority j) (j_Priority r)"
    using r(4) by (auto dest: job_tracked_sel)
  with r(1-3) show ?thesis by (auto simp: nz_def)
qed

theorem update_zero_not_stored_witness:
  "\<exists>r'. mem_tbl j_ID (js_db (fst (UpdateJobService mem_service ''j1'' ''ann'' (retry_update 0)
      (mem_state [plain_job ''j1'' ''ann''])))) ''j1'' = Some r' \<and> j_MaxRetries r' = 3"
proof -
  obtain st' j where run: "UpdateJobService mem_service ''j1'' ''ann'' (retry_update 0) (mem_state [plain_job ''j1'' ''ann'']) = (st', Inr j)"
    by (simp add: UpdateJobService_def service_eval retry_update_def apply_update_def job_nonzero_update_def nz_def)
  have "mem_tbl j_ID (js_db (mem_state [plain_job ''j1'' ''ann''])) ''j1'' = Some (plain_job ''j1'' ''ann'')"
    by (simp add: mem_tbl_def plain_job_def)
  with update_zero_not_stored [OF mem_service.jobs_service_axioms run] show ?thesis
    by (auto simp: run)
qed

text \<open>
  A delete never publishes and touches at most the one row; it succeeds exactly when it has marked a live job of
  the caller as deleted (the row stays, every other field unchanged), and a failure changes nothing.
\<close>

theorem delete_job_effect:
  assumes "jobs_service s tbl sent seen accepted" and "DeleteJobService s jid u st = (st', err)"
  shows "js_mq st' = js_mq st \<and> (\<forall>k. k \<noteq> jid \<longrightarrow> tbl (js_db st') k = tbl (js_db st) k)
    \<and> (\<forall>e. err = Some e \<longrightarrow> tbl (js_db st') = tbl (js_db st))
    \<and> (err = None \<longrightarrow> (\<exists>r r'. tbl (js_db st) jid = Some r \<and> job_live r \<and> j_UserID r = u
        \<and> tbl (js_db st') jid = Some r' \<and> job_marked r r'))"
  using jobs_service.DeleteJobService_spec [OF assms] by blast

theorem delete_job_effect_witness:
  "\<exists>r'. mem_tbl j_ID (js_db (fst (DeleteJobService mem_service ''j1'' ''ann'' (mem_state [plain_job ''j1'' ''ann''])))) ''j1'' = Some r'
     \<and> \<not> job_live r'"
proof -
  obtain st' where run: "DeleteJobService mem_service ''j1'' ''ann'' (mem_state [plain_job ''j1'' ''ann'']) = (st', None)"
    by (simp add: DeleteJobService_def service_eval)
  from delete_job_effect [OF mem_service.jobs_service_axioms run] show ?thesis
    by (auto simp: run job_marked_def job_live_def)
qed

text \<open>
  A user who does not own a live job can neither change nor delete it: both requests fail, as
  unauthorized or with the database's read error, and no row of the table changes.
\<close>

theorem stranger_cannot_touch_job:
  assumes "jobs_service s tbl sent seen accepted" and "tbl (js_db st) jid = Some r" and "job_live r" and "j_UserID r \<noteq> u"
  shows "(\<exists>e. snd (UpdateJobService s jid u req st) = Inl e \<and> wrapped e \<in> {ErrUnauthorized, ErrToGetJob})
    \<and> (\<exists>e. snd (DeleteJobService s jid u st) = Some e \<and> wrapped e \<in> {ErrUnauthorized, ErrToGetJob})
    \<and> tbl (js_db (fst (UpdateJobService s jid u req st))) = tbl (js_db st)
    \<and> tbl (js_db (fst (DeleteJobService s jid u st))) = tbl (js_db st)"
proof -
  note err = jobs_service.not_owner_errors [OF assms]
  from err jobs_service.UpdateJobService_spec(3) [OF assms(1) surjective_pairing]
    jobs_service.DeleteJobService_spec(3) [OF assms(1) surjective_pairing] show ?thesis by blast
qed

theorem stranger_cannot_touch_job_witness:
  "\<exists>e. snd (DeleteJobService mem_service ''j1'' ''bob'' (mem_state [plain_job ''j1'' ''ann''])) = Some e"
proof -
  have "mem_tbl j_ID (js_db (mem_state [plain_job ''j1'' ''ann''])) ''j1'' = Some (plain_job ''j1'' ''ann'')"
    and "job_live (plain_job ''j1'' ''ann'')" and "j_UserID (plain_job ''j1'' ''ann'') \<noteq> ''bob''"
    by (simp_all add: mem_tbl_def plain_job_def job_live_def zeroJob_def)
  from stranger_cannot_touch_job [OF mem_service.jobs_service_axioms this, of "retry_update 1"] show ?thesis by blast
qed

end
