(* ===== verification/Jobs_Handler.thy ===== *)
theory Jobs_Handler
  imports Jobs_Service Httpx
begin

text \<open>
  The HTTP side of the jobs package, \<^verbatim>\<open>internal/jobs/handler.go\<close>. A handler takes the request body, the request context and the state, and returns the state with
  the response. The JSON decoder is a parameter that gives the decoded body or nothing. The identity of the caller is what the authentication
  middleware left in the context.
\<close>

section \<open>Handlers\<close>

definition msgJobIDRequired :: string where "msgJobIDRequired = ''job id is required''"

definition create_error :: "job_sentinel \<Rightarrow> job_error \<Rightarrow> 'd response" where
  "create_error fallback err =
     (if wrapped err = ErrInvalidJobInput then Error StatusBadRequest (error_text err)
      else Error StatusInternalServerError (job_sentinel_text fallback))"

definition CreateJob_handler ::
  "(string \<Rightarrow> CreateJobRequest option) \<Rightarrow> ('db, 'mq) JobsService \<Rightarrow> string \<Rightarrow> gin_context \<Rightarrow> ('db, 'mq) jobs_state \<Rightarrow>
   ('db, 'mq) jobs_state \<times> Job response"
where
  "CreateJob_handler dec s body c st = (case dec body of
       None \<Rightarrow> (st, Error StatusBadRequest MsgInvalidBody)
     | Some req \<Rightarrow> (case UserIDFromContext c of
         (userID, False) \<Rightarrow> (st, Error StatusUnauthorized MsgUnauthorized)
       | (userID, True) \<Rightarrow> (case CreateJobService s (req\<lparr>cr_UserID := userID\<rparr>) st of
           (st', Inl err) \<Rightarrow> (st', create_error ErrToCreateJob err)
         | (st', Inr job) \<Rightarrow> (st', Success StatusOK ''job created'' (Some job)))))"

definition CreateJobs_handler ::
  "(string \<Rightarrow> CreateJobRequest list option) \<Rightarrow> ('db, 'mq) JobsService \<Rightarrow> string \<Rightarrow> gin_context \<Rightarrow> ('db, 'mq) jobs_state \<Rightarrow>
   ('db, 'mq) jobs_state \<times> Job list response"
where
  "CreateJobs_handler dec s body c st = (case dec body of
       None \<Rightarrow> (st, Error StatusBadRequest MsgInvalidBody)
     | Some reqs \<Rightarrow> (case UserIDFromContext c of
         (userID, False) \<Rightarrow> (st, Error StatusUnauthorized MsgUnauthorized)
       | (userID, True) \<Rightarrow> (case CreateJobsService s reqs userID st of
           (st', Inl err) \<Rightarrow> (st', create_error ErrToCreateJobs err)
         | (st', Inr js) \<Rightarrow> (st', Success StatusOK ''jobs created'' (Some js)))))"

definition GetJobById_handler ::
  "('db, 'mq) JobsService \<Rightarrow> gin_context \<Rightarrow> ('db, 'mq) jobs_state \<Rightarrow> ('db, 'mq) jobs_state \<times> Job response"
where
  "GetJobById_handler s c st = (let jid = gc_Param c ''id'' in
     if jid = '''' then (st, Error StatusBadRequest msgJobIDRequired)
     else (case GetJobByIdService s jid st of
         (st', Inl err) \<Rightarrow> (st',
            if wrapped err = ErrJobNotFound then Error StatusNotFound (job_sentinel_text ErrJobNotFound)
            else if wrapped err = ErrInvalidJobInput then Error StatusBadRequest (error_text err)
            else Error StatusInternalServerError (job_sentinel_text ErrToGetJob))
       | (st', Inr job) \<Rightarrow> (st', Success StatusOK ''job fetched'' (Some job))))"

definition GetAllJobs_handler ::
  "('db, 'mq) JobsService \<Rightarrow> gin_context \<Rightarrow> ('db, 'mq) jobs_state \<Rightarrow> ('db, 'mq) jobs_state \<times> Job list response"
where
  "GetAllJobs_handler s c st = (case UserIDFromContext c of
       (userID, False) \<Rightarrow> (st, Error StatusUnauthorized MsgUnauthorized)
     | (userID, True) \<Rightarrow> (case GetAllJobsService s userID st of
         (st', Inl err) \<Rightarrow> (st',
            if wrapped err = ErrJobNotFound then Error StatusNotFound (job_sentinel_text ErrJobNotFound)
            else Error StatusInternalServerError (job_sentinel_text ErrToGetAllJobs))
       | (st', Inr js) \<Rightarrow> (st', Success StatusOK ''jobs fetched'' (Some js))))"

definition UpdateJob_handler ::
  "(string \<Rightarrow> UpdateJobRequest option) \<Rightarrow> ('db, 'mq) JobsService \<Rightarrow> string \<Rightarrow> gin_context \<Rightarrow> ('db, 'mq) jobs_state \<Rightarrow>
   ('db, 'mq) jobs_state \<times> Job response"
where
  "UpdateJob_handler dec s body c st = (let jid = gc_Param c ''id'' in
     if jid = '''' then (st, Error StatusBadRequest msgJobIDRequired)
     else (case dec body of
       None \<Rightarrow> (st, Error StatusBadRequest MsgInvalidBody)
     | Some req \<Rightarrow> (case UserIDFromContext c of
         (userID, False) \<Rightarrow> (st, Error StatusUnauthorized MsgUnauthorized)
       | (userID, True) \<Rightarrow> (case UpdateJobService s jid userID req st of
           (st', Inl err) \<Rightarrow> (st',
              if wrapped err = ErrJobNotFound then Error StatusNotFound (job_sentinel_text ErrJobNotFound)
              else if wrapped err = ErrInvalidJobInput then Error StatusBadRequest (error_text err)
              else if wrapped err = ErrUnauthorized then Error StatusForbidden (job_sentinel_text ErrUnauthorized)
              else Error StatusInternalServerError (job_sentinel_text ErrToUpdateJob))
         | (st', Inr job) \<Rightarrow> (st', Success StatusOK ''job updated'' (Some job))))))"

definition DeleteJob_handler ::
  "('db, 'mq) JobsService \<Rightarrow> gin_context \<Rightarrow> ('db, 'mq) jobs_state \<Rightarrow> ('db, 'mq) jobs_state \<times> unit response"
where
  "DeleteJob_handler s c st = (let jid = gc_Param c ''id'' in
     if jid = '''' then (st, Error StatusBadRequest msgJobIDRequired)
     else (case UserIDFromContext c of
         (userID, False) \<Rightarrow> (st, Error StatusUnauthorized MsgUnauthorized)
       | (userID, True) \<Rightarrow> (case DeleteJobService s jid userID st of
           (st', Some err) \<Rightarrow> (st',
              if wrapped err = ErrJobNotFound then Error StatusNotFound (job_sentinel_text ErrJobNotFound)
              else if wrapped err = ErrUnauthorized then Error StatusForbidden (job_sentinel_text ErrUnauthorized)
              else Error StatusInternalServerError (job_sentinel_text ErrToDeleteJob))
         | (st', None) \<Rightarrow> (st', Success StatusOK ''job deleted'' None))))"

section \<open>Facts\<close>

definition caller_context :: "string \<Rightarrow> string \<Rightarrow> gin_context" where
  "caller_context userID jid = \<lparr>gc_Keys = [ctxUserID \<mapsto> CtxString userID], gc_Header = (\<lambda>h. ''''), gc_Param = (\<lambda>p. if p = ''id'' then jid else '''')\<rparr>"

lemma caller_context_sel [simp]:
  "UserIDFromContext (caller_context u j) = (u, True)" "gc_Param (caller_context u j) ''id'' = j"
  by (simp_all add: caller_context_def UserIDFromContext_def string_from_def)

context jobs_service
begin

lemma created_rows_owner:
  assumes "seen (js_mq st) = length (sent (js_mq st))" and "CreateJobsService s reqs u st = (st', res)"
  shows "(\<forall>k r. tbl (js_db st) k = Some r \<longrightarrow> tbl (js_db st') k = Some r)
    \<and> (\<forall>k r. tbl (js_db st) k = None \<longrightarrow> tbl (js_db st') k = Some r \<longrightarrow> j_UserID r = u)"
proof (cases res)
  case (Inl e)
  with CreateJobsService_sync [OF assms] show ?thesis by simp
next
  case (Inr jobs)
  with CreateJobsService_sync [OF assms] have rows: "list_all2 (\<lambda>req job. created_row (svc_marshal s) (tbl (js_db st')) (accepted (js_mq st')) u req job
            (seen (js_mq st') = length (sent (js_mq st')))) reqs jobs"
    and fresh: "\<forall>j\<in>set jobs. tbl (js_db st) (j_ID j) = None"
    and other: "\<And>k. k \<notin> j_ID ` set jobs \<Longrightarrow> tbl (js_db st') k = tbl (js_db st) k" by auto
  have "j_UserID r = u" if r: "tbl (js_db st) k = None" "tbl (js_db st') k = Some r" for k r
  proof -
    from other [of k] r have "k \<in> j_ID ` set jobs" by auto
    then obtain i where i: "i < length jobs" "k = j_ID (jobs ! i)" by (auto simp: in_set_conv_nth)
    from list_all2_nthD2 [OF rows i(1)] i(2) r(2) show ?thesis by (auto simp: created_row_def fresh_row_def)
  qed
  moreover have "tbl (js_db st') k = Some r" if "tbl (js_db st) k = Some r" for k r
    using other [of k] fresh that by force
  ultimately show ?thesis by blast
qed

end

section \<open>Properties\<close>

text \<open>
  Jobs are created for the caller and for nobody else: whatever user the request body names, every row that the bulk endpoint adds
  belongs to the user of the access token, rows that were there stay as they are, and without an identity in the context, or with a body that does
  not decode, nothing changes at all.
\<close>

theorem created_jobs_belong_to_caller:
  assumes "jobs_service s tbl sent seen accepted" and "seen (js_mq st) = length (sent (js_mq st))"
    and "CreateJobs_handler dec s body c st = (st', resp)"
  shows "(\<forall>k r. tbl (js_db st) k = Some r \<longrightarrow> tbl (js_db st') k = Some r)
    \<and> (\<forall>k r. tbl (js_db st) k = None \<longrightarrow> tbl (js_db st') k = Some r \<longrightarrow> UserIDFromContext c = (j_UserID r, True))
    \<and> (dec body = None \<or> \<not> snd (UserIDFromContext c) \<longrightarrow> st' = st \<and> \<not> rs_Success resp)"
proof -
  obtain u ok where u: "UserIDFromContext c = (u, ok)" by fastforce
  show ?thesis
  proof (cases "dec body = None \<or> \<not> ok")
    case True
    with assms(3) u have "st' = st \<and> \<not> rs_Success resp" by (auto simp: CreateJobs_handler_def split: option.splits)
    then show ?thesis by simp
  next
    case False
    then obtain reqs where "dec body = Some reqs" "ok" by auto
    then obtain res where run: "CreateJobsService s reqs u st = (st', res)"
      using assms(3) u by (auto simp: CreateJobs_handler_def split: prod.splits sum.splits)
    from jobs_service.created_rows_owner [OF assms(1,2) run] False u show ?thesis by auto
  qed
qed

theorem created_jobs_belong_to_caller_witness:
  "\<exists>st' resp r. CreateJobs_handler (\<lambda>b. Some [plain_request ''mallory'']) mem_service ''body'' (caller_context ''ann'' '''') (mem_state []) = (st', resp)
     \<and> mem_tbl j_ID (js_db st') ''id-'' = Some r \<and> j_UserID r = ''ann''"
proof -
  obtain st' resp r where run: "CreateJobs_handler (\<lambda>b. Some [plain_request ''mallory'']) mem_service ''body'' (caller_context ''ann'' '''') (mem_state []) = (st', resp)"
    and r: "mem_tbl j_ID (js_db st') ''id-'' = Some r"
    by (simp add: CreateJobs_handler_def CreateJobsService_def service_eval)
  have "mem_tbl j_ID (js_db (mem_state [])) ''id-'' = None" by (simp add: mem_tbl_def)
  with created_jobs_belong_to_caller [OF mem_service.jobs_service_axioms mem_state_sync run] r show ?thesis using run by auto
qed

text \<open>
  The list endpoint answers with exactly the caller's own live jobs, each once, and changes no row.
\<close>

theorem list_returns_own_live_jobs:
  assumes "jobs_store (svc_repo s) tbl" and "GetAllJobs_handler s c st = (st', resp)"
  shows "tbl (js_db st') = tbl (js_db st)
    \<and> (case rs_Data resp of None \<Rightarrow> \<not> rs_Success resp
       | Some js \<Rightarrow> rs_Status resp = 200 \<and> distinct (map j_ID js)
           \<and> (\<forall>r. r \<in> set js \<longleftrightarrow> tbl (js_db st) (j_ID r) = Some r \<and> job_live r \<and> UserIDFromContext c = (j_UserID r, True)))"
proof -
  obtain u ok where u: "UserIDFromContext c = (u, ok)" by fastforce
  obtain db1 g where g: "GetAllJobs (svc_repo s) u (js_db st) = (db1, g)" by fastforce
  have frame: "tbl db1 = tbl (js_db st)"
    using g gorm_model.find_tbl [OF assms(1) [unfolded jobs_store_def gorm_soft_delete_def, THEN conjunct1]] by (auto simp: GetAllJobs_def)
  show ?thesis
  proof (cases g)
    case (Inl e)
    with assms(2) u g frame show ?thesis
      by (cases ok; cases e) (auto simp: GetAllJobs_handler_def GetAllJobsService_def)
  next
    case (Inr js)
    note rows = jobs_store.GetAllJobs_Inr [OF assms(1) g [unfolded Inr]]
    with assms(2) u g frame Inr show ?thesis
      by (cases ok) (auto simp: GetAllJobs_handler_def GetAllJobsService_def http_status)
  qed
qed

theorem list_returns_own_live_jobs_witness:
  "\<exists>st' resp js. GetAllJobs_handler mem_service (caller_context ''ann'' '''') (mem_state [plain_job ''j1'' ''ann'', plain_job ''j2'' ''bob'']) = (st', resp)
     \<and> rs_Data resp = Some js \<and> distinct (map j_ID js) \<and> plain_job ''j1'' ''ann'' \<in> set js \<and> plain_job ''j2'' ''bob'' \<notin> set js"
proof -
  obtain st' resp js where run: "GetAllJobs_handler mem_service (caller_context ''ann'' '''') (mem_state [plain_job ''j1'' ''ann'', plain_job ''j2'' ''bob'']) = (st', resp)"
    and js: "rs_Data resp = Some js"
    by (simp add: GetAllJobs_handler_def GetAllJobsService_def service_eval)
  have store: "jobs_store (svc_repo mem_service) (mem_tbl j_ID)" by (simp add: mem_jobs.jobs_store_axioms)
  have rows: "mem_tbl j_ID (js_db (mem_state [plain_job ''j1'' ''ann'', plain_job ''j2'' ''bob''])) ''j1'' = Some (plain_job ''j1'' ''ann'')"
    "job_live (plain_job ''j1'' ''ann'')"
    by (simp_all add: mem_tbl_def job_live_def plain_job_def zeroJob_def)
  from list_returns_own_live_jobs [OF store run] js rows run show ?thesis by auto
qed

text \<open>
  Reading a job by its id does not look at the caller: with the database serving the lookup, any context with the id in its
  path, of whatever user, is answered with the whole job.
\<close>

theorem get_job_by_id_ignores_caller:
  assumes "jobs_store (svc_repo s) tbl" and "tbl (js_db st) jid = Some job" and "job_live job" and "jid \<noteq> ''''"
    and "gc_Param c ''id'' = jid" and "\<And>m db'. gorm_Take (svc_repo s) (js_db st) (\<lambda>j. j_ID j = jid) \<noteq> (db', Inl (DBError m))"
  shows "\<exists>st'. GetJobById_handler s c st = (st', Success 200 ''job fetched'' (Some job))"
proof -
  obtain db1 g where g: "GetJobByID (svc_repo s) jid (js_db st) = (db1, g)" by fastforce
  have "g = Inr job"
  proof (cases g)
    case (Inl e)
    with jobs_store.GetJobByID_not_found [OF assms(1)] g assms(2,3,6) show ?thesis by (cases e) (auto simp: GetJobByID_def)
  next
    case (Inr x)
    with jobs_store.GetJobByID_Inr [OF assms(1)] g assms(2) show ?thesis by fastforce
  qed
  with g assms(4,5) show ?thesis by (simp add: GetJobById_handler_def GetJobByIdService_def http_status)
qed

theorem get_job_by_id_ignores_caller_witness:
  "\<exists>st'. GetJobById_handler mem_service (caller_context ''mallory'' ''j1'') (mem_state [plain_job ''j1'' ''ann'']) =
     (st', Success 200 ''job fetched'' (Some (plain_job ''j1'' ''ann'')))"
proof (rule get_job_by_id_ignores_caller)
  show "jobs_store (svc_repo mem_service) (mem_tbl j_ID)" by (simp add: mem_jobs.jobs_store_axioms)
  show "mem_tbl j_ID (js_db (mem_state [plain_job ''j1'' ''ann''])) ''j1'' = Some (plain_job ''j1'' ''ann'')" by (simp add: mem_tbl_def)
  show "job_live (plain_job ''j1'' ''ann'')" by (simp add: job_live_def plain_job_def zeroJob_def)
  show "gorm_Take (svc_repo mem_service) (js_db (mem_state [plain_job ''j1'' ''ann''])) (\<lambda>j. j_ID j = ''j1'') \<noteq> (db', Inl (DBError m))" for m db'
    by (simp add: service_eval)
qed simp_all

end
