(* ===== verification/Health.thy ===== *)
theory Health
  imports Redis Httpx
begin

text \<open>
  Package \<^verbatim>\<open>internal/health\<close>: the probes of the four services and the endpoint that sums them up. The database handle and the broker connection are
  parameters, records of the calls the probes make; the contract \<open>probe_connection\<close> is what opening and closing a
  channel does to the set of open channels.
\<close>

section \<open>Durations as text\<close>

text \<open>\<^verbatim>\<open>time.Duration.String\<close>: the unit follows from the size, trailing zeros of the fraction are left out.\<close>

definition fmtFrac :: "nat \<Rightarrow> nat \<Rightarrow> string" where
  "fmtFrac v prec =
     (let ds = dec_digits (v mod 10 ^ prec);
          frac = rev (dropWhile (\<lambda>c. c = CHR ''0'') (rev (replicate (prec - length ds) CHR ''0'' @ ds)))
      in if frac = [] then [] else ''.'' @ frac)"

definition Duration_String :: "duration \<Rightarrow> string" where
  "Duration_String d =
     (let u = nat \<bar>d\<bar>; secs = u div 10 ^ 9; mins = secs div 60; hours = mins div 60;
          micro = map char_of [194::nat, 181] @ ''s'';
          text =
            (if u < 10 ^ 3 then dec_digits u @ ''ns''
             else if u < 10 ^ 6 then dec_digits (u div 10 ^ 3) @ fmtFrac u 3 @ micro
             else if u < 10 ^ 9 then dec_digits (u div 10 ^ 6) @ fmtFrac u 6 @ ''ms''
             else (if hours > 0 then dec_digits hours @ ''h'' else '''')
                @ (if mins > 0 then dec_digits (mins mod 60) @ ''m'' else '''')
                @ dec_digits (secs mod 60) @ fmtFrac u 9 @ ''s'')
      in if u = 0 then ''0s'' else if d < 0 then ''-'' @ text else text)"

section \<open>Model\<close>

definition statusUp :: string where "statusUp = ''up''"
definition statusDown :: string where "statusDown = ''down''"
definition statusSkipped :: string where "statusSkipped = ''skipped''"

lemmas health_statuses = statusUp_def statusDown_def statusSkipped_def

record serviceStatus =
  ss_Status :: string
  ss_Latency :: string
  ss_Error :: string

definition is_up :: "duration \<Rightarrow> serviceStatus" where
  "is_up d = \<lparr>ss_Status = statusUp, ss_Latency = Duration_String d, ss_Error = ''''\<rparr>"

definition is_down :: "string \<Rightarrow> serviceStatus" where
  "is_down err = \<lparr>ss_Status = statusDown, ss_Latency = '''', ss_Error = err\<rparr>"

text \<open>The broker handle: whether the pointers are nil, and the three calls on the connection.\<close>

record ('mq, 'ch) mq_conn =
  mc_nil :: bool
  mc_conn_nil :: bool
  mc_IsClosed :: "'mq \<Rightarrow> bool"
  mc_Channel :: "'mq \<Rightarrow> 'mq \<times> (string + 'ch)"
  mc_Close :: "'ch \<Rightarrow> 'mq \<Rightarrow> 'mq \<times> string option"

record ('db, 'rd, 'mq, 'ch) health_Handler =
  hh_DB :: "'db \<Rightarrow> string option"
  hh_Ping :: "'db \<Rightarrow> 'db \<times> string option"
  hh_rdb :: "'rd redis_client"
  hh_mq :: "('mq, 'ch) mq_conn"

definition NewHealthHandler ::
  "('db \<Rightarrow> string option) \<Rightarrow> ('db \<Rightarrow> 'db \<times> string option) \<Rightarrow> 'rd redis_client \<Rightarrow> ('mq, 'ch) mq_conn \<Rightarrow> ('db, 'rd, 'mq, 'ch) health_Handler"
where
  [simp]: "NewHealthHandler db_DB db_Ping rdb mq = \<lparr>hh_DB = db_DB, hh_Ping = db_Ping, hh_rdb = rdb, hh_mq = mq\<rparr>"

record ('db, 'rd, 'mq) health_state =
  hs_db :: 'db
  hs_rd :: 'rd
  hs_mq :: 'mq
  hs_clock :: clock

definition since :: "time \<Rightarrow> ('db, 'rd, 'mq) health_state \<Rightarrow> ('db, 'rd, 'mq) health_state \<times> serviceStatus" where
  "since start st = (let (now, clk) = time_Now (hs_clock st) in (st\<lparr>hs_clock := clk\<rparr>, is_up (time_Sub now start)))"

definition checkPostgres ::
  "('db, 'rd, 'mq, 'ch) health_Handler \<Rightarrow> ('db, 'rd, 'mq) health_state \<Rightarrow> ('db, 'rd, 'mq) health_state \<times> serviceStatus"
where
  "checkPostgres h st = (let (start, clk) = time_Now (hs_clock st); st1 = st\<lparr>hs_clock := clk\<rparr> in
     case hh_DB h (hs_db st1) of
       Some err \<Rightarrow> (st1, is_down err)
     | None \<Rightarrow> (case hh_Ping h (hs_db st1) of
         (db', Some err) \<Rightarrow> (st1\<lparr>hs_db := db'\<rparr>, is_down err)
       | (db', None) \<Rightarrow> since start (st1\<lparr>hs_db := db'\<rparr>)))"

definition checkRedis ::
  "('db, 'rd, 'mq, 'ch) health_Handler \<Rightarrow> ('db, 'rd, 'mq) health_state \<Rightarrow> ('db, 'rd, 'mq) health_state \<times> serviceStatus"
where
  "checkRedis h st = (let (start, clk) = time_Now (hs_clock st); st1 = st\<lparr>hs_clock := clk\<rparr> in
     case rc_Ping (hh_rdb h) (hs_rd st1) of
       (rd', Some err) \<Rightarrow> (st1\<lparr>hs_rd := rd'\<rparr>, is_down err)
     | (rd', None) \<Rightarrow> since start (st1\<lparr>hs_rd := rd'\<rparr>))"

definition checkRabbitMQ ::
  "('db, 'rd, 'mq, 'ch) health_Handler \<Rightarrow> ('db, 'rd, 'mq) health_state \<Rightarrow> ('db, 'rd, 'mq) health_state \<times> serviceStatus"
where
  "checkRabbitMQ h st = (let (start, clk) = time_Now (hs_clock st); st1 = st\<lparr>hs_clock := clk\<rparr>; mq = hh_mq h in
     if mc_nil mq \<or> mc_conn_nil mq \<or> mc_IsClosed mq (hs_mq st1) then (st1, is_down ''connection is closed'')
     else (case mc_Channel mq (hs_mq st1) of
         (mq', Inl err) \<Rightarrow> (st1\<lparr>hs_mq := mq'\<rparr>, is_down err)
       | (mq', Inr ch) \<Rightarrow> since start (st1\<lparr>hs_mq := fst (mc_Close mq ch mq')\<rparr>)))"

definition checkClickHouse :: serviceStatus where
  "checkClickHouse = \<lparr>ss_Status = statusSkipped, ss_Latency = '''', ss_Error = ''clickhouse client not configured''\<rparr>"

text \<open>The loop over the results, in the order in which \<^verbatim>\<open>range\<close> visits the map.\<close>

fun overall_status :: "serviceStatus list \<Rightarrow> string \<times> int" where
  "overall_status [] = (statusUp, StatusOK)"
| "overall_status (s # ss) = (if ss_Status s = statusDown then (statusDown, StatusServiceUnavailable) else overall_status ss)"

record health_reply =
  hr_Code :: int
  hr_Status :: string
  hr_Services :: "string \<Rightarrow> serviceStatus option"

definition Health ::
  "('db, 'rd, 'mq, 'ch) health_Handler \<Rightarrow> string list \<Rightarrow> ('db, 'rd, 'mq) health_state \<Rightarrow> ('db, 'rd, 'mq) health_state \<times> health_reply"
where
  "Health h order st =
     (let (st1, postgres) = checkPostgres h st; (st2, rd) = checkRedis h st1; (st3, mq) = checkRabbitMQ h st2;
          results = [''postgres'' \<mapsto> postgres, ''redis'' \<mapsto> rd, ''rabbitmq'' \<mapsto> mq, ''clickhouse'' \<mapsto> checkClickHouse];
          (overall, code) = overall_status (map (\<lambda>k. the (results k)) order)
      in (st3, \<lparr>hr_Code = code, hr_Status = overall, hr_Services = results\<rparr>))"

section \<open>The connection the probe relies on\<close>

text \<open>\<open>chans\<close> is the set of channels open on the connection.\<close>

locale probe_connection =
  fixes mq :: "('mq, 'ch) mq_conn"
    and chans :: "'mq \<Rightarrow> 'ch set"
  assumes channel_Inr: "mc_Channel mq q = (q', Inr ch) \<Longrightarrow> ch \<notin> chans q \<and> chans q' = insert ch (chans q)"
    and channel_Inl: "mc_Channel mq q = (q', Inl e) \<Longrightarrow> chans q' = chans q"
    and close_chans: "mc_Close mq ch q = (q', r) \<Longrightarrow> chans q' = chans q - {ch}"
begin

lemma probe_chans:
  assumes "mc_Channel mq q = (q', Inr ch)" and "mc_Close mq ch q' = (q'', r)"
  shows "chans q'' = chans q"
  using channel_Inr [OF assms(1)] close_chans [OF assms(2)] by simp

lemma checkRabbitMQ_chans:
  assumes "hh_mq h = mq"
  shows "chans (hs_mq (fst (checkRabbitMQ h st))) = chans (hs_mq st)"
proof -
  obtain q' res where c: "mc_Channel mq (hs_mq st) = (q', res)" by fastforce
  show ?thesis
  proof (cases res)
    case (Inl e)
    with c assms channel_Inl show ?thesis by (simp add: checkRabbitMQ_def time_Now_def Let_def)
  next
    case (Inr ch)
    with probe_chans [OF c [unfolded Inr] prod.collapse [symmetric]] c assms show ?thesis
      by (simp add: checkRabbitMQ_def since_def time_Now_def Let_def)
  qed
qed

end

text \<open>A reference connection: channels are numbered, and an outage makes every call fail.\<close>

record ref_conn =
  cn_open :: "nat list"
  cn_outage :: bool

definition ref_mq :: "(ref_conn, nat) mq_conn" where
  "ref_mq = \<lparr>mc_nil = False, mc_conn_nil = False, mc_IsClosed = (\<lambda>q. False),
     mc_Channel = (\<lambda>q. if cn_outage q then (q, Inl ''channel/connection is not open'')
        else let ch = Suc (fold max (cn_open q) 0) in (q\<lparr>cn_open := ch # cn_open q\<rparr>, Inr ch)),
     mc_Close = (\<lambda>ch q. (q\<lparr>cn_open := filter (\<lambda>c. c \<noteq> ch) (cn_open q)\<rparr>, None))\<rparr>"

lemma fold_max_bound: "x \<in> set xs \<or> x \<le> (a::nat) \<Longrightarrow> x \<le> fold max xs a"
  by (induction xs arbitrary: a) (auto simp: max_def)

interpretation ref_mq: probe_connection ref_mq "\<lambda>q. set (cn_open q)"
proof unfold_locales
  show "ch \<notin> set (cn_open q) \<and> set (cn_open q') = insert ch (set (cn_open q))" if "mc_Channel ref_mq q = (q', Inr ch)" for q q' ch
    using that fold_max_bound [of ch "cn_open q" 0] by (auto simp: ref_mq_def Let_def split: if_splits)
qed (auto simp: ref_mq_def Let_def split: if_splits)

section \<open>Facts\<close>

lemma overall_status_iff:
  "overall_status ss = (if \<exists>s\<in>set ss. ss_Status s = statusDown then (statusDown, StatusServiceUnavailable) else (statusUp, StatusOK))"
  by (induction ss) auto

lemma probe_sel [simp]:
  "ss_Status (is_up d) = statusUp" "ss_Status (is_down e) = statusDown" "ss_Status checkClickHouse = statusSkipped"
  by (simp_all add: is_up_def is_down_def checkClickHouse_def)

lemma health_statuses_distinct [simp]:
  "statusUp \<noteq> statusDown" "statusDown \<noteq> statusUp" "statusSkipped \<noteq> statusDown" "statusSkipped \<noteq> statusUp"
  by (simp_all add: health_statuses)

lemma since_sel [simp]:
  "ss_Status (snd (since start st)) = statusUp" "hs_mq (fst (since start st)) = hs_mq st" "hs_rd (fst (since start st)) = hs_rd st"
  "hs_db (fst (since start st)) = hs_db st"
  by (simp_all add: since_def time_Now_def)

lemma checkPostgres_frame: "hs_rd (fst (checkPostgres h st)) = hs_rd st" "hs_mq (fst (checkPostgres h st)) = hs_mq st"
  by (simp_all add: checkPostgres_def time_Now_def Let_def split: prod.splits option.splits)

lemma checkRedis_frame: "hs_mq (fst (checkRedis h st)) = hs_mq st"
  by (simp add: checkRedis_def time_Now_def Let_def split: prod.splits option.splits)

lemma checkPostgres_status:
  "ss_Status (snd (checkPostgres h st)) =
     (if hh_DB h (hs_db st) = None \<and> snd (hh_Ping h (hs_db st)) = None then statusUp else statusDown)"
  by (simp add: checkPostgres_def time_Now_def Let_def split: prod.splits option.splits)

lemma checkRedis_status: "ss_Status (snd (checkRedis h st)) = (if snd (rc_Ping (hh_rdb h) (hs_rd st)) = None then statusUp else statusDown)"
  by (simp add: checkRedis_def time_Now_def Let_def split: prod.splits option.splits)

definition broker_answers :: "('mq, 'ch) mq_conn \<Rightarrow> 'mq \<Rightarrow> bool" where
  "broker_answers m q \<longleftrightarrow> \<not> mc_nil m \<and> \<not> mc_conn_nil m \<and> \<not> mc_IsClosed m q \<and> (\<exists>ch. snd (mc_Channel m q) = Inr ch)"

lemma checkRabbitMQ_status: "ss_Status (snd (checkRabbitMQ h st)) = (if broker_answers (hh_mq h) (hs_mq st) then statusUp else statusDown)"
  by (auto simp: checkRabbitMQ_def broker_answers_def time_Now_def Let_def split: prod.splits sum.splits)

section \<open>Properties\<close>

text \<open>
  C40. The health endpoint answers 200 with status up exactly when the database handle works and its ping succeeds, the Redis ping succeeds and the broker opens a
  channel; in every other case it answers 503 with status down, in whatever order the map of results is visited, and the ClickHouse stub never
  counts. The probe leaves the channels of the broker connection as they were.
\<close>

theorem health_reports_outages:
  assumes "probe_connection (hh_mq h) chans" and "set order = {''postgres'', ''redis'', ''rabbitmq'', ''clickhouse''}"
    and "Health h order st = (st', r)"
  shows "(hr_Code r, hr_Status r) =
      (if hh_DB h (hs_db st) = None \<and> snd (hh_Ping h (hs_db st)) = None \<and> snd (rc_Ping (hh_rdb h) (hs_rd st)) = None
          \<and> broker_answers (hh_mq h) (hs_mq st)
       then (200, ''up'') else (503, ''down''))
    \<and> chans (hs_mq st') = chans (hs_mq st)"
proof -
  obtain st1 p where p: "checkPostgres h st = (st1, p)" by fastforce
  obtain st2 c where c: "checkRedis h st1 = (st2, c)" by fastforce
  obtain st3 m where m: "checkRabbitMQ h st2 = (st3, m)" by fastforce
  have frames: "hs_rd st1 = hs_rd st" "hs_mq st2 = hs_mq st"
    using checkPostgres_frame [of h st] checkRedis_frame [of h st1] p c by simp_all
  have status: "ss_Status p = (if hh_DB h (hs_db st) = None \<and> snd (hh_Ping h (hs_db st)) = None then statusUp else statusDown)"
    "ss_Status c = (if snd (rc_Ping (hh_rdb h) (hs_rd st)) = None then statusUp else statusDown)"
    "ss_Status m = (if broker_answers (hh_mq h) (hs_mq st) then statusUp else statusDown)"
    using checkPostgres_status [of h st] checkRedis_status [of h st1] checkRabbitMQ_status [of h st2] p c m frames by simp_all
  define results where "results = [''postgres'' \<mapsto> p, ''redis'' \<mapsto> c, ''rabbitmq'' \<mapsto> m, ''clickhouse'' \<mapsto> checkClickHouse]"
  have "set (map (\<lambda>k. the (results k)) order) = {p, c, m, checkClickHouse}"
    using assms(2) by (auto simp: results_def)
  then have down: "(\<exists>s\<in>set (map (\<lambda>k. the (results k)) order). ss_Status s = statusDown) \<longleftrightarrow>
      ss_Status p = statusDown \<or> ss_Status c = statusDown \<or> ss_Status m = statusDown" by auto
  have overall: "overall_status (map (\<lambda>k. the (results k)) order) =
      (if ss_Status p = statusDown \<or> ss_Status c = statusDown \<or> ss_Status m = statusDown
       then (statusDown, StatusServiceUnavailable) else (statusUp, StatusOK))"
    by (simp only: overall_status_iff down)
  have "Health h order st = (let (overall, code) = overall_status (map (\<lambda>k. the (results k)) order)
      in (st3, \<lparr>hr_Code = code, hr_Status = overall, hr_Services = results\<rparr>))"
    by (simp only: Health_def p c m results_def Let_def prod.case)
  with assms(3) have r: "(hr_Code r, hr_Status r) = (if ss_Status p = statusDown \<or> ss_Status c = statusDown \<or> ss_Status m = statusDown
      then (503, ''down'') else (200, ''up''))" and st': "st' = st3"
    by (auto simp: overall http_status statusUp_def statusDown_def split: if_splits)
  have "chans (hs_mq st3) = chans (hs_mq st)"
    using probe_connection.checkRabbitMQ_chans [OF assms(1) refl, of st2] m frames by simp
  then show ?thesis unfolding r st' status by simp
qed

definition ref_health :: "(string option, ref_redis, ref_conn, nat) health_Handler" where
  "ref_health = \<lparr>hh_DB = (\<lambda>db. None), hh_Ping = (\<lambda>db. (db, db)), hh_rdb = ref_client, hh_mq = ref_mq\<rparr>"

definition health_at :: "string option \<Rightarrow> bool \<Rightarrow> (string option, ref_redis, ref_conn) health_state" where
  "health_at ping outage = \<lparr>hs_db = ping, hs_rd = rr_init, hs_mq = \<lparr>cn_open = [1], cn_outage = outage\<rparr>, hs_clock = sconst 0\<rparr>"

theorem health_reports_outages_witness:
  "hr_Code (snd (Health ref_health [''redis'', ''postgres'', ''clickhouse'', ''rabbitmq''] (health_at None False))) = 200
   \<and> hr_Code (snd (Health ref_health [''redis'', ''postgres'', ''clickhouse'', ''rabbitmq''] (health_at None True))) = 503
   \<and> hr_Code (snd (Health ref_health [''redis'', ''postgres'', ''clickhouse'', ''rabbitmq''] (health_at (Some ''no route'') False))) = 503"
proof -
  let ?order = "[''redis'', ''postgres'', ''clickhouse'', ''rabbitmq'']"
  have lib: "probe_connection (hh_mq ref_health) (\<lambda>q. set (cn_open q))" by (simp add: ref_health_def ref_mq.probe_connection_axioms)
  have order: "set ?order = {''postgres'', ''redis'', ''rabbitmq'', ''clickhouse''}" by auto
  note run = health_reports_outages [OF lib order prod.collapse [symmetric]]
  have "snd (rc_Ping ref_client rr_init) = None" by (simp add: rr_defs rr_init_def)
  with run [of "health_at None False"] run [of "health_at None True"] run [of "health_at (Some ''no route'') False"] show ?thesis
    by (simp add: ref_health_def health_at_def broker_answers_def ref_mq_def Let_def)
qed

end
