(* ===== verification/Consumer.thy ===== *)
theory Consumer
  imports Rabbitmq
begin

text \<open>
  \<^verbatim>\<open>internal/rabbitmq/consume.go\<close>: opening a consumer, the goroutine that takes one delivery at a time, and
  the retry loop with exponential backoff around the handler. The goroutine's externally visible steps are
  recorded as a list of actions, so that their order (\<^verbatim>\<open>wg.Done\<close> before the acknowledgement) is part of
  the model. The handler acts on a state of its own; its error is kept as a value.

  The attempt counter is an \<open>int\<close>: it stays below \<open>maxRetries + 2\<close>, so it can only differ from Go's 64-bit
  counter for \<open>maxRetries = 2^63 - 1\<close>. The backoff, whose shift and product do wrap, is kept at width 64.
\<close>

section \<open>Model\<close>

datatype consume_error =
    OpenChannelError string
  | SetQosError string
  | StartConsumeError string string

definition Consume :: "'mq amqp \<Rightarrow> string \<Rightarrow> 'mq \<Rightarrow> 'mq \<times> consume_error option" where
  "Consume a queueName mq =
     (case conn_Channel a mq of
        (mq1, Some e) \<Rightarrow> (mq1, Some (OpenChannelError e))
      | (mq1, None) \<Rightarrow>
          (case ch_Qos a 1 mq1 of
             (mq2, Some e) \<Rightarrow> (fst (ch_Close a mq2), Some (SetQosError e))
           | (mq2, None) \<Rightarrow>
               (case ch_Consume a queueName mq2 of
                  (mq3, Some e) \<Rightarrow> (fst (ch_Close a mq3), Some (StartConsumeError queueName e))
                | (mq3, None) \<Rightarrow> (mq3, None))))"

datatype consume_action =
    WgAdd
  | BackoffSleep duration
  | HandlerCall
  | WgDone
  | MsgAck
  | MsgNack bool bool
  | ChannelClose

datatype consume_event = CtxCancelled | MsgsClosed | Msg string

definition backoff :: "int \<Rightarrow> duration" where
  "backoff attempt = dur_mult (shl1 (nat (attempt - 1))) Second"

definition pre_sleep :: "int \<Rightarrow> consume_action list" where
  "pre_sleep attempt = (if attempt > 0 then [BackoffSleep (backoff attempt)] else [])"

function consume_attempts ::
  "(string \<Rightarrow> 's \<Rightarrow> 's \<times> 'e option) \<Rightarrow> string \<Rightarrow> int \<Rightarrow> int \<Rightarrow> 'e option \<Rightarrow> 's \<Rightarrow> 's \<times> 'e option \<times> consume_action list"
where
  "consume_attempts handler body maxRetries attempt lastErr s =
     (if attempt \<le> maxRetries then
        (case handler body s of
           (s', None) \<Rightarrow> (s', None, pre_sleep attempt @ [HandlerCall])
         | (s', Some e) \<Rightarrow>
             (case consume_attempts handler body maxRetries (attempt + 1) (Some e) s' of
                (s'', err, acts) \<Rightarrow> (s'', err, pre_sleep attempt @ HandlerCall # acts)))
      else (s, lastErr, []))"
  by pat_completeness auto
termination
  by (relation "measure (\<lambda>(h, b, m, a, l, s). nat (m + 1 - a))") auto

declare consume_attempts.simps [simp del]

definition process_message ::
  "(string \<Rightarrow> int) \<Rightarrow> (string \<Rightarrow> 's \<Rightarrow> 's \<times> 'e option) \<Rightarrow> string \<Rightarrow> 's \<Rightarrow> 's \<times> consume_action list"
where
  "process_message getMaxRetries handler body s =
     (case consume_attempts handler body (getMaxRetries body) 0 None s of
        (s', lastErr, acts) \<Rightarrow>
          (s', WgAdd # acts @ [WgDone, if lastErr \<noteq> None then MsgNack False False else MsgAck]))"

fun consume_loop ::
  "(string \<Rightarrow> int) \<Rightarrow> (string \<Rightarrow> 's \<Rightarrow> 's \<times> 'e option) \<Rightarrow> consume_event list \<Rightarrow> 's \<Rightarrow> 's \<times> consume_action list"
where
  "consume_loop gm h [] s = (s, [])"
| "consume_loop gm h (CtxCancelled # evs) s = (s, [ChannelClose])"
| "consume_loop gm h (MsgsClosed # evs) s = (s, [ChannelClose])"
| "consume_loop gm h (Msg body # evs) s =
     (case process_message gm h body s of
        (s', acts) \<Rightarrow> (case consume_loop gm h evs s' of (s'', acts') \<Rightarrow> (s'', acts @ acts')))"

section \<open>The retry loop\<close>

text \<open>The handler's state after \<open>n\<close> calls, and its error at the call after these.\<close>

fun after_calls :: "(string \<Rightarrow> 's \<Rightarrow> 's \<times> 'e option) \<Rightarrow> string \<Rightarrow> nat \<Rightarrow> 's \<Rightarrow> 's" where
  "after_calls h body 0 s = s"
| "after_calls h body (Suc n) s = after_calls h body n (fst (h body s))"

definition call_error :: "(string \<Rightarrow> 's \<Rightarrow> 's \<times> 'e option) \<Rightarrow> string \<Rightarrow> nat \<Rightarrow> 's \<Rightarrow> 'e option" where
  "call_error h body n s = snd (h body (after_calls h body n s))"

text \<open>The actions of \<open>n\<close> attempts, the first of them numbered \<open>a\<close>.\<close>

fun attempt_actions :: "int \<Rightarrow> nat \<Rightarrow> consume_action list" where
  "attempt_actions a 0 = []"
| "attempt_actions a (Suc n) = pre_sleep a @ HandlerCall # attempt_actions (a + 1) n"

lemma call_error_step: "call_error h body (Suc n) s = call_error h body n (fst (h body s))"
  by (simp add: call_error_def)

lemma attempts_succeed:
  assumes "a + int k \<le> m" and "\<And>i. i < k \<Longrightarrow> call_error h body i s \<noteq> None" and "call_error h body k s = None"
  shows "consume_attempts h body m a l s = (after_calls h body (Suc k) s, None, attempt_actions a (Suc k))"
  using assms
proof (induction k arbitrary: a l s)
  case 0
  then show ?case
    by (subst consume_attempts.simps) (auto simp: call_error_def split: prod.splits)
next
  case (Suc k)
  obtain s' e where h: "h body s = (s', Some e)"
    using Suc.prems(2) [of 0] by (cases "h body s") (auto simp: call_error_def)
  have "consume_attempts h body m (a + 1) (Some e) s' =
      (after_calls h body (Suc k) s', None, attempt_actions (a + 1) (Suc k))"
  proof (rule Suc.IH)
    show "call_error h body i s' \<noteq> None" if "i < k" for i
      using Suc.prems(2) [of "Suc i"] that h by (simp add: call_error_step)
  qed (use Suc.prems h in \<open>auto simp: call_error_step\<close>)
  with h Suc.prems(1) show ?case by (subst consume_attempts.simps) simp
qed

lemma attempts_exhausted:
  assumes "m + 1 - a = int n" and "\<And>i. i < n \<Longrightarrow> call_error h body i s \<noteq> None"
  shows "\<exists>e. consume_attempts h body m a l s = (after_calls h body n s, e, attempt_actions a n)
     \<and> (if n = 0 then e = l else e = call_error h body (n - 1) s)"
  using assms
proof (induction n arbitrary: a l s)
  case 0
  then show ?case by (subst consume_attempts.simps) simp
next
  case (Suc n)
  obtain s' e where h: "h body s = (s', Some e)"
    using Suc.prems(2) [of 0] by (cases "h body s") (auto simp: call_error_def)
  have "\<exists>x. consume_attempts h body m (a + 1) (Some e) s' = (after_calls h body n s', x, attempt_actions (a + 1) n)
      \<and> (if n = 0 then x = Some e else x = call_error h body (n - 1) s')"
  proof (rule Suc.IH)
    show "call_error h body i s' \<noteq> None" if "i < n" for i
      using Suc.prems(2) [of "Suc i"] that h by (simp add: call_error_step)
  qed (use Suc.prems in auto)
  moreover have "call_error h body n s = (if n = 0 then Some e else call_error h body (n - 1) s')"
    using h by (cases n) (auto simp: call_error_def)
  ultimately show ?case using h Suc.prems(1) by (subst consume_attempts.simps) auto
qed

lemma attempt_actions_calls: "length (filter (\<lambda>x. x = HandlerCall) (attempt_actions a n)) = n"
  by (induction n arbitrary: a) (auto simp: pre_sleep_def)

lemma attempt_actions_sleeps:
  "0 \<le> a \<Longrightarrow> filter (\<lambda>x. x \<noteq> HandlerCall) (attempt_actions a n) =
     map (BackoffSleep \<circ> backoff) (filter (\<lambda>i. 0 < i) [a..a + int n - 1])"
proof (induction n arbitrary: a)
  case (Suc n)
  have "[a..a + int (Suc n) - 1] = a # [a + 1..(a + 1) + int n - 1]"
    by (subst upto_rec1) auto
  with Suc show ?case by (simp add: pre_sleep_def)
qed simp

section \<open>The backoff\<close>

lemma dur_mult_shl1:
  assumes "2 ^ k * d \<le> maxDuration" and "0 \<le> d"
  shows "dur_mult (shl1 k) d = 2 ^ k * d"
proof -
  have "shl1 k * word_of_int d = (word_of_int (2 ^ k * d) :: 64 word)"
    by (simp add: shl1_def push_bit_eq_mult)
  then have "dur_mult (shl1 k) d = sint (word_of_int (2 ^ k * d) :: 64 word)"
    by (simp only: dur_mult_def)
  also have "\<dots> = signed_take_bit 63 (2 ^ k * d)"
    by (simp only: sint_sbintrunc') simp
  also have "\<dots> = 2 ^ k * d"
  proof (rule signed_take_bit_int_eq_self)
    have "0 \<le> 2 ^ k * d" using assms(2) by simp
    then show "- (2 ^ 63) \<le> 2 ^ k * d" by (rule order_trans [rotated]) simp
  qed (use assms(1) in \<open>simp add: maxDuration_def\<close>)
  finally show ?thesis .
qed

lemma backoff_exact:
  assumes "1 \<le> n" and "n \<le> 34"
  shows "backoff n = 2 ^ nat (n - 1) * Second"
proof -
  have "(2::int) ^ nat (n - 1) \<le> 2 ^ 33" using assms by (intro power_increasing) auto
  then show ?thesis
    unfolding backoff_def by (intro dur_mult_shl1) (auto simp: go_time)
qed

fun slept :: "consume_action list \<Rightarrow> duration" where
  "slept [] = 0"
| "slept (BackoffSleep d # acts) = d + slept acts"
| "slept (_ # acts) = slept acts"

lemma slept_append [simp]: "slept (xs @ ys) = slept xs + slept ys"
  by (induction xs rule: slept.induct) auto

lemma slept_attempts:
  "int n \<le> 35 \<Longrightarrow> 0 < n \<Longrightarrow> slept (attempt_actions 0 n) = (2 ^ (n - 1) - 1) * Second"
proof -
  have gen: "slept (attempt_actions a n) = (2 ^ nat (a + int n - 1) - 2 ^ nat (a - 1)) * Second"
    if "1 \<le> a" and "a + int n \<le> 35" for a n
    using that
  proof (induction n arbitrary: a)
    case (Suc n)
    have "nat a = Suc (nat (a - 1))" using Suc.prems by simp
    moreover have "slept (attempt_actions (a + 1) n) = (2 ^ nat (a + int n) - 2 ^ nat a) * Second"
      using Suc.IH [of "a + 1"] Suc.prems by (simp add: add.commute add.left_commute)
    ultimately show ?case using Suc.prems by (simp add: pre_sleep_def backoff_exact algebra_simps)
  qed simp
  assume "int n \<le> 35" and "0 < n"
  then obtain m where m: "n = Suc m" by (cases n) auto
  with \<open>int n \<le> 35\<close> gen [of 1 m] show ?thesis by (simp add: pre_sleep_def nat_add_distrib)
qed

section \<open>Properties\<close>

text \<open>
  A message with a budget of \<open>maxRetries \<ge> 0\<close> retries whose handler first succeeds at call \<open>k\<close>
  (from 0), within the budget: the handler runs exactly \<open>k + 1\<close> times, before call \<open>i > 0\<close> the consumer
  waits \<open>2^(i-1)\<close> seconds, and the message is acknowledged after the wait group is released.
\<close>

theorem process_message_success:
  assumes "int k \<le> gm body" and "\<And>i. i < k \<Longrightarrow> call_error h body i s \<noteq> None"
    and "call_error h body k s = None"
  shows "process_message gm h body s =
    (after_calls h body (Suc k) s, WgAdd # attempt_actions 0 (Suc k) @ [WgDone, MsgAck])"
proof -
  have "consume_attempts h body (gm body) 0 None s =
      (after_calls h body (Suc k) s, None, attempt_actions 0 (Suc k))"
    by (rule attempts_succeed) (use assms in auto)
  then show ?thesis by (simp add: process_message_def)
qed

theorem process_message_success_witness:
  "process_message (\<lambda>_. 3) (\<lambda>_ n. (Suc n, if n < 2 then Some ''down'' else None)) ''m'' (0 :: nat) =
     (3, [WgAdd, HandlerCall, BackoffSleep 1000000000, HandlerCall, BackoffSleep 2000000000, HandlerCall,
          WgDone, MsgAck])"
proof -
  let ?h = "\<lambda>(_::string) n. (Suc n, if n < 2 then Some ''down'' else None)"
  have ac: "after_calls ?h ''m'' i n = n + i" for i n by (induction i arbitrary: n) auto
  have "process_message (\<lambda>_. 3) ?h ''m'' 0 =
      (after_calls ?h ''m'' (Suc 2) 0, WgAdd # attempt_actions 0 (Suc 2) @ [WgDone, MsgAck])"
    by (rule process_message_success) (auto simp: call_error_def ac)
  then show ?thesis
    by (simp add: ac pre_sleep_def backoff_exact go_time numeral_2_eq_2)
qed

text \<open>
  When all \<open>maxRetries + 1\<close> calls fail, the handler has run exactly that often and the message
  is rejected without requeueing; the consumer never acknowledges a message whose last call failed.
\<close>

theorem process_message_exhausted:
  assumes "0 \<le> gm body" and "\<And>i. int i \<le> gm body \<Longrightarrow> call_error h body i s \<noteq> None"
  shows "process_message gm h body s =
    (after_calls h body (nat (gm body) + 1) s,
     WgAdd # attempt_actions 0 (nat (gm body) + 1) @ [WgDone, MsgNack False False])"
proof -
  have "\<exists>e. consume_attempts h body (gm body) 0 None s =
       (after_calls h body (nat (gm body) + 1) s, e, attempt_actions 0 (nat (gm body) + 1))
     \<and> (if nat (gm body) + 1 = 0 then e = None else e = call_error h body (nat (gm body) + 1 - 1) s)"
    by (rule attempts_exhausted) (use assms in auto)
  with assms show ?thesis by (auto simp: process_message_def)
qed

theorem process_message_exhausted_witness:
  "process_message (\<lambda>_. 1) (\<lambda>_ n. (Suc n, Some ''down'')) ''m'' (0 :: nat) =
     (2, [WgAdd, HandlerCall, BackoffSleep 1000000000, HandlerCall, WgDone, MsgNack False False])"
proof -
  let ?h = "\<lambda>(_::string) n. (Suc n, Some ''down'')"
  have ac: "after_calls ?h ''m'' i n = n + i" for i n by (induction i arbitrary: n) auto
  have "process_message (\<lambda>_. 1) ?h ''m'' 0 =
      (after_calls ?h ''m'' (nat 1 + 1) 0, WgAdd # attempt_actions 0 (nat 1 + 1) @ [WgDone, MsgNack False False])"
    by (rule process_message_exhausted) (auto simp: call_error_def)
  then show ?thesis by (simp add: ac pre_sleep_def backoff_exact go_time)
qed

text \<open>Either way, the actions of a message with a budget of at least 0 have one shape.\<close>

lemma process_message_shape:
  assumes "0 \<le> gm body" and "process_message gm h body s = (s', acts)"
  shows "\<exists>n x. n \<le> nat (gm body) \<and> (x = MsgAck \<or> x = MsgNack False False)
    \<and> acts = WgAdd # attempt_actions 0 (Suc n) @ [WgDone, x]"
proof (cases "\<exists>k. int k \<le> gm body \<and> call_error h body k s = None")
  case True
  then obtain k where k: "int k \<le> gm body" "call_error h body k s = None"
    and least: "\<And>i. i < k \<Longrightarrow> \<not> (int i \<le> gm body \<and> call_error h body i s = None)"
    using exists_least_iff [of "\<lambda>k. int k \<le> gm body \<and> call_error h body k s = None"] by blast
  have "consume_attempts h body (gm body) 0 None s = (after_calls h body (Suc k) s, None, attempt_actions 0 (Suc k))"
    by (rule attempts_succeed) (use k least in force)+
  with assms(2) have "acts = WgAdd # attempt_actions 0 (Suc k) @ [WgDone, MsgAck]"
    by (simp add: process_message_def)
  with k(1) show ?thesis by (intro exI [of _ k] exI [of _ MsgAck]) auto
next
  case False
  then obtain e where "consume_attempts h body (gm body) 0 None s =
      (after_calls h body (Suc (nat (gm body))) s, e, attempt_actions 0 (Suc (nat (gm body))))"
    using attempts_exhausted [of "gm body" 0 "Suc (nat (gm body))" h body s None] assms(1) by auto
  with assms(2) have "acts = WgAdd # attempt_actions 0 (Suc (nat (gm body)))
      @ [WgDone, if e \<noteq> None then MsgNack False False else MsgAck]"
    by (simp add: process_message_def)
  then show ?thesis by (metis (full_types) order_refl)
qed

lemma sleep_in_attempts:
  "BackoffSleep d \<in> set (attempt_actions 0 (Suc n)) \<Longrightarrow> \<exists>i. 0 < i \<and> i \<le> int n \<and> d = backoff i"
proof -
  assume "BackoffSleep d \<in> set (attempt_actions 0 (Suc n))"
  then have "BackoffSleep d \<in> set (filter (\<lambda>x. x \<noteq> HandlerCall) (attempt_actions 0 (Suc n)))" by simp
  then show ?thesis by (subst (asm) attempt_actions_sleeps) auto
qed

text \<open>
  With a negative retry budget the loop body never runs: the message is acknowledged, so removed
  from the queue, although the handler was never called.
\<close>

theorem process_message_negative_budget:
  assumes "gm body < 0"
  shows "process_message gm h body s = (s, [WgAdd, WgDone, MsgAck])"
  using assms by (simp add: process_message_def consume_attempts.simps)

theorem process_message_negative_budget_witness:
  "process_message (\<lambda>_. - 1) (\<lambda>_ n. (Suc n, Some ''down'')) ''m'' (0 :: nat) = (0, [WgAdd, WgDone, MsgAck])"
  by (rule process_message_negative_budget) simp

text \<open>
  The wait group after a list of actions, and the number of messages settled in it.
\<close>

fun wg_count :: "consume_action list \<Rightarrow> int" where
  "wg_count [] = 0"
| "wg_count (WgAdd # acts) = 1 + wg_count acts"
| "wg_count (WgDone # acts) = - 1 + wg_count acts"
| "wg_count (_ # acts) = wg_count acts"

definition settled :: "consume_action list \<Rightarrow> nat" where
  "settled acts = length (filter (\<lambda>x. x = MsgAck \<or> (\<exists>m q. x = MsgNack m q)) acts)"

fun taken :: "consume_event list \<Rightarrow> string list" where
  "taken (Msg b # evs) = b # taken evs"
| "taken _ = []"

lemma wg_count_append [simp]: "wg_count (xs @ ys) = wg_count xs + wg_count ys"
  by (induction xs rule: wg_count.induct) auto

lemma settled_simps [simp]:
  "settled [] = 0" "settled (xs @ ys) = settled xs + settled ys"
  "settled (MsgAck # xs) = Suc (settled xs)" "settled (MsgNack m q # xs) = Suc (settled xs)"
  "settled (WgAdd # xs) = settled xs" "settled (WgDone # xs) = settled xs"
  "settled (HandlerCall # xs) = settled xs" "settled (BackoffSleep d # xs) = settled xs"
  "settled (ChannelClose # xs) = settled xs"
  by (auto simp: settled_def)

lemma attempts_neutral:
  "consume_attempts h body m a l s = (s', e, acts) \<Longrightarrow> wg_count acts = 0 \<and> settled acts = 0"
proof (induction h body m a l s arbitrary: s' e acts rule: consume_attempts.induct)
  case (1 h body m a l s)
  have pre: "wg_count (pre_sleep a) = 0" "settled (pre_sleep a) = 0"
    by (auto simp: pre_sleep_def)
  obtain s1 r where h: "h body s = (s1, r)" by (cases "h body s")
  obtain s2 e2 acts2 where rec: "consume_attempts h body m (a + 1) (Some x) s1 = (s2, e2, acts2)"
    if "r = Some x" for x by (cases r) (auto intro: prod_cases3)
  show ?case
  proof (cases "a \<le> m \<and> r \<noteq> None")
    case True
    then obtain x where r: "r = Some x" by auto
    from "1.IH" [OF _ _ _ rec [OF r]] True h r have "wg_count acts2 = 0 \<and> settled acts2 = 0" by simp
    with "1.prems" True h r rec [OF r] pre show ?thesis by (subst (asm) consume_attempts.simps) auto
  next
    case False
    with "1.prems" h pre show ?thesis by (subst (asm) consume_attempts.simps) (auto split: if_splits)
  qed
qed

lemma attempts_no_close:
  "consume_attempts h body m a l s = (s', e, acts) \<Longrightarrow> ChannelClose \<notin> set acts"
proof (induction h body m a l s arbitrary: s' e acts rule: consume_attempts.induct)
  case (1 h body m a l s)
  have pre: "ChannelClose \<notin> set (pre_sleep a)" by (simp add: pre_sleep_def)
  with "1.prems" "1.IH" show ?case
    by (subst (asm) consume_attempts.simps) (force split: prod.splits option.splits if_splits)
qed

lemma process_message_settles:
  "process_message gm h body s = (s', acts) \<Longrightarrow> wg_count acts = 0 \<and> settled acts = 1"
  by (auto simp: process_message_def split: prod.splits if_splits dest!: attempts_neutral)

lemma process_message_no_close:
  "process_message gm h body s = (s', acts) \<Longrightarrow> ChannelClose \<notin> set acts"
  by (auto simp: process_message_def split: prod.splits if_splits dest: attempts_no_close)

text \<open>
  C13. The consumer goroutine: every delivery it takes before the context ends or the channel closes is
  settled exactly once, with no wait-group token left over, and the AMQP channel is closed exactly
  when the goroutine ends.
\<close>

theorem consume_loop_settles_every_message:
  assumes "consume_loop gm h evs s = (s', acts)"
  shows "settled acts = length (taken evs) \<and> wg_count acts = 0
    \<and> (ChannelClose \<in> set acts \<longleftrightarrow> length (taken evs) < length evs)"
  using assms
proof (induction gm h evs s arbitrary: s' acts rule: consume_loop.induct)
  case (4 gm h body evs s)
  obtain s1 acts1 where p: "process_message gm h body s = (s1, acts1)"
    by (cases "process_message gm h body s")
  obtain s2 acts2 where l: "consume_loop gm h evs s1 = (s2, acts2)"
    by (cases "consume_loop gm h evs s1")
  have "ChannelClose \<notin> set acts1" using p by (rule process_message_no_close)
  with "4.IH" [OF p [symmetric] l] process_message_settles [OF p] p l "4.prems" show ?case
    by auto
qed auto

theorem consume_loop_settles_every_message_witness:
  "settled (snd (consume_loop (\<lambda>_. 0) (\<lambda>b n. (Suc n, if b = ''bad'' then Some ''err'' else None))
      [Msg ''ok'', Msg ''bad'', CtxCancelled, Msg ''late''] (0 :: nat))) = 2"
proof -
  let ?run = "consume_loop (\<lambda>_. 0) (\<lambda>b n. (Suc n, if b = ''bad'' then Some ''err'' else None))
      [Msg ''ok'', Msg ''bad'', CtxCancelled, Msg ''late''] (0 :: nat)"
  have "?run = (fst ?run, snd ?run)" by simp
  from consume_loop_settles_every_message [OF this] show ?thesis by simp
qed

text \<open>
  For every retry budget the service accepts (at most 10) the waits between attempts do not wrap
  around, and a message occupies its consumer for at most 1023 seconds of waiting.
\<close>

theorem process_message_backoff_bounded:
  assumes "0 \<le> gm body" and "gm body \<le> 10" and "process_message gm h body s = (s', acts)"
  shows "(\<forall>d. BackoffSleep d \<in> set acts \<longrightarrow> Second \<le> d \<and> d \<le> 512 * Second)
    \<and> 0 \<le> slept acts \<and> slept acts \<le> 1023 * Second"
proof -
  obtain n x where n: "n \<le> nat (gm body)" and x: "x = MsgAck \<or> x = MsgNack False False"
    and acts: "acts = WgAdd # attempt_actions 0 (Suc n) @ [WgDone, x]"
    using process_message_shape [OF assms(1,3)] by blast
  have "Second \<le> d \<and> d \<le> 512 * Second" if "BackoffSleep d \<in> set acts" for d
  proof -
    from that acts x obtain i where i: "0 < i" "i \<le> int n" "d = backoff i"
      by (auto simp del: attempt_actions.simps dest!: sleep_in_attempts)
    then have "(2::int) ^ nat (i - 1) \<le> 2 ^ 9" using n assms(2) by (intro power_increasing) auto
    moreover have "1 \<le> (2::int) ^ nat (i - 1)" by simp
    ultimately show ?thesis using i n assms(2) by (simp add: backoff_exact go_time)
  qed
  moreover have "slept acts = (2 ^ n - 1) * Second"
    using acts x n assms(2) slept_attempts [of "Suc n"] by auto
  moreover have "(2::int) ^ n \<le> 2 ^ 10" using n assms(2) by (intro power_increasing) auto
  ultimately show ?thesis by (simp add: go_time)
qed

theorem process_message_backoff_bounded_witness:
  "slept (snd (process_message (\<lambda>_. 10) (\<lambda>_ n. (Suc n, Some ''down'')) ''m'' (0 :: nat))) \<le> 1023 * Second"
proof -
  let ?p = "process_message (\<lambda>_. 10) (\<lambda>_ n. (Suc n, Some ''down'')) ''m'' (0 :: nat)"
  have "?p = (fst ?p, snd ?p)" by simp
  from process_message_backoff_bounded [OF _ _ this] show ?thesis by simp
qed

end
