(* ===== verification/Worker.thy ===== *)
theory Worker
  imports Jobs_Model Consumer Redis
begin

text \<open>
  Package \<^verbatim>\<open>internal/worker\<close>: the repository that moves a job's row through its states (\<^verbatim>\<open>repository.go\<close>), the
  dispatch on the job type with the four handlers and the status event (\<^verbatim>\<open>handler.go\<close>), and the start and drain
  of the consumers (\<^verbatim>\<open>worker.go\<close>). \<^verbatim>\<open>JobMessage.Unmarshal\<close> runs the \<^verbatim>\<open>UnmarshalJSON\<close> method of a type from another
  repository, so the decoder is a field of the worker. A sleep adds to \<open>ws_slept\<close>.
\<close>

section \<open>Model\<close>

definition numConsumers :: nat where "numConsumers = 5"
definition defaultMaxRetries :: int where "defaultMaxRetries = 3"

record ('db, 'rd) Worker =
  wk_repo :: "('db, Job) gorm"
  wk_rdb :: "'rd redis_client"
  wk_workerID :: string
  wk_unmarshal :: "string \<Rightarrow> string + JobMessage"

record ('db, 'rd) worker_state =
  ws_db :: 'db
  ws_rdb :: 'rd
  ws_clock :: clock
  ws_slept :: duration

definition worker_id :: "string \<Rightarrow> int \<Rightarrow> string" where
  "worker_id hostname pid = hostname @ ''-'' @ Itoa pid"

definition New_Worker ::
  "('db, Job) gorm \<Rightarrow> 'rd redis_client \<Rightarrow> (string \<Rightarrow> string + JobMessage) \<Rightarrow> string \<Rightarrow> int \<Rightarrow> ('db, 'rd) Worker"
where
  "New_Worker db rdb unmarshal hostname pid =
     \<lparr>wk_repo = db, wk_rdb = rdb, wk_workerID = worker_id hostname pid, wk_unmarshal = unmarshal\<rparr>"

subsection \<open>Repository\<close>

definition running_row :: "string \<Rightarrow> time \<Rightarrow> Job \<Rightarrow> Job" where
  "running_row workerID now j = j\<lparr>j_Status := JobStatusRunning, j_StartedAt := Some now,
     j_WorkerID := Some workerID, j_Attempts := j_Attempts j + 1\<rparr>"

definition completed_row :: "time \<Rightarrow> Job \<Rightarrow> Job" where
  "completed_row now j = j\<lparr>j_Status := JobStatusCompleted, j_CompletedAt := Some now\<rparr>"

definition failed_row :: "string \<Rightarrow> time \<Rightarrow> Job \<Rightarrow> Job" where
  "failed_row errMsg now j = j\<lparr>j_Status := JobStatusFailed, j_ErrorMsg := Some errMsg, j_CompletedAt := Some now\<rparr>"

definition MarkRunning :: "('db, Job) gorm \<Rightarrow> string \<Rightarrow> string \<Rightarrow> time \<Rightarrow> 'db \<Rightarrow> 'db \<times> gorm_error option" where
  "MarkRunning g jobID workerID now db = gorm_err (gorm_Updates g db (\<lambda>j. j_ID j = jobID) (running_row workerID now))"

definition MarkCompleted :: "('db, Job) gorm \<Rightarrow> string \<Rightarrow> time \<Rightarrow> 'db \<Rightarrow> 'db \<times> gorm_error option" where
  "MarkCompleted g jobID now db = gorm_err (gorm_Updates g db (\<lambda>j. j_ID j = jobID) (completed_row now))"

definition MarkFailed :: "('db, Job) gorm \<Rightarrow> string \<Rightarrow> string \<Rightarrow> time \<Rightarrow> 'db \<Rightarrow> 'db \<times> gorm_error option" where
  "MarkFailed g jobID errMsg now db = gorm_err (gorm_Updates g db (\<lambda>j. j_ID j = jobID) (failed_row errMsg now))"

subsection \<open>Handlers\<close>

record jobStatusEvent =
  ev_JobID :: string
  ev_Status :: string
  ev_UserID :: string

definition marshal_event :: "jobStatusEvent \<Rightarrow> string + string" where
  \<comment> \<open>\<^verbatim>\<open>json.Marshal\<close> of a struct of three strings, which cannot fail\<close>
  "marshal_event e = Inr (''{'' @ json_quote ''jobID'' @ '':'' @ json_quote (ev_JobID e)
     @ '','' @ json_quote ''status'' @ '':'' @ json_quote (ev_Status e)
     @ '','' @ json_quote ''userID'' @ '':'' @ json_quote (ev_UserID e) @ ''}'')"

definition status_channel :: "string \<Rightarrow> string" where
  "status_channel userID = ''user:'' @ userID @ '':jobs''"

definition publishStatusEvent ::
  "('db, 'rd) Worker \<Rightarrow> JobMessage \<Rightarrow> JobStatus \<Rightarrow> ('db, 'rd) worker_state \<Rightarrow> ('db, 'rd) worker_state"
where
  \<comment> \<open>both errors are only logged\<close>
  "publishStatusEvent w job status st =
     (case marshal_event \<lparr>ev_JobID = m_ID job, ev_Status = status, ev_UserID = m_UserID job\<rparr> of
        Inl e \<Rightarrow> st
      | Inr event \<Rightarrow> st\<lparr>ws_rdb := fst (redis_Publish (wk_rdb w) (status_channel (m_UserID job)) event (ws_rdb st))\<rparr>)"

datatype worker_error =
    UnmarshalFailed string
  | MarkRunningFailed string string gorm_error
  | MarkCompletedFailed string string gorm_error
  | MarkFailedFailed string string gorm_error

text \<open>
  The four handlers share one shape: mark the row running, log the queue wait (which reads the clock), sleep,
  write the final state, publish the event.
\<close>

definition run_handler ::
  "string \<Rightarrow> duration \<Rightarrow> (time \<Rightarrow> 'db \<Rightarrow> 'db \<times> gorm_error option) \<Rightarrow> (gorm_error \<Rightarrow> worker_error) \<Rightarrow> JobStatus \<Rightarrow>
   ('db, 'rd) Worker \<Rightarrow> JobMessage \<Rightarrow> ('db, 'rd) worker_state \<Rightarrow> ('db, 'rd) worker_state \<times> worker_error option"
where
  "run_handler kind pause final finalErr status w job st =
     (let (now, clk) = time_Now (ws_clock st)
      in case MarkRunning (wk_repo w) (m_ID job) (wk_workerID w) now (ws_db st) of
           (db1, Some e) \<Rightarrow> (st\<lparr>ws_db := db1, ws_clock := clk\<rparr>, Some (MarkRunningFailed kind (m_ID job) e))
         | (db1, None) \<Rightarrow>
             (let (sinceNow, clk1) = time_Now clk;
                  (finalNow, clk2) = time_Now clk1
              in case final finalNow db1 of
                   (db2, Some e) \<Rightarrow>
                     (st\<lparr>ws_db := db2, ws_clock := clk2, ws_slept := ws_slept st + pause\<rparr>, Some (finalErr e))
                 | (db2, None) \<Rightarrow>
                     (publishStatusEvent w job status
                        (st\<lparr>ws_db := db2, ws_clock := clk2, ws_slept := ws_slept st + pause\<rparr>), None)))"

type_synonym ('db, 'rd) job_handler =
  "('db, 'rd) Worker \<Rightarrow> JobMessage \<Rightarrow> ('db, 'rd) worker_state \<Rightarrow> ('db, 'rd) worker_state \<times> worker_error option"

definition handleSendEmail :: "('db, 'rd) job_handler" where
  "handleSendEmail w job = run_handler ''sendEmail'' (2 * Second) (MarkCompleted (wk_repo w) (m_ID job))
     (MarkCompletedFailed ''sendEmail'' (m_ID job)) JobStatusCompleted w job"

definition handleReportGeneration :: "('db, 'rd) job_handler" where
  "handleReportGeneration w job = run_handler ''reportGeneration'' (3 * Second) (MarkCompleted (wk_repo w) (m_ID job))
     (MarkCompletedFailed ''reportGeneration'' (m_ID job)) JobStatusCompleted w job"

definition handleResizeImage :: "('db, 'rd) job_handler" where
  "handleResizeImage w job = run_handler ''resizeImage'' (2 * Second) (MarkCompleted (wk_repo w) (m_ID job))
     (MarkCompletedFailed ''resizeImage'' (m_ID job)) JobStatusCompleted w job"

definition handleExportCSV :: "('db, 'rd) job_handler" where
  "handleExportCSV w job = run_handler ''exportCSV'' (2 * Second) (MarkFailed (wk_repo w) (m_ID job) ''Failed to export CSV'')
     (MarkFailedFailed ''exportCSV'' (m_ID job)) JobStatusFailed w job"

definition jobMaxRetries :: "(string \<Rightarrow> string + JobMessage) \<Rightarrow> string \<Rightarrow> int" where
  "jobMaxRetries unmarshal body = (case unmarshal body of Inl e \<Rightarrow> defaultMaxRetries | Inr job \<Rightarrow> m_MaxRetries job)"

definition handleJob ::
  "('db, 'rd) Worker \<Rightarrow> string \<Rightarrow> ('db, 'rd) worker_state \<Rightarrow> ('db, 'rd) worker_state \<times> worker_error option"
where
  "handleJob w body st = (case wk_unmarshal w body of
       Inl e \<Rightarrow> (st, Some (UnmarshalFailed e))
     | Inr job \<Rightarrow>
         if m_Type job = JobEmail then handleSendEmail w job st
         else if m_Type job = JobGenerateReport then handleReportGeneration w job st
         else if m_Type job = JobResizeImage then handleResizeImage w job st
         else if m_Type job = JobExportCSV then handleExportCSV w job st
         else (st, None))"

subsection \<open>Start and drain\<close>

fun start_consumers :: "'mq amqp \<Rightarrow> nat \<Rightarrow> 'mq \<Rightarrow> 'mq \<times> consume_error option" where
  "start_consumers a 0 mq = (mq, None)"
| "start_consumers a (Suc n) mq = (case Consume a QueueJobs mq of
       (mq', Some e) \<Rightarrow> (mq', Some e)
     | (mq', None) \<Rightarrow> start_consumers a n mq')"

text \<open>
  A drain ends when the wait group is empty or when 30 seconds have passed. \<open>busy\<close> is the time until the wait
  group is empty (\<open>None\<close>: never); when both are ready at once, \<^verbatim>\<open>select\<close> takes either.
\<close>

datatype drain_end = DrainedCleanly | DrainTimeout

definition drain :: "duration option \<Rightarrow> drain_end set" where
  "drain busy = (case busy of
       None \<Rightarrow> {DrainTimeout}
     | Some d \<Rightarrow> (if d \<le> 30 * Second then {DrainedCleanly} else {}) \<union> (if 30 * Second \<le> d then {DrainTimeout} else {}))"

definition Worker_Start :: "'mq amqp \<Rightarrow> duration option \<Rightarrow> 'mq \<Rightarrow> 'mq \<times> (consume_error + drain_end set)" where
  \<comment> \<open>\<open>Inl\<close>: the process ends with \<^verbatim>\<open>log.Fatalf\<close>; otherwise the drain after the shutdown signal\<close>
  "Worker_Start a busy mq = (case start_consumers a numConsumers mq of
       (mq', Some e) \<Rightarrow> (mq', Inl e)
     | (mq', None) \<Rightarrow> (mq', Inr (drain busy)))"

definition consumer_goroutine ::
  "('db, 'rd) Worker \<Rightarrow> consume_event list \<Rightarrow> ('db, 'rd) worker_state \<Rightarrow> ('db, 'rd) worker_state \<times> consume_action list"
where
  "consumer_goroutine w = consume_loop (jobMaxRetries (wk_unmarshal w)) (handleJob w)"

section \<open>Rows\<close>

definition known_type :: "JobType \<Rightarrow> bool" where
  "known_type ty \<longleftrightarrow> ty \<in> {JobEmail, JobGenerateReport, JobResizeImage, JobExportCSV}"

text \<open>The states the worker leaves a row in, up to the tracked \<^verbatim>\<open>updated_at\<close>.\<close>

definition was_started :: "string \<Rightarrow> Job \<Rightarrow> Job \<Rightarrow> bool" where
  "was_started wid r r' \<longleftrightarrow> (\<exists>t u. r' = (running_row wid t r)\<lparr>j_UpdatedAt := u\<rparr>)"

definition was_finished :: "string \<Rightarrow> JobType \<Rightarrow> Job \<Rightarrow> Job \<Rightarrow> bool" where
  "was_finished wid ty r r' \<longleftrightarrow> (\<exists>t t' u. r' =
     (if ty = JobExportCSV then failed_row ''Failed to export CSV'' t' (running_row wid t r)
      else completed_row t' (running_row wid t r))\<lparr>j_UpdatedAt := u\<rparr>)"

definition final_status :: "JobType \<Rightarrow> JobStatus" where
  "final_status ty = (if ty = JobExportCSV then JobStatusFailed else JobStatusCompleted)"

definition status_event :: "JobMessage \<Rightarrow> JobStatus \<Rightarrow> string \<times> string" where
  "status_event m status = (status_channel (m_UserID m),
     projr (marshal_event \<lparr>ev_JobID = m_ID m, ev_Status = status, ev_UserID = m_UserID m\<rparr>))"

lemma marshal_event_Inr: "\<exists>b. marshal_event e = Inr b"
  by (simp add: marshal_event_def)

lemma row_update_ids [simp]:
  "j_ID (running_row w t j) = j_ID j" "j_ID (completed_row t j) = j_ID j" "j_ID (failed_row e t j) = j_ID j"
  "j_DeletedAt (running_row w t j) = j_DeletedAt j"
  by (simp_all add: running_row_def completed_row_def failed_row_def)

lemma was_started_sel:
  assumes "was_started wid r r'"
  shows "j_Status r' = JobStatusRunning" "j_Attempts r' = j_Attempts r + 1" "j_WorkerID r' = Some wid"
    "j_UserID r' = j_UserID r" "j_DeletedAt r' = j_DeletedAt r" "j_ID r' = j_ID r" "j_QueuedAt r' = j_QueuedAt r"
  using assms unfolding was_started_def by (auto simp: running_row_def)

lemma was_finished_sel:
  assumes "was_finished wid ty r r'"
  shows "j_Status r' = final_status ty" "j_Attempts r' = j_Attempts r + 1" "j_WorkerID r' = Some wid"
    "j_UserID r' = j_UserID r" "j_DeletedAt r' = j_DeletedAt r" "j_Payload r' = j_Payload r" "j_CompletedAt r' \<noteq> None"
proof -
  obtain t t' u where r': "r' = (if ty = JobExportCSV then failed_row ''Failed to export CSV'' t' (running_row wid t r)
      else completed_row t' (running_row wid t r))\<lparr>j_UpdatedAt := u\<rparr>"
    using assms unfolding was_finished_def by blast
  show "j_Status r' = final_status ty" "j_Attempts r' = j_Attempts r + 1" "j_WorkerID r' = Some wid"
    "j_UserID r' = j_UserID r" "j_DeletedAt r' = j_DeletedAt r" "j_Payload r' = j_Payload r" "j_CompletedAt r' \<noteq> None"
    by (simp_all add: r' running_row_def completed_row_def failed_row_def final_status_def)
qed

section \<open>What the worker promises\<close>

context jobs_store
begin

text \<open>One \<^verbatim>\<open>UPDATE\<close> by primary key.\<close>

lemma mark_row:
  assumes "gorm_err (gorm_Updates g db (\<lambda>j. j_ID j = i) f) = (db', e)" and "\<And>j. j_ID (f j) = j_ID j"
  shows "k \<noteq> i \<Longrightarrow> tbl db' k = tbl db k"
    and "e = Some x \<Longrightarrow> tbl db' = tbl db"
    and "e = None \<Longrightarrow> tbl db i = Some r \<Longrightarrow> job_live r \<Longrightarrow> \<exists>r'. tbl db' i = Some r' \<and> job_tracked (f r) r'"
    and "(\<And>r. tbl db i = Some r \<Longrightarrow> \<not> job_live r) \<Longrightarrow> tbl db' i = tbl db i"
  using assms(1)
    updates_frame [of db "\<lambda>j. j_ID j = i" f db' _ k] updates_frame [of db "\<lambda>j. j_ID j = i" f db' _ i]
    key_tbl [of db k] key_tbl [of db i r] updates_Inl [of db "\<lambda>j. j_ID j = i" f db']
    updates_hit [of db "\<lambda>j. j_ID j = i" f db' _ i r] assms(2) [of r]
  by (auto elim!: gorm_errE)

end

locale worker_env = store: jobs_store "wk_repo w" tbl + bus: redis_pubsub "wk_rdb w" published
  for w :: "('db, 'rd) Worker" and tbl :: "'db \<Rightarrow> string \<Rightarrow> Job option"
    and published :: "'rd \<Rightarrow> (string \<times> string) list"
begin

lemma publishStatusEvent_effect:
  assumes "publishStatusEvent w m status st = st'"
  shows "ws_db st' = ws_db st" and "ws_slept st' = ws_slept st"
    and "published (ws_rdb st') = published (ws_rdb st)
       \<or> published (ws_rdb st') = published (ws_rdb st) @ [status_event m status]"
proof -
  let ?ev = "\<lparr>ev_JobID = m_ID m, ev_Status = status, ev_UserID = m_UserID m\<rparr>"
  obtain rd' e where p: "redis_Publish (wk_rdb w) (status_channel (m_UserID m)) (projr (marshal_event ?ev)) (ws_rdb st) = (rd', e)"
    by (cases "redis_Publish (wk_rdb w) (status_channel (m_UserID m)) (projr (marshal_event ?ev)) (ws_rdb st)")
  have "st' = st\<lparr>ws_rdb := rd'\<rparr>"
    using assms p marshal_event_Inr [of ?ev] by (auto simp: publishStatusEvent_def split: sum.splits)
  with bus.redis_Publish_log [OF p]
  show "ws_db st' = ws_db st" and "ws_slept st' = ws_slept st"
    and "published (ws_rdb st') = published (ws_rdb st)
       \<or> published (ws_rdb st') = published (ws_rdb st) @ [status_event m status]"
    by (auto simp: status_event_def)
qed

text \<open>How a handler ends: its first update failed, its second one did, or neither.\<close>

lemma run_handler_cases:
  assumes "run_handler kind pause (\<lambda>now db. gorm_err (gorm_Updates (wk_repo w) db (\<lambda>j. j_ID j = m_ID m) (fin now)))
      finalErr status w m st = (st', err)"
    and "\<And>t j. j_ID (fin t j) = j_ID j"
  obtains (not_started) e where "err = Some (MarkRunningFailed kind (m_ID m) e)"
      "tbl (ws_db st') = tbl (ws_db st)" "ws_rdb st' = ws_rdb st" "ws_slept st' = ws_slept st"
  | (unfinished) e t db1 where "err = Some (finalErr e)" "MarkRunning (wk_repo w) (m_ID m) (wk_workerID w) t (ws_db st) = (db1, None)"
      "tbl (ws_db st') = tbl db1" "ws_rdb st' = ws_rdb st" "ws_slept st' = ws_slept st + pause"
  | (finished) t t' db1 where "err = None" "MarkRunning (wk_repo w) (m_ID m) (wk_workerID w) t (ws_db st) = (db1, None)"
      "gorm_err (gorm_Updates (wk_repo w) db1 (\<lambda>j. j_ID j = m_ID m) (fin t')) = (ws_db st', None)"
      "published (ws_rdb st') = published (ws_rdb st)
       \<or> published (ws_rdb st') = published (ws_rdb st) @ [status_event m status]"
      "ws_slept st' = ws_slept st + pause"
proof -
  obtain t clk where t: "time_Now (ws_clock st) = (t, clk)" by (cases "time_Now (ws_clock st)")
  obtain u clk1 where u: "time_Now clk = (u, clk1)" by (cases "time_Now clk")
  obtain t' clk2 where t': "time_Now clk1 = (t', clk2)" by (cases "time_Now clk1")
  obtain db1 e1 where m: "MarkRunning (wk_repo w) (m_ID m) (wk_workerID w) t (ws_db st) = (db1, e1)"
    by (cases "MarkRunning (wk_repo w) (m_ID m) (wk_workerID w) t (ws_db st)")
  obtain db2 e2 where f: "gorm_err (gorm_Updates (wk_repo w) db1 (\<lambda>j. j_ID j = m_ID m) (fin t')) = (db2, e2)"
    by (cases "gorm_err (gorm_Updates (wk_repo w) db1 (\<lambda>j. j_ID j = m_ID m) (fin t'))")
  note run = assms(1) [unfolded run_handler_def Let_def, simplified t u t' m f prod.case]
  show thesis
  proof (cases e1)
    case (Some e)
    with run have "st' = st\<lparr>ws_db := db1, ws_clock := clk\<rparr>" "err = Some (MarkRunningFailed kind (m_ID m) e)" by auto
    moreover have "tbl db1 = tbl (ws_db st)"
      using store.mark_row(2) [OF m [unfolded MarkRunning_def Some]] by simp
    ultimately show thesis by (intro not_started [of e]) simp_all
  next
    case None
    note started = m [unfolded None]
    show thesis
    proof (cases e2)
      case (Some e)
      with run None t u t' m f have "st' = st\<lparr>ws_db := db2, ws_clock := clk2, ws_slept := ws_slept st + pause\<rparr>" "err = Some (finalErr e)"
        by auto
      moreover have "tbl db2 = tbl db1" using store.mark_row(2) [OF f [unfolded Some] assms(2)] by simp
      ultimately show thesis using started by (intro unfinished [of e t db1]) simp_all
    next
      case None
      let ?st = "st\<lparr>ws_db := db2, ws_clock := clk2, ws_slept := ws_slept st + pause\<rparr>"
      from None \<open>e1 = None\<close> run t u t' m f have "publishStatusEvent w m status ?st = st'" "err = None" by auto
      with started f None publishStatusEvent_effect [of m status ?st st'] show thesis
        by (intro finished [of t db1 t']) simp_all
    qed
  qed
qed

end

definition final_row :: "JobType \<Rightarrow> time \<Rightarrow> Job \<Rightarrow> Job" where
  "final_row ty now = (if ty = JobExportCSV then failed_row ''Failed to export CSV'' now else completed_row now)"

lemma final_row_ID [simp]: "j_ID (final_row ty t j) = j_ID j"
  by (simp add: final_row_def)

lemma handleJob_known:
  assumes "wk_unmarshal w body = Inr m" and "known_type (m_Type m)"
  shows "\<exists>kind pause ferr. handleJob w body st = run_handler kind pause
      (\<lambda>now db. gorm_err (gorm_Updates (wk_repo w) db (\<lambda>j. j_ID j = m_ID m) (final_row (m_Type m) now)))
      ferr (final_status (m_Type m)) w m st"
proof -
  have final: "MarkCompleted (wk_repo w) (m_ID m) = (\<lambda>now db. gorm_err (gorm_Updates (wk_repo w) db (\<lambda>j. j_ID j = m_ID m) (completed_row now)))"
    "MarkFailed (wk_repo w) (m_ID m) msg = (\<lambda>now db. gorm_err (gorm_Updates (wk_repo w) db (\<lambda>j. j_ID j = m_ID m) (failed_row msg now)))" for msg
    by (simp_all add: MarkCompleted_def MarkFailed_def fun_eq_iff)
  consider "m_Type m = JobEmail" | "m_Type m = JobGenerateReport" | "m_Type m = JobResizeImage" | "m_Type m = JobExportCSV"
    using assms(2) by (auto simp: known_type_def)
  then show ?thesis
  proof cases
    case 1
    then have "handleJob w body st = handleSendEmail w m st" by (simp add: handleJob_def assms(1))
    with 1 show ?thesis by (auto simp: handleSendEmail_def final final_row_def final_status_def job_constants)
  next
    case 2
    then have "handleJob w body st = handleReportGeneration w m st" by (simp add: handleJob_def assms(1) job_constants)
    with 2 show ?thesis by (auto simp: handleReportGeneration_def final final_row_def final_status_def job_constants)
  next
    case 3
    then have "handleJob w body st = handleResizeImage w m st" by (simp add: handleJob_def assms(1) job_constants)
    with 3 show ?thesis by (auto simp: handleResizeImage_def final final_row_def final_status_def job_constants)
  next
    case 4
    then have "handleJob w body st = handleExportCSV w m st" by (simp add: handleJob_def assms(1) job_constants)
    with 4 show ?thesis by (auto simp: handleExportCSV_def final final_row_def final_status_def job_constants)
  qed
qed

lemma tracked_twice:
  assumes "job_tracked (running_row wid t r) r1" and "job_tracked (final_row ty t' r1) r2"
  shows "was_finished wid ty r r2"
proof -
  obtain u where "r1 = (running_row wid t r)\<lparr>j_UpdatedAt := u\<rparr>" using assms(1) unfolding job_tracked_def by blast
  moreover obtain v where "r2 = (final_row ty t' r1)\<lparr>j_UpdatedAt := v\<rparr>" using assms(2) unfolding job_tracked_def by blast
  ultimately have "r2 = (if ty = JobExportCSV then failed_row ''Failed to export CSV'' t' (running_row wid t r)
      else completed_row t' (running_row wid t r))\<lparr>j_UpdatedAt := v\<rparr>"
    by (simp add: final_row_def running_row_def failed_row_def completed_row_def)
  then show ?thesis unfolding was_finished_def by blast
qed

lemma tracked_started: "job_tracked (running_row wid t r) r1 \<Longrightarrow> was_started wid r r1"
  unfolding was_started_def job_tracked_def by blast

context worker_env
begin

lemma handleJob_frame:
  assumes "wk_unmarshal w body = Inr m" and "handleJob w body st = (st', err)"
  shows "k \<noteq> m_ID m \<Longrightarrow> tbl (ws_db st') k = tbl (ws_db st) k"
    and "(\<And>r. tbl (ws_db st) (m_ID m) = Some r \<Longrightarrow> \<not> job_live r) \<Longrightarrow> tbl (ws_db st') (m_ID m) = tbl (ws_db st) (m_ID m)"
proof -
  have "(k \<noteq> m_ID m \<longrightarrow> tbl (ws_db st') k = tbl (ws_db st) k)
    \<and> ((\<forall>r. tbl (ws_db st) (m_ID m) = Some r \<longrightarrow> \<not> job_live r) \<longrightarrow> tbl (ws_db st') (m_ID m) = tbl (ws_db st) (m_ID m))"
  proof (cases "known_type (m_Type m)")
    case False
    with assms show ?thesis by (simp add: handleJob_def known_type_def)
  next
    case True
    obtain kind pause ferr where run: "run_handler kind pause
        (\<lambda>now db. gorm_err (gorm_Updates (wk_repo w) db (\<lambda>j. j_ID j = m_ID m) (final_row (m_Type m) now)))
        ferr (final_status (m_Type m)) w m st = (st', err)"
      using handleJob_known [OF assms(1) True, of st] assms(2) by auto
    from run final_row_ID show ?thesis
    proof (cases rule: run_handler_cases)
      case not_started
      then show ?thesis by simp
    next
      case (unfinished e t db1)
      note mark = store.mark_row [OF unfinished(2) [unfolded MarkRunning_def] row_update_ids(1)]
      from mark(1) [of k] mark(4) unfinished(3) show ?thesis by auto
    next
      case (finished t t' db1)
      note mark = store.mark_row [OF finished(2) [unfolded MarkRunning_def] row_update_ids(1)]
      note mark' = store.mark_row [OF finished(3) final_row_ID]
      from mark(1) [of k] mark'(1) [of k] mark(4) mark'(4) show ?thesis by auto
    qed
  qed
  then show "k \<noteq> m_ID m \<Longrightarrow> tbl (ws_db st') k = tbl (ws_db st) k"
    and "(\<And>r. tbl (ws_db st) (m_ID m) = Some r \<Longrightarrow> \<not> job_live r) \<Longrightarrow> tbl (ws_db st') (m_ID m) = tbl (ws_db st) (m_ID m)"
    by blast+
qed

lemma handleJob_failed:
  assumes "wk_unmarshal w body = Inr m" and "handleJob w body st = (st', Some e)"
    and "tbl (ws_db st) (m_ID m) = Some r" and "job_live r"
  shows "published (ws_rdb st') = published (ws_rdb st)"
    and "\<exists>r'. tbl (ws_db st') (m_ID m) = Some r' \<and> (r' = r \<or> was_started (wk_workerID w) r r')"
proof -
  have known: "known_type (m_Type m)" using assms(1,2) by (auto simp: handleJob_def known_type_def split: if_splits)
  obtain kind pause ferr where run: "run_handler kind pause
      (\<lambda>now db. gorm_err (gorm_Updates (wk_repo w) db (\<lambda>j. j_ID j = m_ID m) (final_row (m_Type m) now)))
      ferr (final_status (m_Type m)) w m st = (st', Some e)"
    using handleJob_known [OF assms(1) known, of st] assms(2) by auto
  from run final_row_ID have "published (ws_rdb st') = published (ws_rdb st)
    \<and> (\<exists>r'. tbl (ws_db st') (m_ID m) = Some r' \<and> (r' = r \<or> was_started (wk_workerID w) r r'))"
  proof (cases rule: run_handler_cases)
    case (unfinished x t db1)
    from store.mark_row(3) [OF unfinished(2) [unfolded MarkRunning_def] row_update_ids(1) refl assms(3,4)]
    show ?thesis using unfinished by (auto dest: tracked_started)
  qed (use assms(3) in auto)
  then show "published (ws_rdb st') = published (ws_rdb st)"
    and "\<exists>r'. tbl (ws_db st') (m_ID m) = Some r' \<and> (r' = r \<or> was_started (wk_workerID w) r r')"
    by blast+
qed

lemma handleJob_done:
  assumes "wk_unmarshal w body = Inr m" and "known_type (m_Type m)" and "handleJob w body st = (st', None)"
  shows "published (ws_rdb st') = published (ws_rdb st)
     \<or> published (ws_rdb st') = published (ws_rdb st) @ [status_event m (final_status (m_Type m))]"
    and "tbl (ws_db st) (m_ID m) = Some r \<Longrightarrow> job_live r \<Longrightarrow>
      \<exists>r'. tbl (ws_db st') (m_ID m) = Some r' \<and> was_finished (wk_workerID w) (m_Type m) r r'"
proof -
  obtain kind pause ferr where run: "run_handler kind pause
      (\<lambda>now db. gorm_err (gorm_Updates (wk_repo w) db (\<lambda>j. j_ID j = m_ID m) (final_row (m_Type m) now)))
      ferr (final_status (m_Type m)) w m st = (st', None)"
    using handleJob_known [OF assms(1,2), of st] assms(3) by auto
  from run final_row_ID have "(published (ws_rdb st') = published (ws_rdb st)
     \<or> published (ws_rdb st') = published (ws_rdb st) @ [status_event m (final_status (m_Type m))])
    \<and> (tbl (ws_db st) (m_ID m) = Some r \<longrightarrow> job_live r \<longrightarrow>
      (\<exists>r'. tbl (ws_db st') (m_ID m) = Some r' \<and> was_finished (wk_workerID w) (m_Type m) r r'))"
  proof (cases rule: run_handler_cases)
    case (finished t t' db1)
    have "\<exists>r'. tbl (ws_db st') (m_ID m) = Some r' \<and> was_finished (wk_workerID w) (m_Type m) r r'"
      if r: "tbl (ws_db st) (m_ID m) = Some r" "job_live r"
    proof -
      from store.mark_row(3) [OF finished(2) [unfolded MarkRunning_def] row_update_ids(1) refl r]
      obtain r1 where r1: "tbl db1 (m_ID m) = Some r1" "job_tracked (running_row (wk_workerID w) t r) r1" by blast
      have "job_live r1" using r(2) job_tracked_sel(16) [OF r1(2)] by (simp add: job_live_def)
      from store.mark_row(3) [OF finished(3) final_row_ID refl r1(1) this] r1(2) show ?thesis
        by (blast intro: tracked_twice)
    qed
    with finished(4) show ?thesis by blast
  qed simp_all
  then show "published (ws_rdb st') = published (ws_rdb st)
     \<or> published (ws_rdb st') = published (ws_rdb st) @ [status_event m (final_status (m_Type m))]"
    and "tbl (ws_db st) (m_ID m) = Some r \<Longrightarrow> job_live r \<Longrightarrow>
      \<exists>r'. tbl (ws_db st') (m_ID m) = Some r' \<and> was_finished (wk_workerID w) (m_Type m) r r'"
    by blast+
qed

end

section \<open>Retries\<close>

text \<open>An invariant of the failing calls holds when the retry loop gives up.\<close>

lemma consume_attempts_failing:
  assumes "\<And>s s' e. P s \<Longrightarrow> h body s = (s', Some e) \<Longrightarrow> P s'"
    and "P s" and "consume_attempts h body m a l s = (s', Some e, acts)"
  shows "P s'"
  using assms(2,3)
proof (induction "nat (m + 1 - a)" arbitrary: a l s acts)
  case 0
  then show ?case by (subst (asm) consume_attempts.simps) (auto split: if_splits prod.splits option.splits)
next
  case (Suc n)
  obtain s1 e1 where h: "h body s = (s1, e1)" by (cases "h body s")
  have "a \<le> m" using Suc.hyps(2) by simp
  with Suc.prems(2) h obtain x where e1: "e1 = Some x"
    by (cases e1) (subst (asm) consume_attempts.simps, simp)+
  obtain acts' where run: "consume_attempts h body m (a + 1) (Some x) s1 = (s', Some e, acts')"
    using Suc.prems(2) h e1 \<open>a \<le> m\<close> by (subst (asm) consume_attempts.simps) (auto split: prod.splits)
  have "P s1" using assms(1) [OF Suc.prems(1)] h e1 by simp
  with Suc.hyps(1) [OF _ this run] Suc.hyps(2) show ?case by simp
qed

lemma process_message_rejected:
  assumes "\<And>s s' e. P s \<Longrightarrow> h body s = (s', Some e) \<Longrightarrow> P s'"
    and "P s" and "process_message gm h body s = (s', acts)" and "last acts = MsgNack False False"
  shows "P s'"
proof -
  obtain l as where run: "consume_attempts h body (gm body) 0 None s = (s', l, as)"
    and acts: "acts = WgAdd # as @ [WgDone, if l \<noteq> None then MsgNack False False else MsgAck]"
    using assms(3) by (auto simp: process_message_def split: prod.splits)
  from acts assms(4) obtain e where "l = Some e" by (cases l) auto
  with run show ?thesis by (intro consume_attempts_failing [of P h body s _ _ _ s' e as, OF assms(1)] assms(2)) simp_all
qed

context worker_env
begin

lemma rejected_job:
  assumes m: "wk_unmarshal w body = Inr m" and r: "tbl (ws_db st) (m_ID m) = Some r" "job_live r"
    and run: "process_message gm (handleJob w) body st = (st', acts)" and rejected: "last acts = MsgNack False False"
  shows "published (ws_rdb st') = published (ws_rdb st)
    \<and> (\<exists>r'. tbl (ws_db st') (m_ID m) = Some r' \<and> (r' = r \<or> j_Status r' = JobStatusRunning \<and> j_DeletedAt r' = None))"
proof (rule process_message_rejected [OF _ _ run rejected])
  fix s s' e
  assume inv: "published (ws_rdb s) = published (ws_rdb st) \<and>
      (\<exists>r'. tbl (ws_db s) (m_ID m) = Some r' \<and> (r' = r \<or> j_Status r' = JobStatusRunning \<and> j_DeletedAt r' = None))"
    and h: "handleJob w body s = (s', Some e)"
  then obtain r1 where r1: "tbl (ws_db s) (m_ID m) = Some r1" "r1 = r \<or> j_Status r1 = JobStatusRunning \<and> j_DeletedAt r1 = None"
    by blast
  have live: "job_live r1" using r1(2) r(2) by (auto simp: job_live_def)
  note step = handleJob_failed [OF m h r1(1) live]
  from step(2) obtain r2 where r2: "tbl (ws_db s') (m_ID m) = Some r2" "r2 = r1 \<or> was_started (wk_workerID w) r1 r2" by blast
  have "r2 = r \<or> j_Status r2 = JobStatusRunning \<and> j_DeletedAt r2 = None"
    using r1(2) r2(2) live was_started_sel(1,5) by (auto simp: job_live_def)
  with step(1) inv r2(1) show "published (ws_rdb s') = published (ws_rdb st) \<and>
      (\<exists>r'. tbl (ws_db s') (m_ID m) = Some r' \<and> (r' = r \<or> j_Status r' = JobStatusRunning \<and> j_DeletedAt r' = None))"
    by auto
qed (use r in auto)

end

section \<open>A worker over the reference store and server\<close>

definition mem_worker :: "JobType \<Rightarrow> (Job mem_db, ref_redis) Worker" where
  "mem_worker ty = New_Worker mem_jobs ref_client
     (\<lambda>b. Inr \<lparr>m_ID = b, m_UserID = ''ann'', m_Type = ty, m_Payload = None, m_Priority = 5,
        m_MaxRetries = 1, m_ScheduledAt = 0\<rparr>) ''host'' 7"

lemma mem_worker_sel [simp]:
  "wk_repo (mem_worker ty) = mem_jobs" "wk_rdb (mem_worker ty) = ref_client"
  "wk_unmarshal (mem_worker ty) b = Inr \<lparr>m_ID = b, m_UserID = ''ann'', m_Type = ty, m_Payload = None, m_Priority = 5,
     m_MaxRetries = 1, m_ScheduledAt = 0\<rparr>"
  by (simp_all add: mem_worker_def New_Worker_def)

interpretation mem_worker: worker_env "mem_worker ty" "mem_tbl j_ID" rr_log for ty
  unfolding worker_env_def by (simp add: mem_jobs.jobs_store_axioms rr.redis_pubsub_axioms)

definition queued_row :: "string \<Rightarrow> Job" where
  "queued_row i = zeroJob\<lparr>j_ID := i, j_UserID := ''ann'', j_Status := JobStatusPending, j_QueuedAt := Some 0\<rparr>"

definition mem_ws :: "Job list \<Rightarrow> string option list \<Rightarrow> (Job mem_db, ref_redis) worker_state" where
  "mem_ws js faults = \<lparr>ws_db = \<lparr>mem_rows = js, mem_faults = faults, mem_supply = 0\<rparr>, ws_rdb = rr_init,
     ws_clock = sconst 5, ws_slept = 0\<rparr>"

lemma mem_ws_row: "mem_tbl j_ID (ws_db (mem_ws [queued_row i] fs)) i = Some (queued_row i)" "job_live (queued_row i)"
  by (simp_all add: mem_ws_def mem_tbl_def queued_row_def job_live_def zeroJob_def)

lemma mem_ws_log: "rr_log (ws_rdb (mem_ws js fs)) = []"
  by (simp add: mem_ws_def rr_init_def)

lemmas worker_eval = handleJob_def handleSendEmail_def handleReportGeneration_def handleResizeImage_def handleExportCSV_def
  run_handler_def MarkRunning_def MarkCompleted_def MarkFailed_def running_row_def completed_row_def failed_row_def
  publishStatusEvent_def marshal_event_def mem_ws_def queued_row_def zeroJob_def job_live_def mem_jobs_def mem_defs
  redis_Publish_def rr_defs rr_init_def time_Now_def Let_def

section \<open>Properties\<close>

text \<open>
  A job whose handler returns without error was recorded: its row, if live, has the final state of its
  type (failed for a CSV export, completed for the others), one more attempt, this worker's id and a completion
  time; no other row changed; and at most one message went out, to the job owner's channel, announcing that
  final state.
\<close>

theorem handle_job_records_outcome:
  assumes "worker_env w tbl published" and "wk_unmarshal w body = Inr m" and "known_type (m_Type m)"
    and "handleJob w body st = (st', None)"
  shows "(\<forall>r. tbl (ws_db st) (m_ID m) = Some r \<longrightarrow> job_live r \<longrightarrow>
       (\<exists>r'. tbl (ws_db st') (m_ID m) = Some r' \<and> j_Status r' = final_status (m_Type m)
          \<and> j_Attempts r' = j_Attempts r + 1 \<and> j_WorkerID r' = Some (wk_workerID w) \<and> j_CompletedAt r' \<noteq> None
          \<and> j_UserID r' = j_UserID r \<and> j_Payload r' = j_Payload r))
    \<and> (\<forall>k. k \<noteq> m_ID m \<longrightarrow> tbl (ws_db st') k = tbl (ws_db st) k)
    \<and> published (ws_rdb st') \<in> {published (ws_rdb st),
         published (ws_rdb st) @ [status_event m (final_status (m_Type m))]}"
proof -
  note ended = worker_env.handleJob_done [OF assms]
  have "\<exists>r'. tbl (ws_db st') (m_ID m) = Some r' \<and> j_Status r' = final_status (m_Type m)
          \<and> j_Attempts r' = j_Attempts r + 1 \<and> j_WorkerID r' = Some (wk_workerID w) \<and> j_CompletedAt r' \<noteq> None
          \<and> j_UserID r' = j_UserID r \<and> j_Payload r' = j_Payload r"
    if r: "tbl (ws_db st) (m_ID m) = Some r" "job_live r" for r
  proof -
    obtain r' where r': "tbl (ws_db st') (m_ID m) = Some r'" "was_finished (wk_workerID w) (m_Type m) r r'"
      using ended(2) [OF r] by blast
    with was_finished_sel [OF r'(2)] show ?thesis by auto
  qed
  with ended(1) worker_env.handleJob_frame(1) [OF assms(1,2,4)] show ?thesis by simp
qed

theorem handle_job_records_outcome_witness:
  "\<exists>r'. mem_tbl j_ID (ws_db (fst (handleJob (mem_worker JobExportCSV) ''j1'' (mem_ws [queued_row ''j1''] [])))) ''j1'' = Some r'
     \<and> j_Status r' = JobStatusFailed \<and> j_Attempts r' = 1"
proof -
  obtain st' where run: "handleJob (mem_worker JobExportCSV) ''j1'' (mem_ws [queued_row ''j1''] []) = (st', None)"
    by (simp add: worker_eval job_constants)
  have "j_Attempts (queued_row ''j1'') = 0" by (simp add: queued_row_def zeroJob_def)
  with handle_job_records_outcome [OF mem_worker.worker_env_axioms mem_worker_sel(3) _ run] mem_ws_row [of "''j1''"]
  show ?thesis by (auto simp: run known_type_def final_status_def)
qed

text \<open>
  C22. A message that the consumer rejects after its last retry (without requeueing, and no queue has a dead-letter
  exchange) leaves no trace of the failure: no status event was published, the row is either untouched or
  stays in state running, and a reconciler query does not find a row left in state running.
\<close>

theorem rejected_job_never_marked_failed:
  assumes "worker_env w tbl published" and "wk_unmarshal w body = Inr m"
    and "tbl (ws_db st) (m_ID m) = Some r" and "job_live r"
    and "process_message (jobMaxRetries (wk_unmarshal w)) (handleJob w) body st = (st', acts)"
    and "last acts = MsgNack False False"
  shows "published (ws_rdb st') = published (ws_rdb st)
    \<and> (\<exists>r'. tbl (ws_db st') (m_ID m) = Some r'
         \<and> (r' = r \<or> j_Status r' = JobStatusRunning \<and> (\<forall>t. \<not> unqueued_pending t r')))"
  using worker_env.rejected_job [OF assms] by (auto simp: unqueued_pending_def job_constants)

theorem rejected_job_never_marked_failed_witness:
  "rr_log (ws_rdb (fst (process_message (jobMaxRetries (wk_unmarshal (mem_worker JobEmail))) (handleJob (mem_worker JobEmail)) ''j1''
      (mem_ws [queued_row ''j1''] [None, Some ''down'', None, Some ''down''])))) = []"
proof -
  let ?fs = "[None, Some ''down'', None, Some ''down'']"
  obtain st' acts where run: "process_message (jobMaxRetries (wk_unmarshal (mem_worker JobEmail))) (handleJob (mem_worker JobEmail)) ''j1''
      (mem_ws [queued_row ''j1''] ?fs) = (st', acts)" and "last acts = MsgNack False False"
    by (simp add: process_message_def jobMaxRetries_def consume_attempts.simps worker_eval job_constants)
  from rejected_job_never_marked_failed [OF mem_worker.worker_env_axioms mem_worker_sel(3) _ _ this]
    mem_ws_row(1) [of "''j1''" ?fs] mem_ws_row(2) [of "''j1''"] show ?thesis
    by (auto simp: run mem_ws_log)
qed

text \<open>
  For a job whose row is gone or deleted by the time its message arrives, a handler still reports success: it changes
  no row, yet the status event it publishes announces a finished job.
\<close>

theorem handle_job_without_row:
  assumes "worker_env w tbl published" and "wk_unmarshal w body = Inr m" and "known_type (m_Type m)"
    and "handleJob w body st = (st', None)" and "\<And>r. tbl (ws_db st) (m_ID m) = Some r \<Longrightarrow> \<not> job_live r"
  shows "tbl (ws_db st') = tbl (ws_db st)
    \<and> published (ws_rdb st') \<in> {published (ws_rdb st),
         published (ws_rdb st) @ [status_event m (final_status (m_Type m))]}"
proof -
  have "tbl (ws_db st') k = tbl (ws_db st) k" for k
    using worker_env.handleJob_frame [OF assms(1,2,4)] assms(5) by (cases "k = m_ID m") auto
  with worker_env.handleJob_done(1) [OF assms(1-4)] show ?thesis by auto
qed

theorem handle_job_without_row_witness:
  "mem_tbl j_ID (ws_db (fst (handleJob (mem_worker JobEmail) ''j1'' (mem_ws [] [])))) = Map.empty
   \<and> length (rr_log (ws_rdb (fst (handleJob (mem_worker JobEmail) ''j1'' (mem_ws [] []))))) = 1"
proof -
  obtain st' where run: "handleJob (mem_worker JobEmail) ''j1'' (mem_ws [] []) = (st', None)"
    and log: "length (rr_log (ws_rdb st')) = 1"
    by (simp add: worker_eval job_constants)
  have "mem_tbl j_ID (ws_db (mem_ws [] [])) = Map.empty" by (simp add: mem_ws_def mem_tbl_def)
  with handle_job_without_row [OF mem_worker.worker_env_axioms mem_worker_sel(3) _ run] log show ?thesis
    by (simp add: run known_type_def)
qed

text \<open>
  The wait group is released before the message is settled: after any message there is a moment at
  which the drain sees no job in flight while the message is neither acknowledged nor rejected, so a shutdown
  there leaves it to be delivered and run again.
\<close>

theorem drained_before_settled:
  assumes "process_message gm h body s = (s', acts)"
  shows "\<exists>pre post. acts = pre @ post \<and> wg_count pre = 0 \<and> settled pre = 0 \<and> settled post = 1
    \<and> filter (\<lambda>x. x = HandlerCall) pre = filter (\<lambda>x. x = HandlerCall) acts"
proof -
  obtain l as where run: "consume_attempts h body (gm body) 0 None s = (s', l, as)"
    and acts: "acts = WgAdd # as @ [WgDone, if l \<noteq> None then MsgNack False False else MsgAck]"
    using assms by (auto simp: process_message_def split: prod.splits)
  have "wg_count as = 0 \<and> settled as = 0" by (rule attempts_neutral [OF run])
  then show ?thesis
    by (intro exI [of _ "WgAdd # as @ [WgDone]"] exI [of _ "[if l \<noteq> None then MsgNack False False else MsgAck]"])
       (auto simp: acts)
qed

theorem drained_before_settled_witness:
  "\<exists>pre post. snd (process_message (\<lambda>b. 0) (\<lambda>b s. (s, None :: string option)) ''m'' ()) = pre @ post
     \<and> wg_count pre = 0 \<and> settled pre = 0"
  using drained_before_settled [OF prod.collapse [symmetric], of "\<lambda>b. 0" "\<lambda>b s. (s, None :: string option)" "''m''" "()"] by blast

end
