(* ===== verification/Sse.thy ===== *)
theory Sse
  imports Httpx Worker "HOL-Library.Sublist"
begin

text \<open>
  Package \<^verbatim>\<open>internal/sse\<close>: the registry of open event streams (\<^verbatim>\<open>manager.go\<close>), the relay from the message bus
  (\<^verbatim>\<open>subscriber.go\<close>) and the request handler (\<^verbatim>\<open>handler.go\<close>).

  Channels are shared between the registry and the stream that reads from them, and closing one has effects (a send on a
  closed channel panics), so they live in an explicit store, indexed by address. The outer and inner maps of the registry
  are maps to such addresses. A panic is \<open>None\<close>. The mutex makes every method one atomic step; a
  step relation interleaves them with the reads of the streams.
\<close>

section \<open>Model\<close>

record chan =
  ch_buf :: "string list"
  ch_closed :: bool

record ClientManager =
  cm_clients :: "string \<Rightarrow> (string \<Rightarrow> nat option) option"
  cm_chans :: "nat \<Rightarrow> chan option"
  cm_next :: nat

definition clientBuffer :: nat where "clientBuffer = 10"

definition NewClientManager :: ClientManager where
  "NewClientManager = \<lparr>cm_clients = Map.empty, cm_chans = Map.empty, cm_next = 0\<rparr>"

definition conns_of :: "ClientManager \<Rightarrow> string \<Rightarrow> string \<Rightarrow> nat option" where
  \<comment> \<open>the lookup of a missing user gives the nil map, which reads as empty\<close>
  "conns_of m userID = (case cm_clients m userID of None \<Rightarrow> Map.empty | Some conns \<Rightarrow> conns)"

text \<open>\<open>connID\<close> is the fresh UUID that the call draws.\<close>

definition AddClient :: "string \<Rightarrow> string \<Rightarrow> ClientManager \<Rightarrow> ClientManager \<times> string \<times> nat" where
  "AddClient connID userID m =
     (let ch = cm_next m
      in (m\<lparr>cm_next := Suc ch, cm_chans := (cm_chans m)(ch \<mapsto> \<lparr>ch_buf = [], ch_closed = False\<rparr>),
            cm_clients := (cm_clients m)(userID \<mapsto> (conns_of m userID)(connID \<mapsto> ch))\<rparr>, connID, ch))"

definition close_chan :: "nat \<Rightarrow> ClientManager \<Rightarrow> ClientManager option" where
  "close_chan ch m = (case cm_chans m ch of
       None \<Rightarrow> None
     | Some c \<Rightarrow> if ch_closed c then None else Some (m\<lparr>cm_chans := (cm_chans m)(ch \<mapsto> c\<lparr>ch_closed := True\<rparr>)\<rparr>))"

definition RemoveClient :: "string \<Rightarrow> string \<Rightarrow> ClientManager \<Rightarrow> ClientManager option" where
  "RemoveClient userID connID m = (case cm_clients m userID of
       None \<Rightarrow> Some m
     | Some conns \<Rightarrow>
         (case (case conns connID of
                  None \<Rightarrow> Some (m, conns)
                | Some ch \<Rightarrow> map_option (\<lambda>m'. (m', conns(connID := None))) (close_chan ch m)) of
            None \<Rightarrow> None
          | Some (m', conns') \<Rightarrow>
              Some (m'\<lparr>cm_clients := (cm_clients m')(userID := (if conns' = Map.empty then None else Some conns'))\<rparr>)))"

definition try_send :: "string \<Rightarrow> nat \<Rightarrow> ClientManager \<Rightarrow> ClientManager option" where
  \<comment> \<open>a non-blocking send: dropped when the buffer is full, a panic on a closed channel\<close>
  "try_send message ch m = (case cm_chans m ch of
       None \<Rightarrow> None
     | Some c \<Rightarrow>
         if ch_closed c then None
         else if length (ch_buf c) < clientBuffer
         then Some (m\<lparr>cm_chans := (cm_chans m)(ch \<mapsto> c\<lparr>ch_buf := ch_buf c @ [message]\<rparr>)\<rparr>)
         else Some m)"

fun send_all :: "string \<Rightarrow> nat list \<Rightarrow> ClientManager \<Rightarrow> ClientManager option" where
  "send_all message [] m = Some m"
| "send_all message (ch # chs) m = (case try_send message ch m of None \<Rightarrow> None | Some m' \<Rightarrow> send_all message chs m')"

text \<open>\<open>order\<close> is the order in which \<^verbatim>\<open>range\<close> visits the connections of the user, which Go leaves open.\<close>

definition iteration :: "string list \<Rightarrow> (string \<Rightarrow> nat option) \<Rightarrow> bool" where
  "iteration order conns \<longleftrightarrow> distinct order \<and> set order = dom conns"

definition SendToClient :: "string list \<Rightarrow> string \<Rightarrow> string \<Rightarrow> ClientManager \<Rightarrow> ClientManager option" where
  "SendToClient order userID message m = send_all message (map (\<lambda>c. the (conns_of m userID c)) order) m"

definition receive :: "nat \<Rightarrow> ClientManager \<Rightarrow> (string \<times> ClientManager) option" where
  \<comment> \<open>a stream takes the oldest buffered message of its channel\<close>
  "receive ch m = (case cm_chans m ch of
       None \<Rightarrow> None
     | Some c \<Rightarrow> (case ch_buf c of [] \<Rightarrow> None | x # xs \<Rightarrow> Some (x, m\<lparr>cm_chans := (cm_chans m)(ch \<mapsto> c\<lparr>ch_buf := xs\<rparr>)\<rparr>)))"

subsection \<open>The relay\<close>

definition route :: "string \<Rightarrow> string option" where
  "route channel = (let parts = SplitN channel (CHR '':'') 3 in if length parts = 3 then Some (parts ! 1) else None)"

definition relay :: "string list \<Rightarrow> string \<times> string \<Rightarrow> ClientManager \<Rightarrow> ClientManager option" where
  "relay order msg m = (case msg of (channel, payload) \<Rightarrow>
     (case route channel of None \<Rightarrow> Some m | Some userID \<Rightarrow> SendToClient order userID payload m))"

datatype bus_event = BusMessage "string list" string string | BusClosed | BusCancelled

fun Subscriber_Start :: "bus_event list \<Rightarrow> ClientManager \<Rightarrow> ClientManager option" where
  "Subscriber_Start [] m = Some m"
| "Subscriber_Start (BusClosed # evs) m = Some m"
| "Subscriber_Start (BusCancelled # evs) m = Some m"
| "Subscriber_Start (BusMessage order channel payload # evs) m =
     (case relay order (channel, payload) m of None \<Rightarrow> None | Some m' \<Rightarrow> Subscriber_Start evs m')"

subsection \<open>The handler\<close>

datatype stream_start = Refused "unit response" | Streaming string nat

definition SSEStream :: "string \<Rightarrow> gin_context \<Rightarrow> ClientManager \<Rightarrow> ClientManager \<times> stream_start" where
  "SSEStream connID c m =
     (let userId = gc_Param c ''userId''; (tokenUserID, ok) = UserIDFromContext c
      in if \<not> ok \<or> tokenUserID \<noteq> userId then (m, Refused (Error 403 ''forbidden''))
         else (case AddClient connID userId m of (m', cid, ch) \<Rightarrow> (m', Streaming cid ch)))"

datatype stream_input = StreamMsg string | StreamClosed | StreamDone

definition stream_step :: "stream_input \<Rightarrow> (string \<times> string) option" where
  \<comment> \<open>the event written, or \<open>None\<close> when the stream ends\<close>
  "stream_step inp = (case inp of StreamMsg msg \<Rightarrow> Some (''job'', msg) | StreamClosed \<Rightarrow> None | StreamDone \<Rightarrow> None)"

section \<open>Interleavings\<close>

datatype sse_event =
    EvAdd string string nat
  | EvRemove string string
  | EvSend string string
  | EvRecv nat string

text \<open>Every UUID is drawn once (\<open>used\<close> lists those drawn so far).\<close>

inductive sse_step :: "string set \<times> ClientManager \<Rightarrow> sse_event \<Rightarrow> string set \<times> ClientManager \<Rightarrow> bool" where
  add: "connID \<notin> used \<Longrightarrow> AddClient connID userID m = (m', connID, ch) \<Longrightarrow>
    sse_step (used, m) (EvAdd userID connID ch) (insert connID used, m')"
| remove: "RemoveClient userID connID m = Some m' \<Longrightarrow> sse_step (used, m) (EvRemove userID connID) (used, m')"
| send: "iteration order (conns_of m userID) \<Longrightarrow> SendToClient order userID message m = Some m' \<Longrightarrow>
    sse_step (used, m) (EvSend userID message) (used, m')"
| recv: "receive ch m = Some (x, m') \<Longrightarrow> sse_step (used, m) (EvRecv ch x) (used, m')"

inductive_cases sse_stepE: "sse_step s ev s'"

inductive sse_run :: "string set \<times> ClientManager \<Rightarrow> sse_event list \<Rightarrow> string set \<times> ClientManager \<Rightarrow> bool" where
  run_nil: "sse_run s [] s"
| run_cons: "sse_step s ev s1 \<Longrightarrow> sse_run s1 evs s2 \<Longrightarrow> sse_run s (ev # evs) s2"

section \<open>The invariant\<close>

text \<open>
  Registered channels are allocated, open and within their buffer, two connections never share one, connection ids are among the drawn ones, and no user is
  registered without a connection.
\<close>

definition cm_ok :: "string set \<Rightarrow> ClientManager \<Rightarrow> bool" where
  "cm_ok used m \<longleftrightarrow>
     (\<forall>u c ch. conns_of m u c = Some ch \<longrightarrow> c \<in> used \<and> ch < cm_next m \<and>
        (\<exists>k. cm_chans m ch = Some k \<and> \<not> ch_closed k))
   \<and> (\<forall>u c u' c' ch. conns_of m u c = Some ch \<longrightarrow> conns_of m u' c' = Some ch \<longrightarrow> u = u' \<and> c = c')
   \<and> (\<forall>ch k. cm_chans m ch = Some k \<longrightarrow> length (ch_buf k) \<le> clientBuffer)
   \<and> (\<forall>u. cm_clients m u \<noteq> Some Map.empty)"

definition push :: "string \<Rightarrow> chan \<Rightarrow> chan" where
  "push message c = (if length (ch_buf c) < clientBuffer then c\<lparr>ch_buf := ch_buf c @ [message]\<rparr> else c)"

lemma push_sel [simp]: "ch_closed (push x c) = ch_closed c"
  by (simp add: push_def)

lemma push_bound: "length (ch_buf c) \<le> clientBuffer \<Longrightarrow> length (ch_buf (push x c)) \<le> clientBuffer"
  by (simp add: push_def)

lemma try_send_open:
  assumes "cm_chans m ch = Some k" and "\<not> ch_closed k"
  shows "try_send x ch m = Some (m\<lparr>cm_chans := (cm_chans m)(ch \<mapsto> push x k)\<rparr>)"
proof -
  have "m\<lparr>cm_chans := (cm_chans m)(ch \<mapsto> k)\<rparr> = m" using assms(1) by (simp add: map_upd_triv)
  with assms show ?thesis by (simp add: try_send_def push_def)
qed

lemma send_all_open:
  assumes "distinct chs" and "\<And>ch. ch \<in> set chs \<Longrightarrow> \<exists>k. cm_chans m ch = Some k \<and> \<not> ch_closed k"
  shows "send_all x chs m = Some (m\<lparr>cm_chans := \<lambda>ch. if ch \<in> set chs then map_option (push x) (cm_chans m ch) else cm_chans m ch\<rparr>)"
  using assms
proof (induction chs arbitrary: m)
  case (Cons ch chs)
  obtain k where k: "cm_chans m ch = Some k" "\<not> ch_closed k" using Cons.prems(2) [of ch] by auto
  let ?m = "m\<lparr>cm_chans := (cm_chans m)(ch \<mapsto> push x k)\<rparr>"
  have "send_all x chs ?m = Some (?m\<lparr>cm_chans := \<lambda>c. if c \<in> set chs then map_option (push x) (cm_chans ?m c) else cm_chans ?m c\<rparr>)"
    using Cons.prems by (intro Cons.IH) auto
  moreover have "(\<lambda>c. if c \<in> set chs then map_option (push x) (cm_chans ?m c) else cm_chans ?m c) =
      (\<lambda>c. if c \<in> set (ch # chs) then map_option (push x) (cm_chans m c) else cm_chans m c)"
    using Cons.prems(1) k by (auto simp: fun_eq_iff)
  ultimately show ?case using try_send_open [OF k] by simp
qed simp

lemma cm_okD:
  assumes "cm_ok used m"
  shows "conns_of m u c = Some ch \<Longrightarrow> c \<in> used \<and> ch < cm_next m \<and> (\<exists>k. cm_chans m ch = Some k \<and> \<not> ch_closed k)"
    and "conns_of m u c = Some ch \<Longrightarrow> conns_of m u' c' = Some ch \<Longrightarrow> u = u' \<and> c = c'"
    and "cm_chans m ch = Some k \<Longrightarrow> length (ch_buf k) \<le> clientBuffer"
    and "cm_clients m u \<noteq> Some Map.empty"
  using assms unfolding cm_ok_def by blast+

lemma cm_okI:
  assumes "\<And>u c ch. conns_of m u c = Some ch \<Longrightarrow> c \<in> used \<and> ch < cm_next m \<and> (\<exists>k. cm_chans m ch = Some k \<and> \<not> ch_closed k)"
    and "\<And>u c u' c' ch. conns_of m u c = Some ch \<Longrightarrow> conns_of m u' c' = Some ch \<Longrightarrow> u = u' \<and> c = c'"
    and "\<And>ch k. cm_chans m ch = Some k \<Longrightarrow> length (ch_buf k) \<le> clientBuffer"
    and "\<And>u. cm_clients m u \<noteq> Some Map.empty"
  shows "cm_ok used m"
  using assms unfolding cm_ok_def by blast

text \<open>A send delivers to every stream of its user, drops where the buffer is full, and touches no other channel.\<close>

lemma SendToClient_effect:
  assumes "cm_ok used m" and "iteration order (conns_of m userID)"
  shows "SendToClient order userID x m =
    Some (m\<lparr>cm_chans := \<lambda>ch. if ch \<in> ran (conns_of m userID) then map_option (push x) (cm_chans m ch) else cm_chans m ch\<rparr>)"
proof -
  let ?chs = "map (\<lambda>c. the (conns_of m userID c)) order"
  have dom: "set order = dom (conns_of m userID)" "distinct order" using assms(2) by (auto simp: iteration_def)
  have "inj_on (\<lambda>c. the (conns_of m userID c)) (dom (conns_of m userID))"
    using cm_okD(2) [OF assms(1)] by (intro inj_onI) (auto simp: dom_def)
  with dom have "distinct ?chs" by (simp add: distinct_map)
  moreover have set: "set ?chs = ran (conns_of m userID)" using dom by (force simp: ran_def dom_def image_iff)
  moreover have "\<exists>k. cm_chans m ch = Some k \<and> \<not> ch_closed k" if "ch \<in> set ?chs" for ch
    using that cm_okD(1) [OF assms(1)] unfolding set by (auto simp: ran_def)
  ultimately show ?thesis using send_all_open [of ?chs m x] by (simp add: SendToClient_def del: set_map)
qed

lemma SendToClient_ok:
  assumes "cm_ok used m" and "iteration order (conns_of m userID)" and "SendToClient order userID x m = Some m'"
  shows "cm_ok used m'" and "conns_of m' = conns_of m"
proof -
  have m': "m' = m\<lparr>cm_chans := \<lambda>ch. if ch \<in> ran (conns_of m userID) then map_option (push x) (cm_chans m ch) else cm_chans m ch\<rparr>"
    using SendToClient_effect [OF assms(1,2)] assms(3) by simp
  then show conns: "conns_of m' = conns_of m" by (simp add: conns_of_def fun_eq_iff)
  show "cm_ok used m'"
  proof (rule cm_okI)
    fix u c ch
    assume "conns_of m' u c = Some ch"
    then have "conns_of m u c = Some ch" by (simp add: conns)
    from cm_okD(1) [OF assms(1) this] show "c \<in> used \<and> ch < cm_next m' \<and> (\<exists>k. cm_chans m' ch = Some k \<and> \<not> ch_closed k)"
      by (auto simp: m')
  next
    show "u = u' \<and> c = c'" if "conns_of m' u c = Some ch" "conns_of m' u' c' = Some ch" for u c u' c' ch
      using cm_okD(2) [OF assms(1)] that by (simp add: conns)
  next
    show "length (ch_buf k) \<le> clientBuffer" if "cm_chans m' ch = Some k" for ch k
      using that cm_okD(3) [OF assms(1)] push_bound by (fastforce simp: m' split: if_splits)
  next
    show "cm_clients m' u \<noteq> Some Map.empty" for u using cm_okD(4) [OF assms(1)] by (simp add: m')
  qed
qed

lemma AddClient_conns:
  assumes "AddClient connID userID m = (m', cid, ch)"
  shows "cid = connID" "ch = cm_next m" "cm_next m' = Suc ch"
    "conns_of m' u c = (if u = userID \<and> c = connID then Some ch else conns_of m u c)"
    "cm_chans m' = (cm_chans m)(ch \<mapsto> \<lparr>ch_buf = [], ch_closed = False\<rparr>)"
    "cm_clients m' u = (if u = userID then Some ((conns_of m userID)(connID \<mapsto> ch)) else cm_clients m u)"
  using assms by (auto simp: AddClient_def Let_def conns_of_def)

lemma AddClient_ok:
  assumes "cm_ok used m" and "connID \<notin> used" and "AddClient connID userID m = (m', cid, ch)"
  shows "cm_ok (insert connID used) m'"
proof (rule cm_okI)
  note add = AddClient_conns [OF assms(3)]
  note old = cm_okD [OF assms(1)]
  show "c \<in> insert connID used \<and> x < cm_next m' \<and> (\<exists>k. cm_chans m' x = Some k \<and> \<not> ch_closed k)"
    if "conns_of m' u c = Some x" for u c x
  proof (cases "u = userID \<and> c = connID")
    case True
    with that show ?thesis by (simp add: add)
  next
    case False
    with that have "conns_of m u c = Some x" by (simp add: add(4))
    from old(1) [OF this] show ?thesis by (auto simp: add)
  qed
  show "u = u' \<and> c = c'" if "conns_of m' u c = Some x" "conns_of m' u' c' = Some x" for u c u' c' x
    using that old(1) [of u c x] old(1) [of u' c' x] old(2) [of u c x u' c'] by (auto simp: add split: if_splits)
  show "length (ch_buf k) \<le> clientBuffer" if "cm_chans m' x = Some k" for x k
    using that old(3) by (auto simp: add split: if_splits)
  show "cm_clients m' u \<noteq> Some Map.empty" for u using old(4) by (simp add: add)
qed

lemma RemoveClient_absent:
  assumes "cm_ok used m" and "conns_of m userID connID = None"
  shows "\<exists>m'. RemoveClient userID connID m = Some m' \<and> cm_clients m' = cm_clients m \<and> cm_chans m' = cm_chans m \<and> cm_next m' = cm_next m"
proof (cases "cm_clients m userID")
  case None
  then show ?thesis by (simp add: RemoveClient_def)
next
  case (Some conns)
  have "conns \<noteq> Map.empty" using cm_okD(4) [OF assms(1), of userID] Some by auto
  with Some assms(2) show ?thesis by (auto simp: RemoveClient_def conns_of_def fun_upd_idem)
qed

lemma RemoveClient_present:
  assumes "cm_ok used m" and "conns_of m userID connID = Some ch"
  shows "\<exists>m' k. RemoveClient userID connID m = Some m' \<and> cm_chans m ch = Some k \<and> cm_next m' = cm_next m
    \<and> cm_chans m' = (cm_chans m)(ch \<mapsto> k\<lparr>ch_closed := True\<rparr>)
    \<and> (\<forall>u c. conns_of m' u c = (if u = userID \<and> c = connID then None else conns_of m u c))
    \<and> (\<forall>u. cm_clients m' u \<noteq> Some Map.empty)"
proof -
  obtain conns where conns: "cm_clients m userID = Some conns" "conns connID = Some ch"
    using assms(2) by (auto simp: conns_of_def split: option.splits)
  obtain k where k: "cm_chans m ch = Some k" "\<not> ch_closed k" using cm_okD(1) [OF assms] by blast
  let ?c = "conns(connID := None)"
  let ?m = "m\<lparr>cm_chans := (cm_chans m)(ch \<mapsto> k\<lparr>ch_closed := True\<rparr>),
      cm_clients := (cm_clients m)(userID := (if ?c = Map.empty then None else Some ?c))\<rparr>"
  have "RemoveClient userID connID m = Some ?m" using conns k by (simp add: RemoveClient_def close_chan_def)
  moreover have "conns_of ?m u c = (if u = userID \<and> c = connID then None else conns_of m u c)" for u c
    using conns by (auto simp: conns_of_def fun_eq_iff split: if_splits)
  moreover have "cm_clients ?m u \<noteq> Some Map.empty" for u using cm_okD(4) [OF assms(1)] by simp
  ultimately show ?thesis using k(1) by (intro exI [of _ ?m] exI [of _ k]) auto
qed

lemma cm_ok_cong:
  "cm_ok used m \<Longrightarrow> cm_clients m' = cm_clients m \<Longrightarrow> cm_chans m' = cm_chans m \<Longrightarrow> cm_next m' = cm_next m \<Longrightarrow> cm_ok used m'"
  unfolding cm_ok_def conns_of_def by simp

lemma RemoveClient_ok:
  assumes "cm_ok used m" and "RemoveClient userID connID m = Some m'"
  shows "cm_ok used m'"
proof (cases "conns_of m userID connID")
  case None
  with RemoveClient_absent [OF assms(1) None] assms(2) show ?thesis by (auto intro: cm_ok_cong [OF assms(1)])
next
  case (Some ch)
  from RemoveClient_present [OF assms(1) Some] assms(2) obtain k where
    k: "cm_chans m ch = Some k" "cm_next m' = cm_next m" "cm_chans m' = (cm_chans m)(ch \<mapsto> k\<lparr>ch_closed := True\<rparr>)"
    and conns: "\<And>u c. conns_of m' u c = (if u = userID \<and> c = connID then None else conns_of m u c)"
    and ne: "\<And>u. cm_clients m' u \<noteq> Some Map.empty" by auto
  note old = cm_okD [OF assms(1)]
  show ?thesis
  proof (rule cm_okI)
    show "c \<in> used \<and> x < cm_next m' \<and> (\<exists>k. cm_chans m' x = Some k \<and> \<not> ch_closed k)" if "conns_of m' u c = Some x" for u c x
    proof -
      have c: "conns_of m u c = Some x" "\<not> (u = userID \<and> c = connID)" using that by (auto simp: conns split: if_splits)
      then have "x \<noteq> ch" using old(2) [OF c(1)] Some by blast
      with old(1) [OF c(1)] show ?thesis by (simp add: k)
    qed
    show "u = u' \<and> c = c'" if "conns_of m' u c = Some x" "conns_of m' u' c' = Some x" for u c u' c' x
      using that old(2) by (auto simp: conns split: if_splits)
    show "length (ch_buf y) \<le> clientBuffer" if "cm_chans m' x = Some y" for x y
      using that old(3) [of x] old(3) [OF k(1)] by (auto simp: k split: if_splits)
  qed (rule ne)
qed

lemma receive_ok:
  assumes "cm_ok used m" and "receive ch m = Some (x, m')"
  shows "cm_ok used m'" and "conns_of m' = conns_of m"
proof -
  obtain k xs where k: "cm_chans m ch = Some k" "ch_buf k = x # xs" and m': "m' = m\<lparr>cm_chans := (cm_chans m)(ch \<mapsto> k\<lparr>ch_buf := xs\<rparr>)\<rparr>"
    using assms(2) by (auto simp: receive_def split: option.splits list.splits)
  show conns: "conns_of m' = conns_of m" by (simp add: m' conns_of_def fun_eq_iff)
  note old = cm_okD [OF assms(1)]
  show "cm_ok used m'"
  proof (rule cm_okI)
    show "c \<in> used \<and> y < cm_next m' \<and> (\<exists>k. cm_chans m' y = Some k \<and> \<not> ch_closed k)" if "conns_of m' u c = Some y" for u c y
      using old(1) [of u c y] that [unfolded conns] k by (auto simp: m')
    show "u = u' \<and> c = c'" if "conns_of m' u c = Some y" "conns_of m' u' c' = Some y" for u c u' c' y
      using that old(2) by (simp add: conns)
    show "length (ch_buf z) \<le> clientBuffer" if "cm_chans m' y = Some z" for y z
      using that old(3) [of y] old(3) [OF k(1)] k(2) by (auto simp: m' split: if_splits)
    show "cm_clients m' u \<noteq> Some Map.empty" for u using old(4) by (simp add: m')
  qed
qed

lemma sse_step_ok: "sse_step (used, m) ev (used', m') \<Longrightarrow> cm_ok used m \<Longrightarrow> cm_ok used' m'"
  by (elim sse_stepE) (auto intro: AddClient_ok RemoveClient_ok SendToClient_ok(1) receive_ok(1))

lemma sse_run_ok: "sse_run s evs s' \<Longrightarrow> cm_ok (fst s) (snd s) \<Longrightarrow> cm_ok (fst s') (snd s')"
proof (induction rule: sse_run.induct)
  case (run_cons s ev s1 evs s2)
  then show ?case using sse_step_ok [of "fst s" "snd s" ev "fst s1" "snd s1"] by simp
qed

lemma cm_ok_new: "cm_ok used NewClientManager"
  by (simp add: cm_ok_def NewClientManager_def conns_of_def)

section \<open>Delivery\<close>

fun sent_to :: "string \<Rightarrow> sse_event list \<Rightarrow> string list" where
  "sent_to u [] = []"
| "sent_to u (EvSend v x # evs) = (if u = v then x # sent_to u evs else sent_to u evs)"
| "sent_to u (_ # evs) = sent_to u evs"

fun received_on :: "nat \<Rightarrow> sse_event list \<Rightarrow> string list" where
  "received_on ch [] = []"
| "received_on ch (EvRecv c x # evs) = (if c = ch then x # received_on ch evs else received_on ch evs)"
| "received_on ch (_ # evs) = received_on ch evs"

text \<open>
  A channel belongs to one user from its registration on: what is pending in it and what a step adds comes from sends to
  that user. Once it is not registered (any more), nothing is added.
\<close>

definition owned :: "string \<Rightarrow> nat \<Rightarrow> ClientManager \<Rightarrow> bool" where
  "owned u ch m \<longleftrightarrow> ch < cm_next m \<and> (\<forall>v c. conns_of m v c = Some ch \<longrightarrow> v = u)"

definition pending :: "nat \<Rightarrow> ClientManager \<Rightarrow> string list" where
  "pending ch m = (case cm_chans m ch of None \<Rightarrow> [] | Some k \<Rightarrow> ch_buf k)"

lemma sse_step_delivery:
  assumes "sse_step (used, m) ev (used', m')" and "cm_ok used m" and "owned u ch m"
  shows "owned u ch m' \<and> (\<exists>zs. subseq zs (sent_to u [ev]) \<and> received_on ch [ev] @ pending ch m' = pending ch m @ zs)"
  using assms(1)
proof (cases rule: sse_step.cases)
  case (add connID userID c)
  note eff = AddClient_conns [OF add(4)]
  have lt: "ch < c" using assms(3) eff(2) by (simp add: owned_def)
  have "v = u" if "conns_of m' v k = Some ch" for v k
    using that eff(4) [of v k] lt assms(3) by (auto simp: owned_def split: if_splits)
  moreover have "ch < cm_next m'" using lt eff(3) by simp
  moreover have "pending ch m' = pending ch m" using lt eff(5) by (simp add: pending_def)
  ultimately show ?thesis by (auto simp: add(1) owned_def)
next
  case (remove userID connID)
  show ?thesis
  proof (cases "conns_of m userID connID")
    case None
    from RemoveClient_absent [OF assms(2) None] remove assms(3) show ?thesis
      by (auto simp: owned_def pending_def conns_of_def)
  next
    case (Some x)
    from RemoveClient_present [OF assms(2) Some] remove(3) obtain k where k: "cm_chans m x = Some k" "cm_next m' = cm_next m"
      "cm_chans m' = (cm_chans m)(x \<mapsto> k\<lparr>ch_closed := True\<rparr>)"
      and conns: "\<And>u c. conns_of m' u c = (if u = userID \<and> c = connID then None else conns_of m u c)" by auto
    have "v = u" if "conns_of m' v c = Some ch" for v c
      using that conns [of v c] assms(3) by (auto simp: owned_def split: if_splits)
    moreover have "pending ch m' = pending ch m" using k by (simp add: pending_def)
    ultimately show ?thesis using assms(3) k(2) by (auto simp: owned_def remove(1))
  qed
next
  case (send order userID message)
  note eff = SendToClient_effect [OF assms(2) send(3), of message]
  have m': "m' = m\<lparr>cm_chans := \<lambda>ch. if ch \<in> ran (conns_of m userID) then map_option (push message) (cm_chans m ch) else cm_chans m ch\<rparr>"
    using eff send(4) by simp
  have owned': "owned u ch m'"
    using assms(3) SendToClient_ok(2) [OF assms(2) send(3,4)] by (simp add: owned_def m')
  show ?thesis
  proof (cases "ch \<in> ran (conns_of m userID)")
    case True
    then have "userID = u" using assms(3) by (auto simp: owned_def ran_def)
    moreover have "\<exists>zs. subseq zs [message] \<and> pending ch m' = pending ch m @ zs"
      using True by (auto simp: m' pending_def push_def split: option.splits)
    ultimately show ?thesis using owned' send by auto
  next
    case False
    then have "pending ch m' = pending ch m" by (simp add: m' pending_def)
    with owned' send show ?thesis by (intro conjI exI [of _ "[]"]) auto
  qed
next
  case (recv c x)
  obtain k xs where k: "cm_chans m c = Some k" "ch_buf k = x # xs" and m': "m' = m\<lparr>cm_chans := (cm_chans m)(c \<mapsto> k\<lparr>ch_buf := xs\<rparr>)\<rparr>"
    using recv(3) by (auto simp: receive_def split: option.splits list.splits)
  have "owned u ch m'" using assms(3) receive_ok(2) [OF assms(2) recv(3)] by (simp add: owned_def m')
  with recv k show ?thesis by (auto simp: pending_def m')
qed

lemma sent_to_Cons: "sent_to u (ev # evs) = sent_to u [ev] @ sent_to u evs"
  by (cases ev) auto

lemma received_on_Cons: "received_on ch (ev # evs) = received_on ch [ev] @ received_on ch evs"
  by (cases ev) auto

lemma sse_run_delivery:
  assumes "sse_run s evs s'" and "cm_ok (fst s) (snd s)" and "owned u ch (snd s)"
  shows "\<exists>zs. subseq zs (sent_to u evs) \<and> received_on ch evs @ pending ch (snd s') = pending ch (snd s) @ zs"
  using assms
proof (induction rule: sse_run.induct)
  case (run_cons s ev s1 evs s2)
  have step: "sse_step (fst s, snd s) ev (fst s1, snd s1)" using run_cons.hyps(1) by simp
  obtain zs where zs: "owned u ch (snd s1)" "subseq zs (sent_to u [ev])"
    "received_on ch [ev] @ pending ch (snd s1) = pending ch (snd s) @ zs"
    using sse_step_delivery [OF step run_cons.prems] by blast
  obtain ys where ys: "subseq ys (sent_to u evs)" "received_on ch evs @ pending ch (snd s2) = pending ch (snd s1) @ ys"
    using run_cons.IH [OF sse_step_ok [OF step run_cons.prems(1)] zs(1)] by blast
  have "received_on ch (ev # evs) @ pending ch (snd s2) = pending ch (snd s) @ zs @ ys"
    using ys(2) zs(3) by (metis append.assoc received_on_Cons)
  moreover have "subseq (zs @ ys) (sent_to u (ev # evs))"
    using list_emb_append_mono [OF zs(2) ys(1)] by (simp only: sent_to_Cons [of u ev evs])
  ultimately show ?case by blast
qed auto

section \<open>The relay\<close>

lemma SplitN3_shape:
  assumes "SplitN s c 3 = [a, u, b]"
  shows "s = a @ c # u @ c # b \<and> c \<notin> set a \<and> c \<notin> set u"
proof -
  have drop: "dropWhile (\<lambda>y. y \<noteq> c) x = c # tl (dropWhile (\<lambda>y. y \<noteq> c) x)" if "c \<in> set x" for x
    using that by (induction x) auto
  have cut: "x = takeWhile (\<lambda>y. y \<noteq> c) x @ c # tl (dropWhile (\<lambda>y. y \<noteq> c) x)" if "c \<in> set x" for x
    using drop [OF that] takeWhile_dropWhile_id [of "\<lambda>y. y \<noteq> c" x] by simp
  have c1: "c \<in> set s" using assms by (cases "c \<in> set s") (simp_all add: numeral_3_eq_3)
  let ?r = "tl (dropWhile (\<lambda>y. y \<noteq> c) s)"
  have c2: "c \<in> set ?r" using assms c1 by (cases "c \<in> set ?r") (simp_all add: numeral_3_eq_3)
  have "a = takeWhile (\<lambda>y. y \<noteq> c) s" "u = takeWhile (\<lambda>y. y \<noteq> c) ?r" "b = tl (dropWhile (\<lambda>y. y \<noteq> c) ?r)"
    using assms c1 c2 by (simp_all add: numeral_3_eq_3)
  with cut [OF c1] cut [OF c2] show ?thesis by (auto dest: set_takeWhileD)
qed

lemma route_Some:
  assumes "route channel = Some u"
  shows "\<exists>a b. channel = a @ '':'' @ u @ '':'' @ b \<and> CHR '':'' \<notin> set a \<and> CHR '':'' \<notin> set u"
proof -
  obtain a b where "SplitN channel (CHR '':'') 3 = [a, u, b]"
    using assms by (auto simp: route_def Let_def length_Suc_conv numeral_3_eq_3 split: if_splits)
  from SplitN3_shape [OF this] show ?thesis by auto
qed

lemma route_status_channel: "CHR '':'' \<notin> set u \<Longrightarrow> route (status_channel u) = Some u"
  by (simp add: route_def status_channel_def Let_def numeral_3_eq_3)

section \<open>Properties\<close>

text \<open>
  C23. In every state that any interleaving of connecting, disconnecting, sending and reading can reach, no method panics: a removal
  never closes a channel twice, and a send, in whatever order it visits the connections, never meets a closed
  channel. No buffer holds more than ten messages and no user is kept without a connection.
\<close>

theorem sse_manager_never_panics:
  assumes "sse_run ({}, NewClientManager) evs (used, m)"
  shows "RemoveClient u c m \<noteq> None
    \<and> (\<forall>order. iteration order (conns_of m u) \<longrightarrow> SendToClient order u x m \<noteq> None)
    \<and> (\<forall>ch k. cm_chans m ch = Some k \<longrightarrow> length (ch_buf k) \<le> 10)
    \<and> (\<forall>v. cm_clients m v \<noteq> Some Map.empty)"
proof -
  have ok: "cm_ok used m" using sse_run_ok [OF assms] cm_ok_new by simp
  have "RemoveClient u c m \<noteq> None"
    using RemoveClient_absent [OF ok, of u c] RemoveClient_present [OF ok, of u c] by (cases "conns_of m u c") auto
  with SendToClient_effect [OF ok] cm_okD(3,4) [OF ok] show ?thesis by (auto simp: clientBuffer_def)
qed

lemma run_add: "sse_run ({}, NewClientManager) [EvAdd ''ann'' ''c1'' 0]
    ({''c1''}, fst (AddClient ''c1'' ''ann'' NewClientManager))"
  by (rule sse_run.intros sse_step.intros | simp add: AddClient_def NewClientManager_def Let_def)+

theorem sse_manager_never_panics_witness:
  "RemoveClient ''ann'' ''c1'' (fst (AddClient ''c1'' ''ann'' NewClientManager)) \<noteq> None"
  using sse_manager_never_panics [OF run_add] by blast

text \<open>
  C25. What a stream reads from its channel is, in order and without duplicates or inventions, a selection of the messages sent to
  its own user after it connected (messages are dropped only by full buffers), whatever else happens in between.
\<close>

theorem sse_stream_delivery:
  assumes "sse_run ({}, NewClientManager) before s" and "sse_step s (EvAdd u connID ch) s1" and "sse_run s1 evs s2"
  shows "subseq (received_on ch evs) (sent_to u evs)"
proof -
  have ok: "cm_ok (fst s) (snd s)" using sse_run_ok [OF assms(1)] cm_ok_new by simp
  have step: "sse_step (fst s, snd s) (EvAdd u connID ch) (fst s1, snd s1)" using assms(2) by simp
  note ok1 = sse_step_ok [OF step ok]
  from step obtain m' cid where add: "AddClient connID u (snd s) = (snd s1, cid, ch)" by (auto elim!: sse_stepE)
  note eff = AddClient_conns [OF add]
  have "owned u ch (snd s1)"
    unfolding owned_def
  proof (intro conjI allI impI)
    show "ch < cm_next (snd s1)" using eff(3) by simp
    show "v = u" if "conns_of (snd s1) v c = Some ch" for v c
      using that cm_okD(1) [OF ok, of v c ch] eff(2) by (auto simp: eff(4) split: if_splits)
  qed
  from sse_run_delivery [OF assms(3) ok1 this] obtain zs where
    zs: "subseq zs (sent_to u evs)" "received_on ch evs @ pending ch (snd s2) = pending ch (snd s1) @ zs" by blast
  have "pending ch (snd s1) = []" using eff(5) by (simp add: pending_def)
  with zs have "zs = received_on ch evs @ pending ch (snd s2)" by simp
  with zs(1) show ?thesis by (metis list_emb_append2 subseq_order.trans prefix_imp_subseq prefixI subseq_order.order_refl)
qed

lemma step_add: "sse_step ({}, NewClientManager) (EvAdd ''ann'' ''c1'' 0)
    ({''c1''}, fst (AddClient ''c1'' ''ann'' NewClientManager))"
  by (rule sse_step.intros | simp add: AddClient_def NewClientManager_def Let_def)+

theorem sse_stream_delivery_witness:
  "subseq (received_on 0 [EvSend ''ann'' ''hello'', EvRecv 0 ''hello'']) (sent_to ''ann'' [EvSend ''ann'' ''hello'', EvRecv 0 ''hello''])"
proof -
  let ?m = "fst (AddClient ''c1'' ''ann'' NewClientManager)"
  let ?m1 = "?m\<lparr>cm_chans := [0 \<mapsto> \<lparr>ch_buf = [''hello''], ch_closed = False\<rparr>]\<rparr>"
  let ?m2 = "?m\<lparr>cm_chans := [0 \<mapsto> \<lparr>ch_buf = [], ch_closed = False\<rparr>]\<rparr>"
  have "sse_step ({''c1''}, ?m) (EvSend ''ann'' ''hello'') ({''c1''}, ?m1)"
    by (rule sse_step.send [of "[''c1'']"])
       (auto simp: AddClient_def NewClientManager_def Let_def iteration_def conns_of_def SendToClient_def try_send_def clientBuffer_def)
  moreover have "sse_step ({''c1''}, ?m1) (EvRecv 0 ''hello'') ({''c1''}, ?m2)"
    by (rule sse_step.recv) (simp add: receive_def)
  ultimately have "sse_run ({''c1''}, ?m) [EvSend ''ann'' ''hello'', EvRecv 0 ''hello''] ({''c1''}, ?m2)"
    by (blast intro: sse_run.intros)
  from sse_stream_delivery [OF run_nil step_add this] show ?thesis .
qed

text \<open>
  A send to a user reaches every one of the user's open streams that has room, in whatever order the connections are visited,
  and changes no channel of anyone else and no registration.
\<close>

theorem send_reaches_exactly_the_user:
  assumes "sse_run ({}, NewClientManager) evs (used, m)" and "iteration order (conns_of m u)"
    and "SendToClient order u x m = Some m'"
  shows "cm_clients m' = cm_clients m \<and> (\<forall>ch. cm_chans m' ch =
      (if \<exists>c. conns_of m u c = Some ch
       then map_option (\<lambda>k. if length (ch_buf k) < 10 then k\<lparr>ch_buf := ch_buf k @ [x]\<rparr> else k) (cm_chans m ch)
       else cm_chans m ch))"
proof -
  have ok: "cm_ok used m" using sse_run_ok [OF assms(1)] cm_ok_new by simp
  have "push x = (\<lambda>k. if length (ch_buf k) < 10 then k\<lparr>ch_buf := ch_buf k @ [x]\<rparr> else k)"
    by (simp add: fun_eq_iff push_def clientBuffer_def)
  with SendToClient_effect [OF ok assms(2), of x] assms(3) show ?thesis by (auto simp: ran_def)
qed

theorem send_reaches_exactly_the_user_witness:
  "\<exists>m'. SendToClient [''c1''] ''ann'' ''hello'' (fst (AddClient ''c1'' ''ann'' NewClientManager)) = Some m'
     \<and> cm_chans m' 0 = Some \<lparr>ch_buf = [''hello''], ch_closed = False\<rparr>"
proof -
  let ?m = "fst (AddClient ''c1'' ''ann'' NewClientManager)"
  have it: "iteration [''c1''] (conns_of ?m ''ann'')"
    by (auto simp: iteration_def conns_of_def AddClient_def NewClientManager_def Let_def)
  obtain m' where m': "SendToClient [''c1''] ''ann'' ''hello'' ?m = Some m'"
    by (simp add: SendToClient_def conns_of_def AddClient_def NewClientManager_def Let_def try_send_def clientBuffer_def)
  from send_reaches_exactly_the_user [OF run_add it m'] have "cm_chans m' 0 = Some \<lparr>ch_buf = [''hello''], ch_closed = False\<rparr>"
    by (auto simp: conns_of_def AddClient_def NewClientManager_def Let_def split: if_splits)
  with m' show ?thesis by blast
qed

text \<open>
  The relay undoes the worker's channel naming: a status event published for a user whose id has no colon is sent to that
  user, and a message is only ever sent to the user between the first two colons of its channel name.
\<close>

theorem status_channel_round_trip:
  "(CHR '':'' \<notin> set u \<longrightarrow> (\<forall>order payload m. relay order (status_channel u, payload) m = SendToClient order u payload m))
   \<and> (route channel = Some v \<longrightarrow> (\<exists>a b. channel = a @ '':'' @ v @ '':'' @ b \<and> CHR '':'' \<notin> set a \<and> CHR '':'' \<notin> set v))"
  using route_Some [of channel v] route_status_channel [of u] by (auto simp: relay_def)

theorem status_channel_round_trip_witness:
  "relay [''c1''] (status_channel ''ann'', ''x'') NewClientManager = SendToClient [''c1''] ''ann'' ''x'' NewClientManager"
  using status_channel_round_trip [of "''ann''" "''user:ann:jobs''" "''ann''"] by simp

end
