(* ===== verification/Routes.thy ===== *)
theory Routes
  imports Auth_Handler Jobs_Handler Health Rate_Limit Sse
begin

text \<open>
  Package \<^verbatim>\<open>internal/routes\<close> and the way a request passes through the server that \<^verbatim>\<open>bootstrap.New\<close> puts together: rate limit, route, authentication
  where the route asks for it, handler. The handlers share one state: the database, Redis, the broker, the registry of streams, the clock and
  the sources of randomness. The path matching of the framework is a parameter whose contract \<open>gin_router\<close> says that it picks a registered route of the
  request's method.
\<close>

section \<open>The route table\<close>

datatype http_method = GET | POST | PATCH | DELETE

datatype endpoint =
    EpHealth | EpCreateUser | EpLoginUser | EpRefreshAccessToken | EpLogout
  | EpCreateJobs | EpGetJobById | EpGetAllJobs | EpUpdateJob | EpDeleteJob | EpSSEStream

record route_entry =
  en_Method :: http_method
  en_Path :: string
  en_RequireAuth :: bool
  en_Handler :: endpoint

definition plain_route :: "http_method \<Rightarrow> string \<Rightarrow> endpoint \<Rightarrow> route_entry" where
  "plain_route m path h = \<lparr>en_Method = m, en_Path = path, en_RequireAuth = False, en_Handler = h\<rparr>"

definition auth_route :: "http_method \<Rightarrow> string \<Rightarrow> endpoint \<Rightarrow> route_entry" where
  "auth_route m path h = \<lparr>en_Method = m, en_Path = path, en_RequireAuth = True, en_Handler = h\<rparr>"

definition Group :: "string \<Rightarrow> bool \<Rightarrow> route_entry list \<Rightarrow> route_entry list" where
  \<comment> \<open>the group's path goes in front, and its middleware runs on each of its routes\<close>
  "Group path auth es = map (\<lambda>e. e\<lparr>en_Path := path @ en_Path e, en_RequireAuth := auth \<or> en_RequireAuth e\<rparr>) es"

definition RegisterHealthRoute :: "route_entry list" where
  "RegisterHealthRoute = [plain_route GET ''/health'' EpHealth]"

definition RegisterAuthRoutes :: "route_entry list" where
  "RegisterAuthRoutes = Group ''/auth'' False
     [plain_route POST ''/sign-up'' EpCreateUser,
      plain_route POST ''/login'' EpLoginUser,
      plain_route POST ''/refresh'' EpRefreshAccessToken,
      auth_route POST ''/logout'' EpLogout]"

definition RegisterJobsRoutes :: "route_entry list" where
  "RegisterJobsRoutes = Group ''/jobs'' True
     [plain_route POST ''/'' EpCreateJobs,
      plain_route GET ''/:id'' EpGetJobById,
      plain_route GET '''' EpGetAllJobs,
      plain_route PATCH ''/:id'' EpUpdateJob,
      plain_route DELETE ''/:id'' EpDeleteJob]"

definition RegisterSSERoutes :: "route_entry list" where
  "RegisterSSERoutes = [auth_route GET ''/subscribe/:userId'' EpSSEStream]"

definition Register :: "route_entry list" where
  "Register = RegisterHealthRoute @ RegisterAuthRoutes @ RegisterJobsRoutes @ RegisterSSERoutes"

lemmas route_defs = Register_def RegisterHealthRoute_def RegisterAuthRoutes_def RegisterJobsRoutes_def RegisterSSERoutes_def
  Group_def plain_route_def auth_route_def

section \<open>The router\<close>

text \<open>
  The framework's answer for a method and a path: a registered route with the path parameters, no route, or its own redirect between a path
  with and without a trailing slash, which runs no middleware.
\<close>

datatype router_answer = Matched route_entry "string \<Rightarrow> string" | Unmatched | Redirected

type_synonym router = "route_entry list \<Rightarrow> http_method \<Rightarrow> string \<Rightarrow> router_answer"

locale gin_router =
  fixes find :: router
  assumes find_Matched: "find es m path = Matched e params \<Longrightarrow> e \<in> set es \<and> en_Method e = m"

section \<open>The server\<close>

record decoders =
  dec_CreateUser :: "string \<Rightarrow> CreateUserRequest option"
  dec_Login :: "string \<Rightarrow> LoginRequest option"
  dec_Logout :: "string \<Rightarrow> LogoutRequest option"
  dec_CreateJobs :: "string \<Rightarrow> CreateJobRequest list option"
  dec_UpdateJob :: "string \<Rightarrow> UpdateJobRequest option"

record ('db, 'rd, 'mq, 'ch) App =
  app_auth :: "('db, 'rd) AuthService"
  app_jobs :: "('db, 'mq) JobsService"
  app_health :: "('db, 'rd, 'mq, 'ch) health_Handler"
  app_find :: router
  app_dec :: decoders

record ('db, 'rd, 'mq) app_state =
  ap_db :: 'db
  ap_rd :: 'rd
  ap_mq :: 'mq
  ap_sse :: ClientManager
  ap_uuids :: "string stream"
  ap_clock :: clock
  ap_rand :: entropy

record http_request =
  rq_Method :: http_method
  rq_Path :: string
  rq_Header :: "string \<Rightarrow> string"
  rq_Body :: string

datatype reply =
    HealthReply health_reply | SignupReply "SignupResult response" | LoginReply "LoginResult response" | TokensReply "Tokens response"
  | EmptyReply "unit response" | JobReply "Job response" | JobsReply "Job list response" | StreamReply stream_start
  | AbortReply "unit response" | NoRouteReply

text \<open>Each component works on its part of the state.\<close>

definition on_auth ::
  "(('db, 'rd) auth_state \<Rightarrow> ('db, 'rd) auth_state \<times> 'a) \<Rightarrow> ('db, 'rd, 'mq) app_state \<Rightarrow> ('db, 'rd, 'mq) app_state \<times> 'a"
where
  "on_auth f st = (case f \<lparr>au_db = ap_db st, au_rd = ap_rd st, au_clock = ap_clock st, au_rand = ap_rand st\<rparr> of
     (a, x) \<Rightarrow> (st\<lparr>ap_db := au_db a, ap_rd := au_rd a, ap_clock := au_clock a, ap_rand := au_rand a\<rparr>, x))"

definition on_jobs ::
  "(('db, 'mq) jobs_state \<Rightarrow> ('db, 'mq) jobs_state \<times> 'a) \<Rightarrow> ('db, 'rd, 'mq) app_state \<Rightarrow> ('db, 'rd, 'mq) app_state \<times> 'a"
where
  "on_jobs f st = (case f \<lparr>js_db = ap_db st, js_mq = ap_mq st, js_clock = ap_clock st\<rparr> of
     (j, x) \<Rightarrow> (st\<lparr>ap_db := js_db j, ap_mq := js_mq j, ap_clock := js_clock j\<rparr>, x))"

definition on_health ::
  "(('db, 'rd, 'mq) health_state \<Rightarrow> ('db, 'rd, 'mq) health_state \<times> 'a) \<Rightarrow> ('db, 'rd, 'mq) app_state \<Rightarrow> ('db, 'rd, 'mq) app_state \<times> 'a"
where
  "on_health f st = (case f \<lparr>hs_db = ap_db st, hs_rd = ap_rd st, hs_mq = ap_mq st, hs_clock = ap_clock st\<rparr> of
     (h, x) \<Rightarrow> (st\<lparr>ap_db := hs_db h, ap_rd := hs_rd h, ap_mq := hs_mq h, ap_clock := hs_clock h\<rparr>, x))"

definition on_sse :: "(string \<Rightarrow> ClientManager \<Rightarrow> ClientManager \<times> stream_start) \<Rightarrow> ('db, 'rd, 'mq) app_state \<Rightarrow> ('db, 'rd, 'mq) app_state \<times> stream_start" where
  \<comment> \<open>a connection that is accepted uses up a UUID\<close>
  "on_sse f st = (case f (shd (ap_uuids st)) (ap_sse st) of
       (m, Refused resp) \<Rightarrow> (st\<lparr>ap_sse := m\<rparr>, Refused resp)
     | (m, Streaming cid ch) \<Rightarrow> (st\<lparr>ap_sse := m, ap_uuids := stl (ap_uuids st)\<rparr>, Streaming cid ch))"

definition reply_by :: "('a \<Rightarrow> reply) \<Rightarrow> 's \<times> 'a \<Rightarrow> 's \<times> reply" where
  "reply_by f r = (case r of (st, x) \<Rightarrow> (st, f x))"

text \<open>The handler of a route; \<open>order\<close> is the order in which the health check visits its map.\<close>

fun run_endpoint ::
  "('db, 'rd, 'mq, 'ch) App \<Rightarrow> string list \<Rightarrow> endpoint \<Rightarrow> string \<Rightarrow> gin_context \<Rightarrow> ('db, 'rd, 'mq) app_state \<Rightarrow> ('db, 'rd, 'mq) app_state \<times> reply"
where
  "run_endpoint app order EpHealth body c st = reply_by HealthReply (on_health (Health (app_health app) order) st)"
| "run_endpoint app order EpCreateUser body c st = reply_by SignupReply (on_auth (CreateUser (dec_CreateUser (app_dec app)) (app_auth app) body) st)"
| "run_endpoint app order EpLoginUser body c st = reply_by LoginReply (on_auth (LoginUser (dec_Login (app_dec app)) (app_auth app) body) st)"
| "run_endpoint app order EpRefreshAccessToken body c st = reply_by TokensReply (on_auth (RefreshAccessToken_handler (app_auth app) c) st)"
| "run_endpoint app order EpLogout body c st = reply_by EmptyReply (on_auth (Logout (dec_Logout (app_dec app)) (app_auth app) body c) st)"
| "run_endpoint app order EpCreateJobs body c st = reply_by JobsReply (on_jobs (CreateJobs_handler (dec_CreateJobs (app_dec app)) (app_jobs app) body c) st)"
| "run_endpoint app order EpGetJobById body c st = reply_by JobReply (on_jobs (GetJobById_handler (app_jobs app) c) st)"
| "run_endpoint app order EpGetAllJobs body c st = reply_by JobsReply (on_jobs (GetAllJobs_handler (app_jobs app) c) st)"
| "run_endpoint app order EpUpdateJob body c st = reply_by JobReply (on_jobs (UpdateJob_handler (dec_UpdateJob (app_dec app)) (app_jobs app) body c) st)"
| "run_endpoint app order EpDeleteJob body c st = reply_by EmptyReply (on_jobs (DeleteJob_handler (app_jobs app) c) st)"
| "run_endpoint app order EpSSEStream body c st = reply_by StreamReply (on_sse (\<lambda>connID. SSEStream connID c) st)"

definition request_context :: "http_request \<Rightarrow> (string \<Rightarrow> string) \<Rightarrow> gin_context" where
  "request_context req params = \<lparr>gc_Keys = Map.empty, gc_Header = rq_Header req, gc_Param = params\<rparr>"

definition auth_gate ::
  "('db, 'rd, 'mq, 'ch) App \<Rightarrow> gin_context \<Rightarrow> ('db, 'rd, 'mq) app_state \<Rightarrow> 'rd \<times> (unit response + gin_context)"
where
  "auth_gate app c st = RequireAuth (sv_jwt (app_auth app)) (sv_cfg (app_auth app)) (sv_jtiStore (app_auth app)) (shd (ap_clock st)) c (ap_rd st)"

definition run_route ::
  "('db, 'rd, 'mq, 'ch) App \<Rightarrow> string list \<Rightarrow> http_request \<Rightarrow> route_entry \<Rightarrow> (string \<Rightarrow> string) \<Rightarrow>
   ('db, 'rd, 'mq) app_state \<Rightarrow> ('db, 'rd, 'mq) app_state \<times> reply"
where
  "run_route app order req e params st =
     (let c = request_context req params in
      if en_RequireAuth e then
        (case auth_gate app c st of
           (rd', Inl resp) \<Rightarrow> (st\<lparr>ap_rd := rd', ap_clock := stl (ap_clock st)\<rparr>, AbortReply resp)
         | (rd', Inr c') \<Rightarrow> run_endpoint app order (en_Handler e) (rq_Body req) c' (st\<lparr>ap_rd := rd', ap_clock := stl (ap_clock st)\<rparr>))
      else run_endpoint app order (en_Handler e) (rq_Body req) c st)"

definition route_request ::
  "('db, 'rd, 'mq, 'ch) App \<Rightarrow> string list \<Rightarrow> http_request \<Rightarrow> ('db, 'rd, 'mq) app_state \<Rightarrow> ('db, 'rd, 'mq) app_state \<times> reply"
where
  "route_request app order req st = (case app_find app Register (rq_Method req) (rq_Path req) of
       Matched e params \<Rightarrow> run_route app order req e params st
     | Unmatched \<Rightarrow> (st, NoRouteReply)
     | Redirected \<Rightarrow> (st, NoRouteReply))"

definition serve ::
  "('db, 'rd, 'mq, 'ch) App \<Rightarrow> string list \<Rightarrow> http_request \<Rightarrow> TokenBucket \<Rightarrow> ('db, 'rd, 'mq) app_state \<Rightarrow>
   TokenBucket \<times> ('db, 'rd, 'mq) app_state \<times> reply limited"
where
  "serve app order req tb st = (case app_find app Register (rq_Method req) (rq_Path req) of
       Redirected \<Rightarrow> (tb, st, Passed NoRouteReply)
     | _ \<Rightarrow> RateLimit (route_request app order req) tb st)"

section \<open>Facts\<close>

definition public_endpoints :: "endpoint set" where
  "public_endpoints = {EpHealth, EpCreateUser, EpLoginUser, EpRefreshAccessToken}"

definition job_endpoints :: "endpoint set" where
  "job_endpoints = {EpCreateJobs, EpGetJobById, EpGetAllJobs, EpUpdateJob, EpDeleteJob}"

lemma Register_auth: "e \<in> set Register \<Longrightarrow> en_RequireAuth e \<longleftrightarrow> en_Handler e \<notin> public_endpoints"
  by (auto simp: route_defs public_endpoints_def)

lemma job_endpoints_protected: "h \<in> job_endpoints \<Longrightarrow> h \<notin> public_endpoints"
  by (auto simp: job_endpoints_def public_endpoints_def)

lemma run_protected:
  assumes "gin_router (app_find app)" and "app_find app Register (rq_Method req) (rq_Path req) = Matched e params"
    and "en_Handler e \<notin> public_endpoints"
  shows "route_request app order req st = (case auth_gate app (request_context req params) st of
     (rd', Inl resp) \<Rightarrow> (st\<lparr>ap_rd := rd', ap_clock := stl (ap_clock st)\<rparr>, AbortReply resp)
   | (rd', Inr c') \<Rightarrow> run_endpoint app order (en_Handler e) (rq_Body req) c' (st\<lparr>ap_rd := rd', ap_clock := stl (ap_clock st)\<rparr>))"
  using Register_auth [of e] gin_router.find_Matched [OF assms(1,2)] assms
  by (simp add: route_request_def run_route_def Let_def)

lemma auth_gate_user:
  assumes "auth_gate app c st = (rd', Inr c')"
  shows "\<exists>u. UserIDFromContext c' = (u, True) \<and> gc_Param c' = gc_Param c"
  using assms unfolding auth_gate_def by (auto elim!: RequireAuth_Inr)

text \<open>
  What a request of user \<open>u\<close> may do to the table of jobs: rows of other users stay as they are, a row it changes stays its owner's, and a
  row it adds is its own.
\<close>

definition tenant_frame :: "string \<Rightarrow> (string \<Rightarrow> Job option) \<Rightarrow> (string \<Rightarrow> Job option) \<Rightarrow> bool" where
  "tenant_frame u rows rows' \<longleftrightarrow> (\<forall>k. case rows k of
       None \<Rightarrow> (\<forall>r'. rows' k = Some r' \<longrightarrow> j_UserID r' = u)
     | Some r \<Rightarrow> (\<exists>r'. rows' k = Some r' \<and> j_UserID r' = j_UserID r \<and> (r' \<noteq> r \<longrightarrow> j_UserID r = u)))"

lemma tenant_frame_refl: "rows' = rows \<Longrightarrow> tenant_frame u rows rows'"
  by (simp add: tenant_frame_def split: option.splits)

lemma tenant_frame_one:
  assumes "\<And>k. k \<noteq> i \<Longrightarrow> rows' k = rows k" and "rows i = Some r" and "rows' i = Some r'" and "j_UserID r = u" and "j_UserID r' = u"
  shows "tenant_frame u rows rows'"
  unfolding tenant_frame_def
proof
  fix k
  show "case rows k of None \<Rightarrow> (\<forall>r'. rows' k = Some r' \<longrightarrow> j_UserID r' = u)
     | Some r \<Rightarrow> (\<exists>r'. rows' k = Some r' \<and> j_UserID r' = j_UserID r \<and> (r' \<noteq> r \<longrightarrow> j_UserID r = u))"
    using assms by (cases "k = i") (auto split: option.splits)
qed

context jobs_service
begin

lemma UpdateJobService_tenant:
  assumes "UpdateJobService s jid u req st = (st', res)"
  shows "tenant_frame u (tbl (js_db st)) (tbl (js_db st'))"
proof (cases res)
  case (Inl e)
  with UpdateJobService_spec(3) [OF assms] show ?thesis by (intro tenant_frame_refl) simp
next
  case (Inr j)
  from UpdateJobService_spec(4) [OF assms Inr] obtain r r' where
    r: "tbl (js_db st) jid = Some r" "j_UserID r = u" "j = apply_update req r" "tbl (js_db st') jid = Some r'" "job_tracked (job_nonzero_update j r) r'"
    by blast
  have "j_UserID r' = u" using job_tracked_sel(2) [OF r(5)] r(2,3) by (simp add: job_nonzero_update_def nz_def)
  with r UpdateJobService_spec(2) [OF assms] show ?thesis by (intro tenant_frame_one [of jid _ _ r r']) auto
qed

lemma DeleteJobService_tenant:
  assumes "DeleteJobService s jid u st = (st', err)"
  shows "tenant_frame u (tbl (js_db st)) (tbl (js_db st'))"
proof (cases err)
  case (Some e)
  with DeleteJobService_spec(3) [OF assms] show ?thesis by (intro tenant_frame_refl) simp
next
  case None
  from DeleteJobService_spec(4) [OF assms None] obtain r r' where
    r: "tbl (js_db st) jid = Some r" "j_UserID r = u" "tbl (js_db st') jid = Some r'" "job_marked r r'" by blast
  have "j_UserID r' = u" using r(2,4) by (auto simp: job_marked_def)
  with r DeleteJobService_spec(2) [OF assms] show ?thesis by (intro tenant_frame_one [of jid _ _ r r']) auto
qed

lemma CreateJobsService_tenant:
  assumes "seen (js_mq st) = length (sent (js_mq st))" and "CreateJobsService s reqs u st = (st', res)"
  shows "tenant_frame u (tbl (js_db st)) (tbl (js_db st'))"
  using created_rows_owner [OF assms] by (auto simp: tenant_frame_def split: option.splits)

lemma reads_tenant:
  "GetJobByIdService s jid st = (st', res) \<Longrightarrow> tbl (js_db st') = tbl (js_db st)"
  "GetAllJobsService s u st = (st'', res') \<Longrightarrow> tbl (js_db st'') = tbl (js_db st)"
  using store.GetJobByID_frame [of jid "js_db st"] store.find_tbl
  by (auto simp: GetJobByIdService_def GetAllJobsService_def GetAllJobs_def split: prod.splits sum.splits gorm_error.splits)

end

lemma job_handlers_run:
  assumes "UserIDFromContext c = (u, True)"
  shows "fst (UpdateJob_handler dec s body c st) \<in> insert st {st'. \<exists>req res. UpdateJobService s (gc_Param c ''id'') u req st = (st', res)}"
    and "fst (DeleteJob_handler s c st) \<in> insert st {st'. \<exists>res. DeleteJobService s (gc_Param c ''id'') u st = (st', res)}"
    and "fst (CreateJobs_handler dec' s body c st) \<in> insert st {st'. \<exists>reqs res. CreateJobsService s reqs u st = (st', res)}"
    and "fst (GetJobById_handler s c st) \<in> insert st {st'. \<exists>res. GetJobByIdService s (gc_Param c ''id'') st = (st', res)}"
    and "fst (GetAllJobs_handler s c st) \<in> {st'. \<exists>res. GetAllJobsService s u st = (st', res)}"
  using assms
  by (auto simp: UpdateJob_handler_def DeleteJob_handler_def CreateJobs_handler_def GetJobById_handler_def GetAllJobs_handler_def Let_def
      split: option.splits prod.splits sum.splits)

lemma on_jobs_tenant:
  assumes "js = \<lparr>js_db = ap_db st, js_mq = ap_mq st, js_clock = ap_clock st\<rparr>"
    and "fst (g js) \<in> insert js S" and "\<And>js'. js' \<in> S \<Longrightarrow> tenant_frame u (tbl (js_db js)) (tbl (js_db js'))"
  shows "tenant_frame u (tbl (ap_db st)) (tbl (ap_db (fst (reply_by f (on_jobs g st)))))"
proof -
  have "tenant_frame u (tbl (js_db js)) (tbl (js_db (fst (g js))))" using assms(2,3) by (cases "fst (g js) = js") (auto intro: tenant_frame_refl)
  then show ?thesis using assms(1) by (auto simp: on_jobs_def reply_by_def split: prod.splits)
qed

lemma run_job_endpoint:
  assumes "jobs_service (app_jobs app) tbl sent seen accepted" and "seen (ap_mq st) = length (sent (ap_mq st))"
    and "h \<in> job_endpoints" and "UserIDFromContext c = (u, True)"
  shows "tenant_frame u (tbl (ap_db st)) (tbl (ap_db (fst (run_endpoint app order h body c st))))"
proof -
  let ?js = "\<lparr>js_db = ap_db st, js_mq = ap_mq st, js_clock = ap_clock st\<rparr>"
  have sync: "seen (js_mq ?js) = length (sent (js_mq ?js))" using assms(2) by simp
  note update = jobs_service.UpdateJobService_tenant [OF assms(1)] and delete = jobs_service.DeleteJobService_tenant [OF assms(1)]
    and create = jobs_service.CreateJobsService_tenant [OF assms(1) sync]
    and reads = jobs_service.reads_tenant [OF assms(1), THEN tenant_frame_refl]
  note tenant = on_jobs_tenant [OF refl] and run = job_handlers_run [OF assms(4)]
  from assms(3) consider "h = EpCreateJobs" | "h = EpGetJobById" | "h = EpGetAllJobs" | "h = EpUpdateJob" | "h = EpDeleteJob"
    by (auto simp: job_endpoints_def)
  then show ?thesis
  proof cases
    case 1
    show ?thesis unfolding 1 run_endpoint.simps by (rule tenant, rule run(3)) (use create in blast)
  next
    case 2
    show ?thesis unfolding 2 run_endpoint.simps by (rule tenant, rule run(4)) (use reads(1) in blast)
  next
    case 3
    show ?thesis unfolding 3 run_endpoint.simps by (rule tenant, rule insertI2, rule run(5)) (use reads(2) in blast)
  next
    case 4
    show ?thesis unfolding 4 run_endpoint.simps by (rule tenant, rule run(1)) (use update in blast)
  next
    case 5
    show ?thesis unfolding 5 run_endpoint.simps by (rule tenant, rule run(2)) (use delete in blast)
  qed
qed

section \<open>A reference server\<close>

text \<open>
  A router that compares the segments of a path, a parameter matching any non-empty one, and a server with the tables of both packages in one
  database.
\<close>

fun segments :: "string \<Rightarrow> string list" where
  "segments [] = [[]]"
| "segments (c # s) = (if c = CHR ''/'' then [] # segments s else (case segments s of seg # segs \<Rightarrow> (c # seg) # segs | [] \<Rightarrow> [[c]]))"

fun match_segments :: "string list \<Rightarrow> string list \<Rightarrow> (string \<Rightarrow> string) option" where
  "match_segments [] [] = Some (\<lambda>p. '''')"
| "match_segments (pat # pats) (seg # segs) =
     (if pat \<noteq> [] \<and> hd pat = CHR '':''
      then (if seg = [] then None else map_option (\<lambda>ps. ps(tl pat := seg)) (match_segments pats segs))
      else if pat = seg then match_segments pats segs else None)"
| "match_segments pats segs = None"

fun ref_find :: router where
  "ref_find [] m path = Unmatched"
| "ref_find (e # es) m path = (case match_segments (segments (en_Path e)) (segments path) of
       Some params \<Rightarrow> if en_Method e = m then Matched e params else ref_find es m path
     | None \<Rightarrow> ref_find es m path)"

interpretation ref_router: gin_router ref_find
proof
  show "e \<in> set es \<and> en_Method e = m" if "ref_find es m path = Matched e params" for es m path e params
    using that by (induction es) (auto split: option.splits if_splits)
qed

type_synonym mem_all = "mem_auth \<times> Job mem_db"

definition all_auth :: "mem_all auth_db" where
  "all_auth =
     \<lparr>ad_users = on_part (\<lambda>s. ma_users (fst s)) (\<lambda>d s. ((fst s)\<lparr>ma_users := d\<rparr>, snd s)) mem_users,
      ad_tokens = on_part (\<lambda>s. ma_tokens (fst s)) (\<lambda>d s. ((fst s)\<lparr>ma_tokens := d\<rparr>, snd s)) mem_tokens,
      ad_Transaction = (\<lambda>body s. case body s of (s', Inr out) \<Rightarrow> (s', Inr out) | (s', Inl e) \<Rightarrow> (s, Inl e))\<rparr>"

definition all_jobs :: "(mem_all, Job) gorm" where
  "all_jobs = on_part snd (\<lambda>d s. (fst s, d)) mem_jobs"

definition ref_app :: "(mem_all, ref_redis, ref_broker, nat) App" where
  "ref_app = \<lparr>app_auth = \<lparr>sv_repo = all_auth, sv_jtiStore = ref_client, sv_jwt = sample_jwt ''ann'' 0, sv_bcrypt = clear_bcrypt,
       sv_cfg = sample_config, sv_unicode = latin_tables\<rparr>,
     app_jobs = \<lparr>svc_repo = all_jobs, svc_mq = ref_amqp, svc_marshal = (\<lambda>m. Inr (m_ID m))\<rparr>,
     app_health = \<lparr>hh_DB = (\<lambda>db. None), hh_Ping = (\<lambda>db. (db, None)), hh_rdb = ref_client,
       hh_mq = \<lparr>mc_nil = False, mc_conn_nil = False, mc_IsClosed = (\<lambda>q. False), mc_Channel = (\<lambda>q. (q, Inr 0)), mc_Close = (\<lambda>ch q. (q, None))\<rparr>\<rparr>,
     app_find = ref_find,
     app_dec = \<lparr>dec_CreateUser = (\<lambda>b. None), dec_Login = (\<lambda>b. None), dec_Logout = (\<lambda>b. None), dec_CreateJobs = (\<lambda>b. None), dec_UpdateJob = (\<lambda>b. None)\<rparr>\<rparr>"

lemma ref_app_sel [simp]:
  "app_find ref_app = ref_find" "sv_jwt (app_auth ref_app) = sample_jwt ''ann'' 0" "sv_cfg (app_auth ref_app) = sample_config"
  "sv_jtiStore (app_auth ref_app) = ref_client"
  by (simp_all add: ref_app_def)

interpretation all_jobs: jobs_store all_jobs "\<lambda>s. mem_tbl j_ID (snd s)"
  unfolding all_jobs_def jobs_store_def
  by (rule on_part_soft_delete) (simp_all add: mem_jobs.jobs_store_axioms [unfolded jobs_store_def])

interpretation ref_app: jobs_service "app_jobs ref_app" "\<lambda>s. mem_tbl j_ID (snd s)" rb_sent rb_seen rb_accepted
  unfolding jobs_service_def ref_app_def by (simp add: all_jobs.jobs_store_axioms ref.amqp_confirms_axioms)

definition app_at :: "Job list \<Rightarrow> (mem_all, ref_redis, ref_broker) app_state" where
  "app_at js = \<lparr>ap_db = (auth_mem [ann] [], no_jobs\<lparr>mem_rows := js\<rparr>), ap_rd = rr_init, ap_mq = rb_init, ap_sse = NewClientManager,
     ap_uuids = sconst ''c'', ap_clock = sconst 0, ap_rand = zero_entropy\<rparr>"

definition http_call :: "http_method \<Rightarrow> string \<Rightarrow> string \<Rightarrow> http_request" where
  "http_call m path authorization = \<lparr>rq_Method = m, rq_Path = path, rq_Header = (\<lambda>h. if h = ''Authorization'' then authorization else ''''), rq_Body = ''''\<rparr>"

lemma http_call_sel [simp]:
  "rq_Method (http_call m p a) = m" "rq_Path (http_call m p a) = p" "rq_Header (http_call m p a) ''Authorization'' = a"
  by (simp_all add: http_call_def)

definition delete_entry :: route_entry where
  "delete_entry = \<lparr>en_Method = DELETE, en_Path = ''/jobs/:id'', en_RequireAuth = True, en_Handler = EpDeleteJob\<rparr>"

lemma delete_matched: "ref_find Register DELETE ''/jobs/j1'' = Matched delete_entry ((\<lambda>p. '''')(''id'' := ''j1''))"
  by (simp add: route_defs delete_entry_def)

lemma ref_gate_open:
  assumes "gc_Header c ''Authorization'' = ''Bearer token''"
  shows "auth_gate ref_app c (app_at js) = (rr_init, Inr (authenticated ''ann'' zero_jti (15 * Minute) c))"
proof -
  have "ExtractBearerToken ''Bearer token'' = Inr ''token''"
    using ExtractBearerToken_visible [of "''token''" "''Bearer''"] by (simp add: visible_def byte_def EqualFold_def)
  with assms show ?thesis
    by (simp add: auth_gate_def RequireAuth_def sample_parse app_at_def IsRevoked_def rr_defs rr_init_def authenticated_def)
qed

section \<open>Properties\<close>

text \<open>
  C8. Every route but the health check, sign-up, login and refresh is behind the authentication middleware: when it refuses the
  request, the handler does not run, the response is the middleware's 401 or 500, and nothing of the server's state but the middleware's own
  reading of Redis and of the clock is touched.
\<close>

theorem protected_route_needs_identity:
  assumes "gin_router (app_find app)" and "app_find app Register (rq_Method req) (rq_Path req) = Matched e params"
    and "en_Handler e \<notin> public_endpoints" and "auth_gate app (request_context req params) st = (rd', Inl resp)"
  shows "route_request app order req st = (st\<lparr>ap_rd := rd', ap_clock := stl (ap_clock st)\<rparr>, AbortReply resp)
    \<and> rs_Aborted resp \<and> (rs_Status resp = 401 \<or> rs_Status resp = 500)"
  using run_protected [OF assms(1-3), of order st] assms(4) RequireAuth_Inl [of _ _ _ _ _ _ rd' resp]
  by (auto simp: auth_gate_def)

theorem protected_route_needs_identity_witness:
  "route_request ref_app [] (http_call DELETE ''/jobs/j1'' '''') (app_at [plain_job ''j1'' ''ann'']) =
     ((app_at [plain_job ''j1'' ''ann''])\<lparr>ap_rd := rr_init, ap_clock := sconst 0\<rparr>, AbortReply (AbortError 401 ''missing authorization header''))"
proof -
  let ?req = "http_call DELETE ''/jobs/j1'' ''''"
  have found: "app_find ref_app Register (rq_Method ?req) (rq_Path ?req) = Matched delete_entry ((\<lambda>p. '''')(''id'' := ''j1''))"
    by (simp add: delete_matched)
  have shut: "auth_gate ref_app (request_context ?req ((\<lambda>p. '''')(''id'' := ''j1''))) (app_at [plain_job ''j1'' ''ann'']) =
      (rr_init, Inl (AbortError 401 ''missing authorization header''))"
    by (simp add: auth_gate_def RequireAuth_def ExtractBearerToken_def request_context_def app_at_def http_status)
  have router: "gin_router (app_find ref_app)" and closed: "en_Handler delete_entry \<notin> public_endpoints"
    and clock: "stl (ap_clock (app_at [plain_job ''j1'' ''ann''])) = sconst 0"
    by (simp_all add: ref_router.gin_router_axioms delete_entry_def public_endpoints_def app_at_def)
  from protected_route_needs_identity [OF router found closed shut, of "[]"] show ?thesis unfolding clock by blast
qed

text \<open>
  C4. Tenants are isolated at the HTTP boundary: whatever request goes to one of the jobs routes, with whatever body, the middleware has
  named a user, and then rows of every other user stay exactly as they are, no row changes its owner or disappears, and rows that are added belong to that
  user; or the middleware has refused it and the table is unchanged.
\<close>

theorem tenant_isolation:
  assumes "gin_router (app_find app)" and "jobs_service (app_jobs app) tbl sent seen accepted"
    and "seen (ap_mq st) = length (sent (ap_mq st))"
    and "app_find app Register (rq_Method req) (rq_Path req) = Matched e params" and "en_Handler e \<in> job_endpoints"
    and "route_request app order req st = (st', reply)"
  shows "case auth_gate app (request_context req params) st of
      (rd', Inl resp) \<Rightarrow> tbl (ap_db st') = tbl (ap_db st) \<and> reply = AbortReply resp
    | (rd', Inr c) \<Rightarrow> \<exists>u. UserIDFromContext c = (u, True) \<and> tenant_frame u (tbl (ap_db st)) (tbl (ap_db st'))"
proof -
  note run = run_protected [OF assms(1,4) job_endpoints_protected [OF assms(5)], of order st, unfolded assms(6)]
  obtain rd' g where gate: "auth_gate app (request_context req params) st = (rd', g)" by fastforce
  show ?thesis
  proof (cases g)
    case (Inl resp)
    with run gate show ?thesis by simp
  next
    case (Inr c)
    from auth_gate_user [OF gate [unfolded Inr]] obtain u where u: "UserIDFromContext c = (u, True)" by blast
    have "st' = fst (run_endpoint app order (en_Handler e) (rq_Body req) c (st\<lparr>ap_rd := rd', ap_clock := stl (ap_clock st)\<rparr>))"
      using run gate Inr by (metis fst_conv prod.case sum.case(2))
    with run_job_endpoint [OF assms(2) _ assms(5) u, of "st\<lparr>ap_rd := rd', ap_clock := stl (ap_clock st)\<rparr>" order "rq_Body req"] assms(3)
    have "tenant_frame u (tbl (ap_db st)) (tbl (ap_db st'))" by simp
    with gate Inr u show ?thesis by simp
  qed
qed

theorem tenant_isolation_witness:
  "mem_tbl j_ID (snd (ap_db (fst (route_request ref_app [] (http_call DELETE ''/jobs/j1'' ''Bearer token'') (app_at [plain_job ''j1'' ''bob'']))))) ''j1''
     = Some (plain_job ''j1'' ''bob'')"
proof -
  let ?req = "http_call DELETE ''/jobs/j1'' ''Bearer token''" and ?st = "app_at [plain_job ''j1'' ''bob'']"
  have found: "app_find ref_app Register (rq_Method ?req) (rq_Path ?req) = Matched delete_entry ((\<lambda>p. '''')(''id'' := ''j1''))"
    by (simp add: delete_matched)
  have pre: "gin_router (app_find ref_app)" "en_Handler delete_entry \<in> job_endpoints" "rb_seen (ap_mq ?st) = length (rb_sent (ap_mq ?st))"
    "gc_Header (request_context ?req ((\<lambda>p. '''')(''id'' := ''j1''))) ''Authorization'' = ''Bearer token''"
    by (simp_all add: ref_router.gin_router_axioms delete_entry_def job_endpoints_def app_at_def rb_init_def request_context_def)
  have row: "mem_tbl j_ID (snd (ap_db ?st)) ''j1'' = Some (plain_job ''j1'' ''bob'')" by (simp add: app_at_def mem_tbl_def no_jobs_def)
  from tenant_isolation [OF pre(1) ref_app.jobs_service_axioms pre(3) found pre(2) prod.collapse [symmetric], of "[]"]
  have "tenant_frame ''ann'' (mem_tbl j_ID (snd (ap_db ?st))) (mem_tbl j_ID (snd (ap_db (fst (route_request ref_app [] ?req ?st)))))"
    by (simp add: ref_gate_open [OF pre(4)])
  with row show ?thesis unfolding tenant_frame_def by (auto dest!: spec [of _ "''j1''"])
qed

text \<open>
  A request that reaches the limiter is served exactly when a token is left: it then takes that one token and gets the answer and the effects of its
  route; with the bucket empty it is answered 429, and neither the bucket nor anything behind it changes.
\<close>

theorem rate_limit_sheds:
  assumes "app_find app Register (rq_Method req) (rq_Path req) \<noteq> Redirected"
  shows "serve app order req tb st =
    (if tb_tokens tb = 0 then (tb, st, Aborted 429)
     else (tb\<lparr>tb_tokens := tb_tokens tb - 1\<rparr>, fst (route_request app order req st), Passed (snd (route_request app order req st))))"
proof -
  have "serve app order req tb st = RateLimit (route_request app order req) tb st"
    using assms by (simp add: serve_def split: router_answer.splits)
  then show ?thesis by (simp add: RateLimit_def TryAcquire_def split: prod.splits)
qed

theorem rate_limit_sheds_witness:
  "serve ref_app [] (http_call GET ''/nowhere'' '''') \<lparr>tb_capacity = 1, tb_tokens = 0, tb_interval = 1, tb_cancelled = False, tb_running = True\<rparr> (app_at []) =
     (\<lparr>tb_capacity = 1, tb_tokens = 0, tb_interval = 1, tb_cancelled = False, tb_running = True\<rparr>, app_at [], Aborted 429)"
proof -
  have "app_find ref_app Register (rq_Method (http_call GET ''/nowhere'' '''')) (rq_Path (http_call GET ''/nowhere'' '''')) \<noteq> Redirected"
    by (simp add: route_defs)
  from rate_limit_sheds [OF this, of "[]" "\<lparr>tb_capacity = 1, tb_tokens = 0, tb_interval = 1, tb_cancelled = False, tb_running = True\<rparr>" "app_at []"]
  show ?thesis by simp
qed

end
