(* ===== verification/Cron.thy ===== *)
theory Cron
  imports Jobs_Service Auth_Model
begin

text \<open>
  Package \<^verbatim>\<open>internal/cron\<close>: the hourly sweep of expired refresh tokens (\<^verbatim>\<open>refreshTokenCleanUp.go\<close>) and the job reconciler that runs every minute (\<^verbatim>\<open>jobReconciler.go\<close>).
  Both are the same loop around a ticker: a list of events says which branch each \<^verbatim>\<open>select\<close> took.
\<close>

section \<open>Model\<close>

definition jobReconcileInterval :: duration where "jobReconcileInterval = 1 * Minute"
definition cleanupInterval :: duration where "cleanupInterval = 1 * Hour"

datatype cron_event = CronTick | CronDone

text \<open>The loop: the flag of the result says whether it has returned.\<close>

fun cron_loop :: "('s \<Rightarrow> 's) \<Rightarrow> cron_event list \<Rightarrow> 's \<Rightarrow> 's \<times> bool" where
  "cron_loop sweep [] st = (st, False)"
| "cron_loop sweep (CronTick # evs) st = cron_loop sweep evs (sweep st)"
| "cron_loop sweep (CronDone # evs) st = (st, True)"

definition clean :: "'db auth_db \<Rightarrow> time \<Rightarrow> 'db \<Rightarrow> 'db" where
  "clean a now db = (case gorm_Delete (ad_tokens a) db (\<lambda>t. rt_ExpiresAt t < now) of
       (db', Inl err) \<Rightarrow> db'
     | (db', Inr rowsAffected) \<Rightarrow> db')"

definition RefreshTokenCleaner_Start :: "'db auth_db \<Rightarrow> cron_event list \<Rightarrow> clock \<times> 'db \<Rightarrow> (clock \<times> 'db) \<times> bool" where
  "RefreshTokenCleaner_Start a = cron_loop (\<lambda>(clk, db). let (now, clk') = time_Now clk in (clk', clean a now db))"

definition JobReconciler_Start :: "('db, 'mq) JobsService \<Rightarrow> cron_event list \<Rightarrow> ('db, 'mq) jobs_state \<Rightarrow> ('db, 'mq) jobs_state \<times> bool" where
  "JobReconciler_Start s = cron_loop (\<lambda>st. fst (RepublishStuckJobs s st))"

section \<open>Facts\<close>

text \<open>What every sweep keeps, the loop keeps.\<close>

lemma cron_loop_invariant:
  assumes "\<And>st. I st \<Longrightarrow> I (sweep st)" and "I st" and "cron_loop sweep evs st = (st', stopped)"
  shows "I st'"
  using assms(2,3)
proof (induction evs arbitrary: st)
  case (Cons ev evs)
  then show ?case using assms(1) [of st] by (cases ev) auto
qed simp

context auth_store
begin

lemma clean_users: "utbl (clean a now db) = utbl db"
  unfolding clean_def using tokens_delete_frame by (auto split: prod.splits sum.splits)

lemma clean_rows:
  "ttbl (clean a now db) = ttbl db
   \<or> ttbl (clean a now db) = (\<lambda>k. case ttbl db k of None \<Rightarrow> None | Some t \<Rightarrow> if rt_ExpiresAt t < now then None else Some t)"
proof -
  obtain db' r where d: "gorm_Delete (ad_tokens a) db (\<lambda>t. rt_ExpiresAt t < now) = (db', r)" by fastforce
  show ?thesis
  proof (cases r)
    case (Inl e)
    with d tokens.delete_Inl show ?thesis by (simp add: clean_def)
  next
    case (Inr n)
    then have "ttbl (clean a now db) = (\<lambda>k. case ttbl db k of None \<Rightarrow> None | Some t \<Rightarrow> if rt_ExpiresAt t < now then None else Some t)"
      using tokens.delete_eq [OF d [unfolded Inr]] d by (intro ext) (simp add: clean_def split: option.splits)
    then show ?thesis by (rule disjI2)
  qed
qed

lemma clean_Some: "ttbl (clean a now db) k = Some t \<Longrightarrow> ttbl db k = Some t"
  using clean_rows [of now db] by (auto split: option.splits if_splits)

lemma clean_keeps: "ttbl db k = Some t \<Longrightarrow> now \<le> rt_ExpiresAt t \<Longrightarrow> ttbl (clean a now db) k = Some t"
  using clean_rows [of now db] by auto

lemma cleaner_rows:
  assumes "RefreshTokenCleaner_Start a evs (clk, db) = ((clk', db'), stopped)"
  shows "utbl db' = utbl db \<and> (\<forall>k t. ttbl db' k = Some t \<longrightarrow> ttbl db k = Some t)
    \<and> (\<forall>k t. ttbl db k = Some t \<longrightarrow> ttbl db' k = Some t \<or> (\<exists>n. rt_ExpiresAt t < clk !! n))"
  using assms
proof (induction evs arbitrary: clk db)
  case (Cons ev evs)
  show ?case
  proof (cases ev)
    case CronTick
    with Cons.prems have run: "RefreshTokenCleaner_Start a evs (stl clk, clean a (shd clk) db) = ((clk', db'), stopped)"
      by (simp add: RefreshTokenCleaner_Start_def time_Now_def)
    have "ttbl db' k = Some t \<or> (\<exists>n. rt_ExpiresAt t < clk !! n)" if "ttbl db k = Some t" for k t
    proof (cases "rt_ExpiresAt t < shd clk")
      case True
      then show ?thesis by (metis snth.simps(1))
    next
      case False
      with clean_keeps [OF that] have "ttbl (clean a (shd clk) db) k = Some t" by simp
      with Cons.IH [OF run] have "ttbl db' k = Some t \<or> (\<exists>n. rt_ExpiresAt t < stl clk !! n)" by blast
      then show ?thesis by (metis snth.simps(2))
    qed
    with Cons.IH [OF run] clean_users [of "shd clk" db] clean_Some [of "shd clk" db] show ?thesis by metis
  next
    case CronDone
    with Cons.prems show ?thesis by (simp add: RefreshTokenCleaner_Start_def)
  qed
qed (simp add: RefreshTokenCleaner_Start_def)

end

section \<open>Properties\<close>


definition expiring :: "string \<Rightarrow> time \<Rightarrow> RefreshToken" where
  "expiring i t = zeroRefreshToken\<lparr>rt_ID := i, rt_TokenHash := i, rt_FamilyID := ''f'', rt_ExpiresAt := t\<rparr>"

definition two_tokens :: mem_auth where
  "two_tokens = \<lparr>ma_users = \<lparr>mem_rows = [], mem_faults = [], mem_supply = 0\<rparr>,
     ma_tokens = \<lparr>mem_rows = [expiring ''a'' 5, expiring ''b'' 20], mem_faults = [], mem_supply = 0\<rparr>\<rparr>"

lemma cleaner_run:
  "RefreshTokenCleaner_Start mem_auth_db [CronTick, CronTick, CronDone] (sconst 10, two_tokens) =
     ((sconst 10, two_tokens\<lparr>ma_tokens := (ma_tokens two_tokens)\<lparr>mem_rows := [expiring ''b'' 20]\<rparr>\<rparr>), True)"
  by (simp add: RefreshTokenCleaner_Start_def time_Now_def clean_def mem_auth_db_def on_part_def mem_tokens_def with_check_def mem_defs
      two_tokens_def expiring_def zeroRefreshToken_def List.map_filter_simps)


end
