(* ===== verification/Server.thy ===== *)
theory Server
  imports Routes Worker Cron
begin

text \<open>
  The two processes: \<^verbatim>\<open>internal/bootstrap\<close> with \<^verbatim>\<open>cmd/server/main.go\<close>, and \<^verbatim>\<open>cmd/worker/main.go\<close>. Each connects to its services in order and stops at the first
  that fails; a \<^verbatim>\<open>log.Fatalf\<close>, an error return and a panic all end the start, and the failure says which one it was.
\<close>

section \<open>Bootstrap\<close>

text \<open>
  The packages that the processes are linked with. \<open>bd_auth\<close>, \<open>bd_jobs\<close>, \<open>bd_DB\<close> and \<open>bd_Ping\<close> are the calls that a database handle offers, \<open>bd_conn\<close> those of the
  broker connection that the health probe uses.
\<close>

record ('d, 'db, 'rd, 'mq, 'ch) boot_deps =
  bd_gormOpen :: "string \<Rightarrow> string + 'd"
  bd_sqlDBErr :: "'d \<Rightarrow> string option"
  bd_setPool :: "'d \<Rightarrow> pool_settings \<Rightarrow> 'd"
  bd_ping :: "'d \<Rightarrow> string option"
  bd_newRedis :: "redis_options \<Rightarrow> 'rd redis_client"
  bd_setTrustedProxies :: "string option"
  bd_auth :: "'d \<Rightarrow> 'db auth_db"
  bd_jobs :: "'d \<Rightarrow> ('db, Job) gorm"
  bd_DB :: "'d \<Rightarrow> 'db \<Rightarrow> string option"
  bd_Ping :: "'d \<Rightarrow> 'db \<Rightarrow> 'db \<times> string option"
  bd_conn :: "('mq, 'ch) mq_conn"
  bd_jwt :: jwt
  bd_bcrypt :: bcrypt
  bd_unicode :: unicode_tables
  bd_marshal :: "JobMessage \<Rightarrow> string + string"
  bd_find :: router
  bd_dec :: decoders
  bd_unmarshal :: "string \<Rightarrow> string + JobMessage"
  bd_hostname :: string
  bd_pid :: int

datatype boot_failure =
    BootConfig config_error
  | BootPanic string
  | BootDB connect_db_error
  | BootBroker connect_failure
  | BootQueues declare_error
  | BootBucket tb_panic
  | BootProxies string
  | BootConsumer consume_error

record ('d, 'db, 'rd, 'mq, 'ch) boot_app =
  ba_Router :: "route_entry list"
  ba_DB :: 'd
  ba_Redis :: "'rd redis_client"
  ba_RabbitMQ :: "'mq amqp"
  ba_TokenBucket :: TokenBucket
  ba_Handlers :: "('db, 'rd, 'mq, 'ch) App"
  ba_Clients :: ClientManager

definition connect_database :: "('d, 'db, 'rd, 'mq, 'ch) boot_deps \<Rightarrow> Config \<Rightarrow> boot_failure + 'd" where
  "connect_database bd c = (case ConnectDB (bd_gormOpen bd) (bd_sqlDBErr bd) (bd_setPool bd) (bd_ping bd) c of
       Inl e \<Rightarrow> Inl (BootDB e) | Inr db \<Rightarrow> Inr db)"

definition connect_broker :: "'mq amqp \<Rightarrow> Config \<Rightarrow> 'mq \<Rightarrow> 'mq \<times> boot_failure option" where
  "connect_broker a c mq = (case NewRabbitMQConnection a (RabbitMQURL c) mq of
       (mq1, Some f, _) \<Rightarrow> (mq1, Some (BootBroker f))
     | (mq1, None, _) \<Rightarrow> (case InitializeQueues a AppQueues mq1 of
         (mq2, Some e) \<Rightarrow> (mq2, Some (BootQueues e))
       | (mq2, None) \<Rightarrow> (mq2, None)))"

text \<open>The services and handlers, all on the same database handle, Redis client and broker connection.\<close>

definition wire ::
  "('d, 'db, 'rd, 'mq, 'ch) boot_deps \<Rightarrow> Config \<Rightarrow> 'd \<Rightarrow> 'rd redis_client \<Rightarrow> 'mq amqp \<Rightarrow> ('db, 'rd, 'mq, 'ch) App"
where
  "wire bd c db rdb a =
     \<lparr>app_auth = NewAuthService (bd_auth bd db) rdb (bd_jwt bd) (bd_bcrypt bd) c (bd_unicode bd),
      app_jobs = NewJobsService (bd_jobs bd db) a (bd_marshal bd),
      app_health = NewHealthHandler (bd_DB bd db) (bd_Ping bd db) rdb (bd_conn bd),
      app_find = bd_find bd, app_dec = bd_dec bd\<rparr>"

definition bootstrap_New ::
  "('d, 'db, 'rd, 'mq, 'ch) boot_deps \<Rightarrow> 'mq amqp \<Rightarrow> Config option \<Rightarrow> 'rd redis_client option \<Rightarrow> 'mq \<Rightarrow> 'mq \<times> (boot_failure + ('d, 'db, 'rd, 'mq, 'ch) boot_app)"
where
  "bootstrap_New bd a cfg inst mq = (case Get cfg of
       Panic msg \<Rightarrow> (mq, Inl (BootPanic msg))
     | Returns c \<Rightarrow> (case connect_database bd c of
         Inl f \<Rightarrow> (mq, Inl f)
       | Inr db \<Rightarrow> (let (inst', rdb) = NewRedis (bd_newRedis bd) (RedisAddr c) (RedisPassword c) inst in
           case connect_broker a c mq of
             (mq', Some f) \<Rightarrow> (mq', Inl f)
           | (mq', None) \<Rightarrow> (case NewTokenBucket (RateLimitRate c) (RateLimitCapacity c) of
               Inl p \<Rightarrow> (mq', Inl (BootBucket p))
             | Inr bucket \<Rightarrow> (case bd_setTrustedProxies bd of
                 Some e \<Rightarrow> (mq', Inl (BootProxies e))
               | None \<Rightarrow> (mq', Inr \<lparr>ba_Router = Register, ba_DB = db, ba_Redis = rdb, ba_RabbitMQ = a, ba_TokenBucket = bucket,
                     ba_Handlers = wire bd c db rdb a, ba_Clients = NewClientManager\<rparr>))))))"

definition App_Stop :: "('d, 'db, 'rd, 'mq, 'ch) boot_app \<Rightarrow> ('d, 'db, 'rd, 'mq, 'ch) boot_app" where
  "App_Stop app = app\<lparr>ba_TokenBucket := Stop (ba_TokenBucket app)\<rparr>"

section \<open>The processes\<close>

text \<open>What the server process runs once it has started: the three background loops and the listener.\<close>

record ('d, 'db, 'rd, 'mq, 'ch) server_process =
  sp_App :: "('d, 'db, 'rd, 'mq, 'ch) boot_app"
  sp_Pattern :: string
  sp_Addr :: string

definition server_main :: "('d, 'db, 'rd, 'mq, 'ch) boot_deps \<Rightarrow> 'mq amqp \<Rightarrow> viper \<Rightarrow> 'mq \<Rightarrow> 'mq \<times> (boot_failure + ('d, 'db, 'rd, 'mq, 'ch) server_process)" where
  "server_main bd a v mq = (case Load v None of
       (cfg, Some e) \<Rightarrow> (mq, Inl (BootConfig e))
     | (cfg, None) \<Rightarrow> (case bootstrap_New bd a cfg None mq of
         (mq', Inl f) \<Rightarrow> (mq', Inl f)
       | (mq', Inr app) \<Rightarrow> (mq', Inr \<lparr>sp_App = app, sp_Pattern = ''user:*:jobs'', sp_Addr = '':8080''\<rparr>)))"

definition server_shutdown :: "('d, 'db, 'rd, 'mq, 'ch) server_process \<Rightarrow> string option \<Rightarrow> ('d, 'db, 'rd, 'mq, 'ch) server_process" where
  \<comment> \<open>an error of the HTTP server's shutdown is only logged\<close>
  "server_shutdown p err = p\<lparr>sp_App := App_Stop (sp_App p)\<rparr>"

text \<open>The worker process up to \<^verbatim>\<open>Start\<close>, and with it.\<close>

definition worker_connect :: "('d, 'db, 'rd, 'mq, 'ch) boot_deps \<Rightarrow> 'mq amqp \<Rightarrow> viper \<Rightarrow> 'mq \<Rightarrow> 'mq \<times> (boot_failure + 'd \<times> 'rd redis_client)" where
  "worker_connect bd a v mq = (case Load v None of
       (cfg, Some e) \<Rightarrow> (mq, Inl (BootConfig e))
     | (cfg, None) \<Rightarrow> (case Get cfg of
         Panic msg \<Rightarrow> (mq, Inl (BootPanic msg))
       | Returns c \<Rightarrow> (case connect_broker a c mq of
           (mq', Some f) \<Rightarrow> (mq', Inl f)
         | (mq', None) \<Rightarrow> (case connect_database bd c of
             Inl f \<Rightarrow> (mq', Inl f)
           | Inr db \<Rightarrow> (let (inst, rdb) = NewRedis (bd_newRedis bd) (RedisAddr c) (RedisPassword c) None in (mq', Inr (db, rdb)))))))"

definition worker_main ::
  "('d, 'db, 'rd, 'mq, 'ch) boot_deps \<Rightarrow> 'mq amqp \<Rightarrow> viper \<Rightarrow> duration option \<Rightarrow> 'mq \<Rightarrow> 'mq \<times> (boot_failure + ('db, 'rd) Worker \<times> drain_end set)"
where
  \<comment> \<open>the worker whose consumers ran, and how the drain can have ended\<close>
  "worker_main bd a v busy mq = (case worker_connect bd a v mq of
       (mq', Inl f) \<Rightarrow> (mq', Inl f)
     | (mq', Inr (db, rdb)) \<Rightarrow>
         (let w = New_Worker (bd_jobs bd db) rdb (bd_unmarshal bd) (bd_hostname bd) (bd_pid bd)
          in case Worker_Start a busy mq' of
               (mq'', Inl e) \<Rightarrow> (mq'', Inl (BootConsumer e))
             | (mq'', Inr ends) \<Rightarrow> (mq'', Inr (w, ends))))"

section \<open>Facts\<close>

definition jobs_topology ::
  "('mq \<Rightarrow> (string \<times> bool \<times> amqp_table) set) \<Rightarrow> ('mq \<Rightarrow> (string \<times> string) set) \<Rightarrow> ('mq \<Rightarrow> (string \<times> string \<times> string) set) \<Rightarrow> 'mq \<Rightarrow> bool"
where
  "jobs_topology queues exchanges bindings mq \<longleftrightarrow> (\<exists>args. (QueueJobs, True, args) \<in> queues mq)
     \<and> (delayedExchange QueueJobs, ''x-delayed-message'') \<in> exchanges mq \<and> (QueueJobs, QueueJobs, delayedExchange QueueJobs) \<in> bindings mq"

lemma connect_broker_topology:
  assumes "amqp_topology a queues exchanges bindings" and "connect_broker a c mq = (mq', None)"
  shows "jobs_topology queues exchanges bindings mq'"
proof -
  obtain mq1 where "InitializeQueues a AppQueues mq1 = (mq', None)"
    using assms(2) by (auto simp: connect_broker_def split: prod.splits option.splits)
  from amqp_topology.InitializeQueues_topology [OF assms(1) this] show ?thesis
    by (auto simp: jobs_topology_def AppQueues_def)
qed

lemma Load_NoneE:
  assumes "Load v cfg0 = (cfg, None)"
  obtains "vp_ReadInConfig v = None" "validate (config_defaults (read_config v)) = None" "cfg = Some (config_defaults (read_config v))"
  using assms by (auto simp: Load_def Let_def split: option.splits)

lemma connect_databaseE:
  assumes "connect_database bd c = Inr db"
  obtains db0 pool where "bd_gormOpen bd (postgres_dsn c) = Inr db0" "db = bd_setPool bd db0 pool" "bd_ping bd db = None"
  using assms by (auto simp: connect_database_def ConnectDB_def Let_def split: sum.splits option.splits)

lemma bootstrap_NewE:
  assumes "bootstrap_New bd a cfg inst mq = (mq', Inr app)"
  obtains c db bucket where "cfg = Some c" "connect_database bd c = Inr db" "connect_broker a c mq = (mq', None)"
    "NewTokenBucket (RateLimitRate c) (RateLimitCapacity c) = Inr bucket" "ba_Router app = Register" "ba_DB app = db" "ba_TokenBucket app = bucket"
    "ba_Handlers app = wire bd c db (ba_Redis app) a"
  using assms
  by (auto simp: bootstrap_New_def Get_def Let_def split: option.splits sum.splits prod.splits go_panic.splits)

lemma NewTokenBucket_full: "NewTokenBucket rate capacity = Inr tb \<Longrightarrow> 0 \<le> capacity \<and> int (tb_tokens tb) = capacity \<and> tb_capacity tb = capacity \<and> tb_running tb"
  by (auto simp: NewTokenBucket_def split: if_splits)

section \<open>Properties\<close>

text \<open>
  C31. Neither process serves half configured. When the server starts listening, the configuration was read and none of its
  required values is empty, the database has answered a ping, the jobs queue, its delayed exchange and the binding between them are declared at the broker,
  the limiter is full with at least one token, the routes are the registered ones, and the jobs service, the auth service and the middleware work on that database, that
  Redis client and that broker with the secret of the configuration. When the worker starts its consumers, the same holds of its
  configuration, its database and the broker.
\<close>

theorem processes_start_complete:
  assumes "amqp_topology a queues exchanges bindings"
  shows "(case server_main bd a v mq of (mq', Inl f) \<Rightarrow> True
    | (mq', Inr p) \<Rightarrow> vp_ReadInConfig v = None \<and> validate (read_config v) = None \<and> bd_ping bd (ba_DB (sp_App p)) = None
        \<and> jobs_topology queues exchanges bindings mq' \<and> ba_Router (sp_App p) = Register
        \<and> 0 < tb_tokens (ba_TokenBucket (sp_App p)) \<and> int (tb_tokens (ba_TokenBucket (sp_App p))) = tb_capacity (ba_TokenBucket (sp_App p))
        \<and> ba_Handlers (sp_App p) = wire bd (config_defaults (read_config v)) (ba_DB (sp_App p)) (ba_Redis (sp_App p)) a)
    \<and> (case worker_connect bd a v mq of (mq', Inl f) \<Rightarrow> True
    | (mq', Inr (db, rdb)) \<Rightarrow> vp_ReadInConfig v = None \<and> validate (read_config v) = None \<and> bd_ping bd db = None
        \<and> jobs_topology queues exchanges bindings mq')"
proof -
  let ?c = "config_defaults (read_config v)"
  have capacity: "RateLimitCapacity ?c \<noteq> 0" by (simp add: config_defaults_def Let_def)
  have valid: "validate ?c = None \<Longrightarrow> validate (read_config v) = None" by (simp add: validate_def required_defaults)
  have server: "vp_ReadInConfig v = None \<and> validate (read_config v) = None \<and> bd_ping bd (ba_DB (sp_App p)) = None
        \<and> jobs_topology queues exchanges bindings mq' \<and> ba_Router (sp_App p) = Register
        \<and> 0 < tb_tokens (ba_TokenBucket (sp_App p)) \<and> int (tb_tokens (ba_TokenBucket (sp_App p))) = tb_capacity (ba_TokenBucket (sp_App p))
        \<and> ba_Handlers (sp_App p) = wire bd ?c (ba_DB (sp_App p)) (ba_Redis (sp_App p)) a"
    if "server_main bd a v mq = (mq', Inr p)" for mq' p
  proof -
    from that obtain cfg where load: "Load v None = (cfg, None)" and boot: "bootstrap_New bd a cfg None mq = (mq', Inr (sp_App p))"
      by (auto simp: server_main_def split: prod.splits option.splits sum.splits)
    show ?thesis using load
    proof (rule Load_NoneE)
      assume cfg: "vp_ReadInConfig v = None" "validate ?c = None" "cfg = Some ?c"
      from boot show ?thesis
      proof (rule bootstrap_NewE)
        fix c db bucket
        assume b: "cfg = Some c" "connect_database bd c = Inr db" "connect_broker a c mq = (mq', None)"
          "NewTokenBucket (RateLimitRate c) (RateLimitCapacity c) = Inr bucket" "ba_Router (sp_App p) = Register"
          "ba_DB (sp_App p) = db" "ba_TokenBucket (sp_App p) = bucket" "ba_Handlers (sp_App p) = wire bd c db (ba_Redis (sp_App p)) a"
        from b(2) have "bd_ping bd db = None" by (rule connect_databaseE)
        then show ?thesis using cfg b NewTokenBucket_full [OF b(4)] capacity connect_broker_topology [OF assms b(3)] valid by auto
      qed
    qed
  qed
  have worker: "vp_ReadInConfig v = None \<and> validate (read_config v) = None \<and> bd_ping bd db = None
        \<and> jobs_topology queues exchanges bindings mq'"
    if "worker_connect bd a v mq = (mq', Inr (db, rdb))" for mq' db rdb
  proof -
    from that obtain cfg c where load: "Load v None = (cfg, None)" and c: "Get cfg = Returns c"
      and broker: "connect_broker a c mq = (mq', None)" and db: "connect_database bd c = Inr db"
      by (auto simp: worker_connect_def Let_def split: prod.splits option.splits sum.splits go_panic.splits)
    from db have "bd_ping bd db = None" by (rule connect_databaseE)
    with load show ?thesis using connect_broker_topology [OF assms broker] valid by (auto elim!: Load_NoneE)
  qed
  show ?thesis using server worker by (auto split: prod.splits sum.splits)
qed

definition ref_boot :: "(unit, mem_all, ref_redis, ref_broker, nat) boot_deps" where
  "ref_boot = \<lparr>bd_gormOpen = (\<lambda>dsn. Inr ()), bd_sqlDBErr = (\<lambda>d. None), bd_setPool = (\<lambda>d pool. d), bd_ping = (\<lambda>d. None),
     bd_newRedis = (\<lambda>opts. ref_client), bd_setTrustedProxies = None, bd_auth = (\<lambda>d. all_auth), bd_jobs = (\<lambda>d. all_jobs),
     bd_DB = (\<lambda>d db. None), bd_Ping = (\<lambda>d db. (db, None)), bd_conn = hh_mq (app_health ref_app), bd_jwt = sample_jwt ''ann'' 0,
     bd_bcrypt = clear_bcrypt, bd_unicode = latin_tables, bd_marshal = (\<lambda>m. Inr (m_ID m)), bd_find = ref_find, bd_dec = app_dec ref_app,
     bd_unmarshal = (\<lambda>b. Inl ''unsupported''), bd_hostname = ''host'', bd_pid = 7\<rparr>"

definition ref_viper :: viper where
  "ref_viper = \<lparr>vp_ReadInConfig = None, vp_GetString = (\<lambda>k. ''x''), vp_GetInt = (\<lambda>k. 0)\<rparr>"

lemma ref_broker_connects: "\<exists>mq'. connect_broker ref_amqp c rb_init = (mq', None)"
proof -
  have attempts: "connectMaxAttempts = Suc 29" by (simp add: connectMaxAttempts_def)
  have "NewRabbitMQConnection ref_amqp (RabbitMQURL c) rb_init = (rb_init, None, 0)"
    unfolding NewRabbitMQConnection_def attempts dial_loop.simps by (simp add: ref_amqp_def rb_call_def rb_init_def)
  moreover have "\<exists>mq'. InitializeQueues ref_amqp AppQueues rb_init = (mq', None)"
    by (simp add: AppQueues_def DefaultQueueConfig_def DeclareQueue_def DeclareDelayedExchange_def ref_amqp_def rb_call_def rb_init_def Let_def)
  ultimately show ?thesis by (auto simp: connect_broker_def)
qed

lemma ref_server_starts: "\<exists>mq' p. server_main ref_boot ref_amqp ref_viper rb_init = (mq', Inr p)"
proof -
  let ?c = "config_defaults (read_config ref_viper)"
  have "validate (read_config ref_viper) = None" by (simp add: ref_viper_def validate_def required_def read_config_def)
  then have load: "Load ref_viper None = (Some ?c, None)" by (intro Load_ok) (simp_all add: ref_viper_def)
  have "RateLimitRate ?c = 2" "RateLimitCapacity ?c = 5" by (simp_all add: ref_viper_def read_config_def config_defaults_def)
  then obtain bucket where bucket: "NewTokenBucket (RateLimitRate ?c) (RateLimitCapacity ?c) = Inr bucket"
    by (simp add: NewTokenBucket_def everyMs_def signed_divide_int_def go_time)
  obtain mq' where "connect_broker ref_amqp ?c rb_init = (mq', None)" using ref_broker_connects by blast
  with load bucket show ?thesis
    by (simp add: server_main_def bootstrap_New_def Get_def connect_database_def ConnectDB_def ref_boot_def NewRedis_def Let_def)
qed

theorem processes_start_complete_witness:
  "\<exists>mq' p. server_main ref_boot ref_amqp ref_viper rb_init = (mq', Inr p) \<and> 0 < tb_tokens (ba_TokenBucket (sp_App p))
     \<and> (''jobs'', ''jobs'', ''jobs.delayed'') \<in> set (rb_bindings mq')"
proof -
  obtain mq' p where run: "server_main ref_boot ref_amqp ref_viper rb_init = (mq', Inr p)" using ref_server_starts by blast
  with processes_start_complete [OF ref.amqp_topology_axioms, where bd = ref_boot and v = ref_viper and mq = rb_init] show ?thesis
    by (auto simp: jobs_topology_def QueueJobs_def delayedExchange_def)
qed

end
