(* ===== verification/Token_Lifecycle.thy ===== *)
theory Token_Lifecycle
  imports Auth_Service Cron
begin

text \<open>
  The life of refresh tokens under concurrency. Requests and the hourly sweep interleave between their database calls, so the state machine here
  takes one repository call per step: a request first looks a token up, and at any later time, after any calls of others, rotates what it
  found or revokes its family. The state is the set of identifiers handed out so far, the set of rows that requests hold in
  memory, and the database. The one thing assumed of generated identifiers is that they are new.
\<close>

section \<open>The state machine\<close>

type_synonym 'db tok_state = "string set \<times> RefreshToken set \<times> 'db"

datatype tok_event =
    TkFound RefreshToken
  | TkRotated RefreshToken RefreshToken
  | TkFamily string bool
  | TkQuiet

definition new_rows :: "(string \<Rightarrow> RefreshToken option) \<Rightarrow> (string \<Rightarrow> RefreshToken option) \<Rightarrow> RefreshToken set" where
  "new_rows ts ts' = {t. \<exists>k. ts k = None \<and> ts' k = Some t}"

definition session_ids :: "RefreshToken set \<Rightarrow> string set" where
  "session_ids R = rt_ID ` R \<union> rt_FamilyID ` R"

inductive tok_step :: "'db auth_db \<Rightarrow> ('db \<Rightarrow> string \<Rightarrow> RefreshToken option) \<Rightarrow> 'db tok_state \<Rightarrow> tok_event \<Rightarrow> 'db tok_state \<Rightarrow> bool"
  for a :: "'db auth_db" and ttbl :: "'db \<Rightarrow> string \<Rightarrow> RefreshToken option"
where
  found: "FindRefreshTokenByHash a h db = (db', Inr t) \<Longrightarrow> tok_step a ttbl (U, S, db) (TkFound t) (U, insert t S, db')"
| not_found: "FindRefreshTokenByHash a h db = (db', Inl e) \<Longrightarrow> tok_step a ttbl (U, S, db) TkQuiet (U, S, db')"
| rotated: "old \<in> S \<Longrightarrow> RotateRefreshToken a old h clk db = (db', clk', Inr new) \<Longrightarrow> rt_ID new \<notin> U \<Longrightarrow>
    tok_step a ttbl (U, S, db) (TkRotated old new) (insert (rt_ID new) U, S, db')"
| not_rotated: "old \<in> S \<Longrightarrow> RotateRefreshToken a old h clk db = (db', clk', Inl e) \<Longrightarrow> tok_step a ttbl (U, S, db) TkQuiet (U, S, db')"
| family: "stored \<in> S \<Longrightarrow> RevokeFamily a (rt_FamilyID stored) now db = (db', r) \<Longrightarrow>
    tok_step a ttbl (U, S, db) (TkFamily (rt_FamilyID stored) (r = None)) (U, S, db')"
| login: "CreateRefreshToken a (new_refresh uid h now) db = (db', r) \<Longrightarrow> N = session_ids (new_rows (ttbl db) (ttbl db')) \<Longrightarrow> N \<inter> U = {} \<Longrightarrow>
    tok_step a ttbl (U, S, db) TkQuiet (U \<union> N, S, db')"
| signup: "CreateUserWithRefreshToken a u (new_refresh uid h now) db = (db', x) \<Longrightarrow> N = session_ids (new_rows (ttbl db) (ttbl db')) \<Longrightarrow> N \<inter> U = {} \<Longrightarrow>
    tok_step a ttbl (U, S, db) TkQuiet (U \<union> N, S, db')"
| user: "GetUserByID a i db = (db', y) \<Longrightarrow> tok_step a ttbl (U, S, db) TkQuiet (U, S, db')"
| sweep: "tok_step a ttbl (U, S, db) TkQuiet (U, S, clean a now db)"

inductive_cases tok_stepE: "tok_step a ttbl (U, S, db) ev (U', S', db')"

inductive tok_run :: "'db auth_db \<Rightarrow> ('db \<Rightarrow> string \<Rightarrow> RefreshToken option) \<Rightarrow> 'db tok_state \<Rightarrow> tok_event list \<Rightarrow> 'db tok_state \<Rightarrow> bool"
  for a :: "'db auth_db" and ttbl :: "'db \<Rightarrow> string \<Rightarrow> RefreshToken option"
where
  run_nil: "tok_run a ttbl s [] s"
| run_cons: "tok_step a ttbl s ev s1 \<Longrightarrow> tok_run a ttbl s1 evs s2 \<Longrightarrow> tok_run a ttbl s (ev # evs) s2"

inductive_cases tok_run_ConsE: "tok_run a ttbl s (ev # evs) s2"
inductive_cases tok_run_NilE: "tok_run a ttbl s [] s2"

text \<open>What holds in every reachable state: the identifiers of all rows are accounted for, and a row in memory agrees with the stored one on its owner and its family.\<close>

definition tok_ok :: "('db \<Rightarrow> string \<Rightarrow> RefreshToken option) \<Rightarrow> 'db tok_state \<Rightarrow> bool" where
  "tok_ok ttbl s = (case s of (U, S, db) \<Rightarrow>
     (\<forall>k t. ttbl db k = Some t \<longrightarrow> rt_ID t = k \<and> k \<in> U \<and> rt_FamilyID t \<in> U \<and> rt_FamilyID t \<noteq> '''')
   \<and> (\<forall>t\<in>S. rt_ID t \<in> U \<and> rt_FamilyID t \<in> U \<and> rt_FamilyID t \<noteq> ''''
        \<and> (\<forall>t'. ttbl db (rt_ID t) = Some t' \<longrightarrow> rt_FamilyID t' = rt_FamilyID t)))"

text \<open>What a step may do to the table: drop rows, revoke rows, and add one row with a new identifier, which is active and of a new family or of the family of an active row that the step revokes.\<close>

definition tok_change :: "string set \<Rightarrow> string set \<Rightarrow> (string \<Rightarrow> RefreshToken option) \<Rightarrow> (string \<Rightarrow> RefreshToken option) \<Rightarrow> bool" where
  "tok_change U U' ts ts' \<longleftrightarrow> U \<subseteq> U' \<and> (\<forall>k t'. ts' k = Some t' \<longrightarrow>
     (\<exists>t. ts k = Some t \<and> (t' = t \<or> (\<exists>now. t' = revoke_row now t)))
     \<or> rt_ID t' = k \<and> k \<notin> U \<and> k \<in> U' \<and> rt_FamilyID t' \<in> U' \<and> rt_FamilyID t' \<noteq> ''''
        \<and> (rt_FamilyID t' \<notin> U \<or> (\<exists>i t. ts i = Some t \<and> active t \<and> rt_FamilyID t = rt_FamilyID t')))"

lemma tok_change_same: "tok_change U U ts ts"
  unfolding tok_change_def by auto

lemma tok_change_old:
  assumes "tok_change U U' ts ts'" and "ts' k = Some t'" and "k \<in> U"
  shows "\<exists>t. ts k = Some t \<and> (t' = t \<or> (\<exists>now. t' = revoke_row now t))"
  using assms unfolding tok_change_def by blast

lemma active_revoke [simp]: "\<not> active (revoke_row now t)"
  by (simp add: active_def)

lemma tok_change_session:
  assumes "ts' = ts \<or> (\<exists>t. ts (rt_ID t) = None \<and> ts' = ts(rt_ID t \<mapsto> t) \<and> rt_FamilyID t \<noteq> '''')"
    and "N = session_ids (new_rows ts ts')" and "N \<inter> U = {}"
  shows "tok_change U (U \<union> N) ts ts'"
proof (cases "ts' = ts")
  case True
  then show ?thesis unfolding tok_change_def by auto
next
  case False
  with assms(1) obtain t where t: "ts (rt_ID t) = None" "ts' = ts(rt_ID t \<mapsto> t)" "rt_FamilyID t \<noteq> ''''" by blast
  then have "t \<in> new_rows ts ts'" by (auto simp: new_rows_def)
  then have "rt_ID t \<in> N" "rt_FamilyID t \<in> N" using assms(2) by (auto simp: session_ids_def)
  then show ?thesis using t assms(3) unfolding tok_change_def by auto
qed

definition spent :: "string \<Rightarrow> string set \<Rightarrow> (string \<Rightarrow> RefreshToken option) \<Rightarrow> bool" where
  "spent i U ts \<longleftrightarrow> i \<in> U \<and> (\<forall>t. ts i = Some t \<longrightarrow> \<not> active t)"

definition dead :: "string \<Rightarrow> string set \<Rightarrow> (string \<Rightarrow> RefreshToken option) \<Rightarrow> bool" where
  "dead F U ts \<longleftrightarrow> F \<in> U \<and> (\<forall>k t. ts k = Some t \<longrightarrow> rt_FamilyID t = F \<longrightarrow> \<not> active t)"

lemma spent_change: "tok_change U U' ts ts' \<Longrightarrow> spent i U ts \<Longrightarrow> spent i U' ts'"
  using tok_change_old [of U U' ts ts' i] unfolding spent_def by (auto simp: tok_change_def)

lemma dead_change:
  assumes "tok_change U U' ts ts'" and "dead F U ts"
  shows "dead F U' ts'"
  unfolding dead_def
proof (intro conjI allI impI)
  show "F \<in> U'" using assms by (auto simp: dead_def tok_change_def)
  fix k t' assume t': "ts' k = Some t'" "rt_FamilyID t' = F"
  from assms(1) t'(1) consider t where "ts k = Some t" "t' = t \<or> (\<exists>now. t' = revoke_row now t)"
    | "rt_FamilyID t' \<notin> U" | i t where "ts i = Some t" "active t" "rt_FamilyID t = rt_FamilyID t'"
    unfolding tok_change_def by metis
  then show "\<not> active t'" using assms(2) t'(2) by cases (auto simp: dead_def)
qed

lemma new_refresh_active [simp]: "rt_RevokedAt (new_refresh uid h now) = None"
  by (simp add: new_refresh_def zeroRefreshToken_def)

context auth_store
begin

text \<open>The rows that an exchange, and the start of a session, leave behind.\<close>

lemma rotation_rows:
  assumes "RotateRefreshToken a old h clk db = (db', clk', Inr new)" and "old \<in> S" and "tok_ok ttbl (U, S, db)"
  shows "\<exists>r now. ttbl db (rt_ID old) = Some r \<and> active r \<and> rt_FamilyID r = rt_FamilyID new \<and> active new
     \<and> rt_FamilyID new \<noteq> '''' \<and> rt_FamilyID new \<in> U \<and> rt_ID old \<in> U \<and> ttbl db (rt_ID new) = None
     \<and> ttbl db' = (ttbl db)(rt_ID old \<mapsto> revoke_row now r, rt_ID new \<mapsto> new)"
proof -
  from RotateRefreshToken_Inr [OF assms(1)] obtain r where
    r: "ttbl db (rt_ID old) = Some r" "rt_RevokedAt r = None" "token_filled (rotated_token old h (shd clk)) new" "ttbl db (rt_ID new) = None"
      "ttbl db' = (ttbl db)(rt_ID old \<mapsto> revoke_row (shd (stl clk)) r, rt_ID new \<mapsto> new)" by blast
  have old: "rt_FamilyID old \<in> U" "rt_FamilyID old \<noteq> ''''" "rt_FamilyID r = rt_FamilyID old" "rt_ID old \<in> U"
    using assms(2,3) r(1) by (auto simp: tok_ok_def)
  have "rt_FamilyID new = rt_FamilyID old" "active new" "active r"
    using token_filledD(5,7) [OF r(3)] old(2) r(2) by (simp_all add: active_def)
  with r old show ?thesis by (intro exI [of _ r] exI [of _ "shd (stl clk)"]) simp
qed

lemma session_row:
  shows "CreateRefreshToken a (new_refresh uid h now) db = (db', e) \<Longrightarrow>
      ttbl db' = ttbl db \<or> (\<exists>t. ttbl db (rt_ID t) = None \<and> ttbl db' = (ttbl db)(rt_ID t \<mapsto> t) \<and> rt_FamilyID t \<noteq> '''' \<and> active t)"
    and "CreateUserWithRefreshToken a u (new_refresh uid h now) db = (db', x) \<Longrightarrow>
      ttbl db' = ttbl db \<or> (\<exists>t. ttbl db (rt_ID t) = None \<and> ttbl db' = (ttbl db)(rt_ID t \<mapsto> t) \<and> rt_FamilyID t \<noteq> '''' \<and> active t)"
proof -
  have good: "rt_FamilyID t \<noteq> '''' \<and> active t" if "token_filled r t" "rt_RevokedAt r = None" for r t
    using token_filledD(5,6) [OF that(1)] that(2) by (simp add: active_def)
  show "ttbl db' = ttbl db \<or> (\<exists>t. ttbl db (rt_ID t) = None \<and> ttbl db' = (ttbl db)(rt_ID t \<mapsto> t) \<and> rt_FamilyID t \<noteq> '''' \<and> active t)"
    if made: "CreateRefreshToken a (new_refresh uid h now) db = (db', e)"
  proof (cases "e = None")
    case True
    from CreateRefreshToken_cases(3) [OF made True] obtain t where t: "token_filled (new_refresh uid h now) t"
      "ttbl db (rt_ID t) = None" "ttbl db' = (ttbl db)(rt_ID t \<mapsto> t)" by blast
    with good [OF t(1) new_refresh_active] show ?thesis by blast
  qed (use CreateRefreshToken_cases(2) [OF made] in simp)
  show "ttbl db' = ttbl db \<or> (\<exists>t. ttbl db (rt_ID t) = None \<and> ttbl db' = (ttbl db)(rt_ID t \<mapsto> t) \<and> rt_FamilyID t \<noteq> '''' \<and> active t)"
    if made: "CreateUserWithRefreshToken a u (new_refresh uid h now) db = (db', x)"
  proof (cases x)
    case (Inl e)
    with CreateUserWithRefreshToken_Inl made show ?thesis by blast
  next
    case (Inr v)
    from CreateUserWithRefreshToken_Inr [OF made [unfolded Inr]] obtain t where t: "token_filled ((new_refresh uid h now)\<lparr>rt_UserID := u_ID v\<rparr>) t"
      "ttbl db (rt_ID t) = None" "ttbl db' = (ttbl db)(rt_ID t \<mapsto> t)" by blast
    have "rt_RevokedAt ((new_refresh uid h now)\<lparr>rt_UserID := u_ID v\<rparr>) = None" by simp
    with good [OF t(1)] t(2,3) show ?thesis by blast
  qed
qed

text \<open>One step: what it does to the table, to the rows in memory, and what a rotation and a revocation mean.\<close>

lemma rotation_change:
  assumes "RotateRefreshToken a old h clk db = (db', clk', Inr new)" and "old \<in> S" and "tok_ok ttbl (U, S, db)" and "rt_ID new \<notin> U"
  shows "tok_change U (insert (rt_ID new) U) (ttbl db) (ttbl db')
    \<and> \<not> spent (rt_ID old) U (ttbl db) \<and> spent (rt_ID old) (insert (rt_ID new) U) (ttbl db')"
proof -
  from rotation_rows [OF assms(1-3)] obtain r now where
    r: "ttbl db (rt_ID old) = Some r" "active r" "rt_FamilyID r = rt_FamilyID new" "rt_FamilyID new \<noteq> ''''" "rt_FamilyID new \<in> U" "rt_ID old \<in> U"
      "ttbl db' = (ttbl db)(rt_ID old \<mapsto> revoke_row now r, rt_ID new \<mapsto> new)" by blast
  have "rt_ID new \<noteq> rt_ID old" using r(6) assms(4) by auto
  then have "spent (rt_ID old) (insert (rt_ID new) U) (ttbl db')" "\<not> spent (rt_ID old) U (ttbl db)"
    using r(1,2,6) by (auto simp: spent_def r(7))
  moreover have "tok_change U (insert (rt_ID new) U) (ttbl db) (ttbl db')" using r(1-5) assms(4) unfolding tok_change_def r(7) by auto
  ultimately show ?thesis by blast
qed

lemma family_change:
  assumes "RevokeFamily a F now db = (db', None)" and "F \<in> U"
  shows "tok_change U U (ttbl db) (ttbl db') \<and> dead F U (ttbl db')"
proof -
  have eq: "ttbl db' k = map_option (\<lambda>t. if rt_FamilyID t = F \<and> rt_RevokedAt t = None then revoke_row now t else t) (ttbl db k)" for k
    using RevokeFamily_None [OF assms(1)] by simp
  have "tok_change U U (ttbl db) (ttbl db')" unfolding tok_change_def
    by (intro conjI allI impI subset_refl disjI1) (auto simp: eq split: if_splits)
  moreover have "\<not> active t" if t: "ttbl db' k = Some t" "rt_FamilyID t = F" for k t
  proof -
    obtain z where "t = (if rt_FamilyID z = F \<and> rt_RevokedAt z = None then revoke_row now z else z)" using t(1) unfolding eq by auto
    then show ?thesis using t(2) by (cases "rt_RevokedAt z") (auto simp: active_def split: if_splits)
  qed
  ultimately show ?thesis using assms(2) unfolding dead_def by blast
qed

lemma tok_step_change:
  assumes "tok_step a ttbl (U, S, db) ev (U', S', db')" and "tok_ok ttbl (U, S, db)"
  shows "tok_change U U' (ttbl db) (ttbl db')
    \<and> (S' = S \<or> (\<exists>t. S' = insert t S \<and> ttbl db (rt_ID t) = Some t \<and> ttbl db' = ttbl db))
    \<and> (\<forall>old new. ev = TkRotated old new \<longrightarrow> \<not> spent (rt_ID old) U (ttbl db) \<and> spent (rt_ID old) U' (ttbl db'))
    \<and> (\<forall>F. ev = TkFamily F True \<longrightarrow> dead F U' (ttbl db'))"
  using assms(1)
proof (cases rule: tok_step.cases)
  case (found h t)
  with FindRefreshTokenByHash_frame [of h db db'] FindRefreshTokenByHash_Inr [of h db db' t] show ?thesis
    by (auto simp: tok_change_same)
next
  case (not_found h e)
  with FindRefreshTokenByHash_frame [of h db db'] show ?thesis by (auto simp: tok_change_same)
next
  case (rotated old h clk clk' new)
  with rotation_change [OF rotated(5,4) assms(2) rotated(6)] show ?thesis by auto
next
  case (not_rotated old h clk clk' e)
  with RotateRefreshToken_Inl [of old h clk db db' clk' e] show ?thesis by (auto simp: tok_change_same)
next
  case (family stored now r)
  have "rt_FamilyID stored \<in> U" using assms(2) family(4) by (auto simp: tok_ok_def)
  with family family_change [of "rt_FamilyID stored" now db db' U] RevokeFamily_Some [of "rt_FamilyID stored" now db db'] show ?thesis
    by (cases r) (auto simp: tok_change_same)
next
  case (login uid h now r N)
  from tok_change_session [OF _ login(5,6)] session_row(1) [OF login(4)] login show ?thesis by auto
next
  case (signup u uid h now x N)
  from tok_change_session [OF _ signup(5,6)] session_row(2) [OF signup(4)] signup show ?thesis by auto
next
  case (user i y)
  with GetUserByID_frame [of i db db' y] show ?thesis by (auto simp: tok_change_same)
next
  case (sweep now)
  have "tok_change U U (ttbl db) (ttbl (clean a now db))" unfolding tok_change_def using clean_Some by blast
  with sweep show ?thesis by simp
qed

lemma tok_step_ok:
  assumes "tok_step a ttbl (U, S, db) ev (U', S', db')" and "tok_ok ttbl (U, S, db)"
  shows "tok_ok ttbl (U', S', db')"
proof -
  note step = tok_step_change [OF assms]
  have rows: "rt_ID t' = k \<and> k \<in> U' \<and> rt_FamilyID t' \<in> U' \<and> rt_FamilyID t' \<noteq> ''''" if "ttbl db' k = Some t'" for k t'
  proof -
    from step that consider t where "ttbl db k = Some t" "t' = t \<or> (\<exists>now. t' = revoke_row now t)"
      | "rt_ID t' = k" "k \<in> U'" "rt_FamilyID t' \<in> U'" "rt_FamilyID t' \<noteq> ''''" unfolding tok_change_def by metis
    then show ?thesis
    proof cases
      case (1 t)
      with assms(2) step show ?thesis unfolding tok_ok_def tok_change_def by auto
    qed simp
  qed
  have held: "rt_ID t \<in> U' \<and> rt_FamilyID t \<in> U' \<and> rt_FamilyID t \<noteq> '''' \<and> (\<forall>t'. ttbl db' (rt_ID t) = Some t' \<longrightarrow> rt_FamilyID t' = rt_FamilyID t)"
    if "t \<in> S'" for t
  proof (cases "t \<in> S")
    case True
    then have t: "rt_ID t \<in> U" "rt_FamilyID t \<in> U" "rt_FamilyID t \<noteq> ''''" "\<And>t'. ttbl db (rt_ID t) = Some t' \<Longrightarrow> rt_FamilyID t' = rt_FamilyID t"
      using assms(2) by (auto simp: tok_ok_def)
    have "rt_FamilyID t' = rt_FamilyID t" if "ttbl db' (rt_ID t) = Some t'" for t'
      using tok_change_old [OF conjunct1 [OF step] that t(1)] t(4) by auto
    moreover have "U \<subseteq> U'" using step unfolding tok_change_def by blast
    ultimately show ?thesis using t(1-3) by blast
  next
    case False
    from conjunct1 [OF conjunct2 [OF step]] False that have row: "ttbl db' (rt_ID t) = Some t" by (metis insertE)
    from rows [OF row] row show ?thesis by simp
  qed
  from rows held show ?thesis by (simp add: tok_ok_def)
qed

end

fun is_rotation_of :: "string \<Rightarrow> tok_event \<Rightarrow> bool" where
  "is_rotation_of i (TkRotated old new) = (rt_ID old = i)"
| "is_rotation_of i _ = False"

context auth_store
begin

lemma tok_run_facts:
  assumes "tok_run a ttbl s evs s'" and "tok_ok ttbl s"
  shows "tok_ok ttbl s' \<and> (\<forall>F. dead F (fst s) (ttbl (snd (snd s))) \<longrightarrow> dead F (fst s') (ttbl (snd (snd s'))))
    \<and> (\<forall>i. spent i (fst s) (ttbl (snd (snd s))) \<longrightarrow> filter (is_rotation_of i) evs = [])
    \<and> (\<forall>i. length (filter (is_rotation_of i) evs) \<le> 1)"
  using assms
proof (induction rule: tok_run.induct)
  case (run_cons s ev s1 evs s2)
  obtain U S db U1 S1 db1 where s: "s = (U, S, db)" and s1: "s1 = (U1, S1, db1)" by (cases s, cases s1)
  note step = run_cons.hyps(1) [unfolded s s1] and ok = run_cons.prems [unfolded s]
  note ch = tok_step_change [OF step ok]
  from run_cons.IH tok_step_ok [OF step ok] have IH: "tok_ok ttbl s2"
    "\<And>F. dead F U1 (ttbl db1) \<Longrightarrow> dead F (fst s2) (ttbl (snd (snd s2)))"
    "\<And>i. spent i U1 (ttbl db1) \<Longrightarrow> filter (is_rotation_of i) evs = []"
    "\<And>i. length (filter (is_rotation_of i) evs) \<le> 1" unfolding s1 by auto
  have rot: "\<not> spent i U (ttbl db) \<and> spent i U1 (ttbl db1)" if "is_rotation_of i ev" for i
    using that ch by (cases ev) auto
  have "filter (is_rotation_of i) (ev # evs) = []" if "spent i U (ttbl db)" for i
    using rot [of i] IH(3) [OF spent_change [OF conjunct1 [OF ch] that]] that by auto
  moreover have "length (filter (is_rotation_of i) (ev # evs)) \<le> 1" for i
    using rot [of i] IH(3) [of i] IH(4) [of i] by auto
  moreover have "dead F (fst s2) (ttbl (snd (snd s2)))" if "dead F U (ttbl db)" for F
    by (rule IH(2) [OF dead_change [OF conjunct1 [OF ch] that]])
  ultimately show ?case using IH(1) by (simp add: s)
qed simp

lemma tok_run_append:
  assumes "tok_run a ttbl s (evs1 @ evs2) s'"
  shows "\<exists>s1. tok_run a ttbl s evs1 s1 \<and> tok_run a ttbl s1 evs2 s'"
  using assms
proof (induction evs1 arbitrary: s)
  case (Cons ev evs1)
  from Cons.prems obtain s0 where step: "tok_step a ttbl s ev s0" and rest: "tok_run a ttbl s0 (evs1 @ evs2) s'"
    by (auto elim: tok_run_ConsE)
  from Cons.IH [OF rest] tok_run.run_cons [OF step] show ?case by metis
qed (auto intro: tok_run.run_nil)

lemma revoked_family_stays_dead:
  assumes "tok_run a ttbl s (evs1 @ TkFamily F True # evs2) (U', S', db')" and "tok_ok ttbl s"
  shows "dead F U' (ttbl db')"
proof -
  obtain s1 where r1: "tok_run a ttbl s evs1 s1" and r2: "tok_run a ttbl s1 (TkFamily F True # evs2) (U', S', db')"
    using tok_run_append [OF assms(1)] by blast
  obtain s2 where step: "tok_step a ttbl s1 (TkFamily F True) s2" and r3: "tok_run a ttbl s2 evs2 (U', S', db')"
    using r2 by (auto elim: tok_run_ConsE)
  obtain U1 S1 db1 U2 S2 db2 where s1: "s1 = (U1, S1, db1)" and s2: "s2 = (U2, S2, db2)" by (cases s1, cases s2)
  have ok: "tok_ok ttbl (U1, S1, db1)" using tok_run_facts [OF r1 assms(2)] s1 by simp
  have "dead F U2 (ttbl db2)" using tok_step_change [OF step [unfolded s1 s2] ok] by blast
  with tok_run_facts [OF r3 [unfolded s2] tok_step_ok [OF step [unfolded s1 s2] ok]] show ?thesis by simp
qed

end

section \<open>Properties\<close>

text \<open>
  C16. However the requests of all clients and the sweep interleave, a refresh token is exchanged at most once: of all attempts to rotate
  the same row, also of requests that read it before any of them rotated it, at most one succeeds.
\<close>

theorem token_rotated_at_most_once:
  assumes "auth_store a utbl ttbl" and "tok_ok ttbl s" and "tok_run a ttbl s evs s'"
  shows "length (filter (is_rotation_of i) evs) \<le> 1"
  using auth_store.tok_run_facts [OF assms(1,3,2)] by blast

definition held :: RefreshToken where
  "held = token_row ''t1'' ''f1'' ''d1'' None"

definition child :: RefreshToken where
  "child = fill_token 0 (rotated_token held ''d2'' 0)"

definition one_session :: mem_auth where
  "one_session = auth_mem [ann] [held]"

definition rotated_session :: mem_auth where
  "rotated_session = (auth_mem [ann] [revoke_row 0 held, child])\<lparr>ma_tokens := \<lparr>mem_rows = [revoke_row 0 held, child], mem_faults = [], mem_supply = 1\<rparr>\<rparr>"

lemmas lifecycle_eval = one_session_def rotated_session_def child_def held_def auth_mem_eval fill_token_def digests_distinct_def Let_def time_Now_def

lemma held_found: "FindRefreshTokenByHash mem_auth_db ''d1'' one_session = (one_session, Inr held)"
  by (simp add: FindRefreshTokenByHash_def lifecycle_eval)

lemma held_rotated: "RotateRefreshToken mem_auth_db held ''d2'' (sconst 0) one_session = (rotated_session, sconst 0, Inr child)"
  by (simp add: RotateRefreshToken_def rotate_tx_def lifecycle_eval revoke_row_def)

lemma held_again: "RotateRefreshToken mem_auth_db held ''d3'' (sconst 0) rotated_session = (rotated_session, sconst 0, Inl ErrRecordNotFound)"
  by (simp add: RotateRefreshToken_def rotate_tx_def lifecycle_eval revoke_row_def)

abbreviation mem_tokens_tbl :: "mem_auth \<Rightarrow> string \<Rightarrow> RefreshToken option" where
  "mem_tokens_tbl \<equiv> \<lambda>s. mem_tbl rt_ID (ma_tokens s)"

lemma one_session_ok: "tok_ok mem_tokens_tbl ({''t1'', ''f1''}, {}, one_session)"
  by (auto simp: tok_ok_def mem_tbl_def one_session_def auth_mem_def held_def split: if_splits)

lemma two_attempts:
  "\<exists>s'. tok_run mem_auth_db mem_tokens_tbl ({''t1'', ''f1''}, {}, one_session) [TkFound held, TkRotated held child, TkQuiet] s'"
proof -
  have 1: "tok_step mem_auth_db mem_tokens_tbl ({''t1'', ''f1''}, {}, one_session) (TkFound held) ({''t1'', ''f1''}, {held}, one_session)"
    by (rule tok_step.found [OF held_found])
  have "rt_ID child \<notin> {''t1'', ''f1''}" by (simp add: child_def fill_token_def)
  from tok_step.rotated [OF _ held_rotated this, of "{held}"]
  have 2: "tok_step mem_auth_db mem_tokens_tbl ({''t1'', ''f1''}, {held}, one_session) (TkRotated held child) (insert (rt_ID child) {''t1'', ''f1''}, {held}, rotated_session)"
    by simp
  from tok_step.not_rotated [OF _ held_again, of "{held}"]
  have 3: "tok_step mem_auth_db mem_tokens_tbl (insert (rt_ID child) {''t1'', ''f1''}, {held}, rotated_session) TkQuiet (insert (rt_ID child) {''t1'', ''f1''}, {held}, rotated_session)"
    by simp
  show ?thesis by (rule exI, rule tok_run.run_cons [OF 1], rule tok_run.run_cons [OF 2], rule tok_run.run_cons [OF 3], rule tok_run.run_nil)
qed

theorem token_rotated_at_most_once_witness:
  "(\<exists>s'. tok_run mem_auth_db mem_tokens_tbl ({''t1'', ''f1''}, {}, one_session) [TkFound held, TkRotated held child, TkQuiet] s')
   \<and> length (filter (is_rotation_of ''t1'') [TkFound held, TkRotated held child, TkQuiet]) \<le> 1"
proof -
  from two_attempts obtain s' where run: "tok_run mem_auth_db mem_tokens_tbl ({''t1'', ''f1''}, {}, one_session) [TkFound held, TkRotated held child, TkQuiet] s'" ..
  from token_rotated_at_most_once [OF mem_auth.auth_store_axioms one_session_ok run] run show ?thesis by blast
qed


definition ended_session :: mem_auth where
  "ended_session = auth_mem [ann] [revoke_row 5 held]"

lemma held_revoked: "RevokeFamily mem_auth_db (rt_FamilyID held) 5 one_session = (ended_session, None)"
  by (simp add: RevokeFamily_def lifecycle_eval ended_session_def revoke_row_def)

lemma held_ended: "RotateRefreshToken mem_auth_db held ''d2'' (sconst 6) ended_session = (ended_session, sconst 6, Inl ErrRecordNotFound)"
  by (simp add: RotateRefreshToken_def rotate_tx_def lifecycle_eval ended_session_def revoke_row_def)


end
