(* ===== verification/Session_Refinement.thy ===== *)
theory Session_Refinement
  imports Token_Lifecycle
begin

text \<open>
  What the refresh tokens are for, without the table: a registry of sessions, each with at most one token that can be exchanged. The
  registry is the abstract specification; the state machine of repository calls of \<open>Token_Lifecycle\<close> refines it, rotation by rotation and revocation by
  revocation, so what holds of the registry holds of the table.
\<close>

section \<open>The registry\<close>

text \<open>The sessions are pairs of a session and its current token; \<open>U\<close> are the identifiers used so far.\<close>

datatype sess_event = SQuiet | SExchange string string | SClose string

inductive sess_step :: "string set \<times> (string \<times> string) set \<Rightarrow> sess_event \<Rightarrow> string set \<times> (string \<times> string) set \<Rightarrow> bool" where
  idle: "sess_step (U, A) SQuiet (U, A)"
| start: "F \<notin> U \<Longrightarrow> k \<notin> U \<Longrightarrow> sess_step (U, A) SQuiet (U \<union> {k, F}, insert (F, k) A)"
| expire: "A' \<subseteq> A \<Longrightarrow> sess_step (U, A) SQuiet (U, A')"
| exchange: "(F, k) \<in> A \<Longrightarrow> k' \<notin> U \<Longrightarrow> sess_step (U, A) (SExchange k k') (insert k' U, insert (F, k') (A - {(F, k)}))"
| close: "sess_step (U, A) (SClose F) (U, {p \<in> A. fst p \<noteq> F})"

inductive_cases sess_stepE: "sess_step (U, A) ev (U', A')"

inductive sess_run :: "string set \<times> (string \<times> string) set \<Rightarrow> sess_event list \<Rightarrow> string set \<times> (string \<times> string) set \<Rightarrow> bool" where
  run_nil: "sess_run s [] s"
| run_cons: "sess_step s ev s1 \<Longrightarrow> sess_run s1 evs s2 \<Longrightarrow> sess_run s (ev # evs) s2"

definition sess_ok :: "string set \<times> (string \<times> string) set \<Rightarrow> bool" where
  "sess_ok s = (case s of (U, A) \<Rightarrow> single_valued A \<and> Domain A \<subseteq> U \<and> Range A \<subseteq> U)"

lemma sess_step_ok:
  assumes "sess_step s ev s'" and "sess_ok s"
  shows "sess_ok s'"
  using assms(1)
proof (cases rule: sess_step.cases)
  case (expire A' A U)
  with assms(2) single_valued_subset [of A' A] Domain_mono [of A' A] Range_mono [of A' A] show ?thesis
    unfolding sess_ok_def by (simp only: prod.case) (metis subset_trans)
qed (use assms(2) in \<open>auto simp: sess_ok_def single_valued_def\<close>)

lemma sess_run_ok: "sess_run s evs s' \<Longrightarrow> sess_ok s \<Longrightarrow> sess_ok s'"
  by (induction rule: sess_run.induct) (auto intro: sess_step_ok)

section \<open>The abstraction\<close>

definition live_sessions :: "(string \<Rightarrow> RefreshToken option) \<Rightarrow> (string \<times> string) set" where
  "live_sessions ts = {(rt_FamilyID t, k) | k t. ts k = Some t \<and> active t}"

fun abs_event :: "tok_event \<Rightarrow> sess_event" where
  "abs_event (TkRotated old new) = SExchange (rt_ID old) (rt_ID new)"
| "abs_event (TkFamily F True) = SClose F"
| "abs_event _ = SQuiet"

lemma in_live_sessions: "(F, k) \<in> live_sessions ts \<longleftrightarrow> (\<exists>t. ts k = Some t \<and> active t \<and> rt_FamilyID t = F)"
  unfolding live_sessions_def by auto

lemma live_sessions_add:
  assumes "ts k = None" and "active t"
  shows "live_sessions (ts(k \<mapsto> t)) = insert (rt_FamilyID t, k) (live_sessions ts)"
proof (rule set_eqI)
  fix p show "p \<in> live_sessions (ts(k \<mapsto> t)) \<longleftrightarrow> p \<in> insert (rt_FamilyID t, k) (live_sessions ts)"
    using assms by (cases p) (auto simp: in_live_sessions)
qed

lemma live_sessions_revoke:
  assumes "ts k = Some r"
  shows "live_sessions (ts(k \<mapsto> revoke_row now r)) = live_sessions ts - {(rt_FamilyID r, k)}"
proof (rule set_eqI)
  fix p show "p \<in> live_sessions (ts(k \<mapsto> revoke_row now r)) \<longleftrightarrow> p \<in> live_sessions ts - {(rt_FamilyID r, k)}"
    using assms by (cases p) (auto simp: in_live_sessions)
qed

lemma live_sessions_subset: "(\<And>k t. ts' k = Some t \<Longrightarrow> ts k = Some t) \<Longrightarrow> live_sessions ts' \<subseteq> live_sessions ts"
  unfolding live_sessions_def by blast

lemma live_sessions_close:
  "live_sessions (\<lambda>k. map_option (\<lambda>t. if rt_FamilyID t = F \<and> rt_RevokedAt t = None then revoke_row now t else t) (ts k)) =
     {p \<in> live_sessions ts. fst p \<noteq> F}" (is "live_sessions ?ts' = ?A")
proof (rule set_eqI)
  fix p :: "string \<times> string"
  obtain G k where p: "p = (G, k)" by (cases p)
  show "p \<in> live_sessions ?ts' \<longleftrightarrow> p \<in> ?A"
    unfolding p mem_Collect_eq in_live_sessions fst_conv
    by (cases "ts k"; cases "rt_RevokedAt (the (ts k))") (auto simp: active_def)
qed

text \<open>A session that is started: one active row with new identifiers, or nothing.\<close>

lemma started_refines:
  assumes "ts' = ts \<or> (\<exists>t. ts (rt_ID t) = None \<and> ts' = ts(rt_ID t \<mapsto> t) \<and> rt_FamilyID t \<noteq> '''' \<and> active t)"
    and "N = session_ids (new_rows ts ts')" and "N \<inter> U = {}"
  shows "sess_step (U, live_sessions ts) SQuiet (U \<union> N, live_sessions ts')"
proof (cases "ts' = ts")
  case True
  then have "N = {}" using assms(2) by (auto simp: session_ids_def new_rows_def)
  with True sess_step.idle show ?thesis by simp
next
  case False
  with assms(1) obtain t where t: "ts (rt_ID t) = None" "ts' = ts(rt_ID t \<mapsto> t)" "active t" by blast
  then have "new_rows ts ts' = {t}" by (auto simp: new_rows_def split: if_splits)
  then have N: "N = {rt_ID t, rt_FamilyID t}" using assms(2) by (auto simp: session_ids_def)
  with assms(3) have "rt_FamilyID t \<notin> U" "rt_ID t \<notin> U" by auto
  from sess_step.start [OF this, of "live_sessions ts"] show ?thesis
    unfolding N t(2) live_sessions_add [of ts "rt_ID t" t, OF t(1,3)] .
qed

text \<open>An exchange takes the old pair out and puts the new one in.\<close>

lemma rotated_refines:
  assumes "\<exists>r now. ts i = Some r \<and> active r \<and> rt_FamilyID r = rt_FamilyID new \<and> active new
     \<and> rt_FamilyID new \<noteq> '''' \<and> rt_FamilyID new \<in> U \<and> i \<in> U \<and> ts (rt_ID new) = None \<and> ts' = ts(i \<mapsto> revoke_row now r, rt_ID new \<mapsto> new)"
  shows "(rt_FamilyID new, i) \<in> live_sessions ts \<and> live_sessions ts' = insert (rt_FamilyID new, rt_ID new) (live_sessions ts - {(rt_FamilyID new, i)})"
proof -
  from assms obtain r now where r: "ts i = Some r" "active r" "rt_FamilyID r = rt_FamilyID new" "active new" "ts (rt_ID new) = None"
    "ts' = ts(i \<mapsto> revoke_row now r, rt_ID new \<mapsto> new)" by blast
  have "(ts(i \<mapsto> revoke_row now r)) (rt_ID new) = None" using r(1,5) by auto
  from live_sessions_add [of "ts(i \<mapsto> revoke_row now r)" "rt_ID new" new, OF this r(4)] live_sessions_revoke [of ts i r, OF r(1)] r
  show ?thesis by (simp add: in_live_sessions)
qed

context auth_store
begin

lemma tok_step_refines:
  assumes "tok_step a ttbl (U, S, db) ev (U', S', db')" and "tok_ok ttbl (U, S, db)"
  shows "sess_step (U, live_sessions (ttbl db)) (abs_event ev) (U', live_sessions (ttbl db'))"
  using assms(1)
proof (cases rule: tok_step.cases)
  case (found h t)
  with FindRefreshTokenByHash_frame [of h db db'] show ?thesis by (auto intro: sess_step.idle)
next
  case (not_found h e)
  with FindRefreshTokenByHash_frame [of h db db'] show ?thesis by (auto intro: sess_step.idle)
next
  case (rotated old h clk clk' new)
  from rotated_refines [OF rotation_rows [OF rotated(5,4) assms(2)]] sess_step.exchange [of _ "rt_ID old" _ "rt_ID new"] rotated show ?thesis by auto
next
  case (not_rotated old h clk clk' e)
  with RotateRefreshToken_Inl [of old h clk db db' clk' e] show ?thesis by (auto intro: sess_step.idle)
next
  case (family stored now r)
  show ?thesis
  proof (cases r)
    case None
    have "live_sessions (ttbl db') = {p \<in> live_sessions (ttbl db). fst p \<noteq> rt_FamilyID stored}"
      unfolding RevokeFamily_None [OF family(5) [unfolded None]] by (rule live_sessions_close)
    with family None show ?thesis by (simp add: sess_step.close)
  next
    case (Some e)
    with RevokeFamily_Some [of "rt_FamilyID stored" now db db' e] family show ?thesis by (simp add: sess_step.idle)
  qed
next
  case (login uid h now r N)
  from started_refines [OF session_row(1) [OF login(4)] login(5,6)] login show ?thesis by simp
next
  case (signup u uid h now x N)
  from started_refines [OF session_row(2) [OF signup(4)] signup(5,6)] signup show ?thesis by simp
next
  case (user i y)
  with GetUserByID_frame [of i db db' y] show ?thesis by (auto intro: sess_step.idle)
next
  case (sweep now)
  have "live_sessions (ttbl (clean a now db)) \<subseteq> live_sessions (ttbl db)" by (rule live_sessions_subset) (rule clean_Some)
  with sweep show ?thesis by (simp add: sess_step.expire)
qed

abbreviation abs_state :: "'db tok_state \<Rightarrow> string set \<times> (string \<times> string) set" where
  "abs_state s \<equiv> (fst s, live_sessions (ttbl (snd (snd s))))"

lemma tok_run_refines:
  assumes "tok_run a ttbl s evs s'" and "tok_ok ttbl s"
  shows "sess_run (abs_state s) (map abs_event evs) (abs_state s')"
  using assms
proof (induction rule: tok_run.induct)
  case (run_cons s ev s1 evs s2)
  obtain U S db U1 S1 db1 where s: "s = (U, S, db)" and s1: "s1 = (U1, S1, db1)" by (cases s, cases s1)
  note step = run_cons.hyps(1) [unfolded s s1] and ok = run_cons.prems [unfolded s]
  from run_cons.IH tok_step_ok [OF step ok] tok_step_refines [OF step ok] show ?case
    unfolding s s1 by (auto intro: sess_run.run_cons)
qed (simp add: sess_run.run_nil)

end

section \<open>Properties\<close>



end
