(* ===== verification/Job_Lifecycle.thy ===== *)
theory Job_Lifecycle
  imports Jobs_Service Worker
begin

text \<open>
  The life of job rows under concurrency. Requests, the reconciler and any number of workers interleave between their database calls, so the state
  machine takes one repository call per step. Its state is the set of jobs whose handler has marked them running, the set of rows that update requests have read and hold in
  memory, and the database. A worker writes a final state only after it has marked the job running; identifiers of new rows are new.
\<close>

section \<open>The state machine\<close>

type_synonym 'db job_sys = "string set \<times> Job set \<times> 'db"

datatype job_label = JbCall | JbUpdate

inductive job_step :: "('db, Job) gorm \<Rightarrow> 'db job_sys \<Rightarrow> job_label \<Rightarrow> 'db job_sys \<Rightarrow> bool"
  for g :: "('db, Job) gorm"
where
  create: "CreateJob g (job_of_request u req) db = (db', Inr j) \<Longrightarrow> \<not> too_many_retries (cr_MaxRetries req) \<Longrightarrow> j_ID j \<notin> R \<Longrightarrow>
    job_step g (R, S, db) JbCall (R, S, db')"
| create_failed: "CreateJob g job db = (db', Inl e) \<Longrightarrow> job_step g (R, S, db) JbCall (R, S, db')"
| create_many: "CreateJobs g (map (job_of_request u) reqs) db = (db', Inr js) \<Longrightarrow> \<not> list_ex (\<lambda>r. too_many_retries (cr_MaxRetries r)) reqs \<Longrightarrow>
    j_ID ` set js \<inter> R = {} \<Longrightarrow> job_step g (R, S, db) JbCall (R, S, db')"
| create_many_failed: "CreateJobs g jobs db = (db', Inl e) \<Longrightarrow> job_step g (R, S, db) JbCall (R, S, db')"
| read: "GetJobByID g i db = (db', Inr j) \<Longrightarrow> job_step g (R, S, db) JbCall (R, insert j S, db')"
| read_failed: "GetJobByID g i db = (db', Inl e) \<Longrightarrow> job_step g (R, S, db) JbCall (R, S, db')"
| read_all: "GetAllJobs g u db = (db', found) \<Longrightarrow> job_step g (R, S, db) JbCall (R, S, db')"
| read_stuck: "GetUnqueuedPendingJobs g t db = (db', stuck) \<Longrightarrow> job_step g (R, S, db) JbCall (R, S, db')"
| update: "held \<in> S \<Longrightarrow> \<not> too_many_retries (ur_MaxRetries req) \<Longrightarrow> UpdateJob g (j_ID held) (apply_update req held) db = (db', res) \<Longrightarrow>
    job_step g (R, S, db) JbUpdate (R, S, db')"
| delete: "DeleteJob g i db = (db', e1) \<Longrightarrow> job_step g (R, S, db) JbCall (R, S, db')"
| queued: "MarkQueued g i t db = (db', e2) \<Longrightarrow> job_step g (R, S, db) JbCall (R, S, db')"
| running: "MarkRunning g i wid t db = (db', None) \<Longrightarrow> job_step g (R, S, db) JbCall (insert i R, S, db')"
| running_failed: "MarkRunning g i wid t db = (db', Some e) \<Longrightarrow> job_step g (R, S, db) JbCall (R, S, db')"
| completed: "i \<in> R \<Longrightarrow> MarkCompleted g i t db = (db', e3) \<Longrightarrow> job_step g (R, S, db) JbCall (R, S, db')"
| failed: "i \<in> R \<Longrightarrow> MarkFailed g i msg t db = (db', e4) \<Longrightarrow> job_step g (R, S, db) JbCall (R, S, db')"

inductive job_run :: "('db, Job) gorm \<Rightarrow> 'db job_sys \<Rightarrow> job_label list \<Rightarrow> 'db job_sys \<Rightarrow> bool"
  for g :: "('db, Job) gorm"
where
  run_nil: "job_run g s [] s"
| run_cons: "job_step g s l s1 \<Longrightarrow> job_run g s1 ls s2 \<Longrightarrow> job_run g s (l # ls) s2"

section \<open>Well-formed rows\<close>

definition started :: "Job \<Rightarrow> bool" where
  "started r \<longleftrightarrow> j_StartedAt r \<noteq> None \<and> j_WorkerID r \<noteq> None \<and> 1 \<le> j_Attempts r"

definition row_ok :: "Job \<Rightarrow> bool" where
  "row_ok r \<longleftrightarrow> j_Status r \<in> {JobStatusPending, JobStatusRunning, JobStatusCompleted, JobStatusFailed}
     \<and> 0 \<le> j_Attempts r \<and> j_MaxRetries r \<noteq> 0 \<and> j_MaxRetries r \<le> 10 \<and> j_Priority r \<noteq> 0 \<and> j_Payload r \<noteq> None
     \<and> (j_Status r \<noteq> JobStatusPending \<longrightarrow> started r)
     \<and> (j_Status r \<in> {JobStatusCompleted, JobStatusFailed} \<longrightarrow> j_CompletedAt r \<noteq> None)
     \<and> (j_Status r = JobStatusFailed \<longrightarrow> j_ErrorMsg r \<noteq> None)"

text \<open>
  How a row may evolve: its owner stays, a deleted row does not change any more, stamps are never withdrawn; and when no update request writes, a job that has been started never goes
  back to pending.
\<close>

definition job_evolves :: "bool \<Rightarrow> Job \<Rightarrow> Job \<Rightarrow> bool" where
  "job_evolves quiet r r' \<longleftrightarrow> j_UserID r' = j_UserID r \<and> (\<not> job_live r \<longrightarrow> r' = r)
     \<and> (j_QueuedAt r \<noteq> None \<longrightarrow> j_QueuedAt r' \<noteq> None) \<and> (started r \<longrightarrow> started r')
     \<and> (quiet \<longrightarrow> j_Status r \<noteq> JobStatusPending \<longrightarrow> j_Status r' \<noteq> JobStatusPending)"

lemma job_evolves_refl [simp]: "job_evolves q r r"
  by (simp add: job_evolves_def)

lemma job_evolves_trans: "job_evolves q r r' \<Longrightarrow> job_evolves q' r' r'' \<Longrightarrow> job_evolves (q \<and> q') r r''"
  unfolding job_evolves_def by metis

definition rows_evolve :: "bool \<Rightarrow> (string \<Rightarrow> Job option) \<Rightarrow> (string \<Rightarrow> Job option) \<Rightarrow> bool" where
  "rows_evolve quiet ts ts' \<longleftrightarrow> (\<forall>k r. ts k = Some r \<longrightarrow> (\<exists>r'. ts' k = Some r' \<and> job_evolves quiet r r'))"

lemma rows_evolve_refl [simp]: "rows_evolve q ts ts"
  by (simp add: rows_evolve_def)

lemma rows_evolve_trans: "rows_evolve q ts ts1 \<Longrightarrow> rows_evolve q' ts1 ts2 \<Longrightarrow> rows_evolve (q \<and> q') ts ts2"
  unfolding rows_evolve_def by (meson job_evolves_trans)

definition sys_ok :: "('db \<Rightarrow> string \<Rightarrow> Job option) \<Rightarrow> 'db job_sys \<Rightarrow> bool" where
  "sys_ok tbl s = (case s of (R, S, db) \<Rightarrow>
     (\<forall>k r. tbl db k = Some r \<longrightarrow> row_ok r \<and> (k \<in> R \<longrightarrow> job_live r \<longrightarrow> started r))
   \<and> (\<forall>h\<in>S. row_ok h \<and> job_live h \<and> (\<exists>r. tbl db (j_ID h) = Some r \<and> j_UserID r = j_UserID h)))"

lemma tracked_ok:
  assumes "job_tracked r r'"
  shows "row_ok r' = row_ok r" "started r' = started r" "job_live r' = job_live r" "job_live r0 \<Longrightarrow> job_evolves q r0 r' = job_evolves q r0 r"
  using job_tracked_sel [OF assms] by (simp_all add: row_ok_def started_def job_evolves_def job_live_def)

section \<open>The assignments\<close>

lemmas row_facts = row_ok_def started_def job_evolves_def job_live_def job_constants

lemma queued_ok: "row_ok r \<Longrightarrow> job_live r \<Longrightarrow> row_ok (r\<lparr>j_QueuedAt := Some t\<rparr>) \<and> job_evolves True r (r\<lparr>j_QueuedAt := Some t\<rparr>)"
  by (simp add: row_facts)

lemma running_ok: "row_ok r \<Longrightarrow> job_live r \<Longrightarrow> row_ok (running_row wid t r) \<and> job_evolves True r (running_row wid t r) \<and> started (running_row wid t r)"
  by (simp add: row_facts running_row_def)

lemma completed_ok: "row_ok r \<Longrightarrow> job_live r \<Longrightarrow> started r \<Longrightarrow> row_ok (completed_row t r) \<and> job_evolves True r (completed_row t r)"
  by (simp add: row_facts completed_row_def)

lemma failed_ok: "row_ok r \<Longrightarrow> job_live r \<Longrightarrow> started r \<Longrightarrow> row_ok (failed_row msg t r) \<and> job_evolves True r (failed_row msg t r)"
  by (simp add: row_facts failed_row_def)

lemma nonzero_sel:
  "j_Status (job_nonzero_update n r) = nz '''' (j_Status n) (j_Status r)" "j_UserID (job_nonzero_update n r) = nz '''' (j_UserID n) (j_UserID r)"
  "j_WorkerID (job_nonzero_update n r) = nz None (j_WorkerID n) (j_WorkerID r)" "j_Attempts (job_nonzero_update n r) = nz 0 (j_Attempts n) (j_Attempts r)"
  "j_ErrorMsg (job_nonzero_update n r) = nz None (j_ErrorMsg n) (j_ErrorMsg r)" "j_StartedAt (job_nonzero_update n r) = nz None (j_StartedAt n) (j_StartedAt r)"
  "j_CompletedAt (job_nonzero_update n r) = nz None (j_CompletedAt n) (j_CompletedAt r)" "j_QueuedAt (job_nonzero_update n r) = nz None (j_QueuedAt n) (j_QueuedAt r)"
  "j_DeletedAt (job_nonzero_update n r) = nz None (j_DeletedAt n) (j_DeletedAt r)" "j_Payload (job_nonzero_update n r) = nz None (j_Payload n) (j_Payload r)"
  by (simp_all add: job_nonzero_update_def)

lemma apply_update_keeps:
  "j_WorkerID (apply_update q h) = j_WorkerID h" "j_Attempts (apply_update q h) = j_Attempts h" "j_ErrorMsg (apply_update q h) = j_ErrorMsg h"
  "j_StartedAt (apply_update q h) = j_StartedAt h" "j_CompletedAt (apply_update q h) = j_CompletedAt h"
  by (simp_all add: apply_update_def Let_def split: option.splits)

lemma nz_none [simp]: "nz None a b = None \<longleftrightarrow> a = None \<and> b = None"
  by (auto simp: nz_def)

lemma nz_cases: "P a \<Longrightarrow> P b \<Longrightarrow> P (nz z a b)"
  by (simp add: nz_def)

lemma nz_nonzero: "b \<noteq> z \<Longrightarrow> nz z a b \<noteq> z"
  by (simp add: nz_def)

text \<open>The limits after an update come from the request, the held copy or the row, and a zero never replaces a stored value.\<close>

lemma update_limits:
  assumes "row_ok r" and "row_ok h" and "\<not> too_many_retries (ur_MaxRetries req)"
  shows "let r' = job_nonzero_update (apply_update req h) r in j_MaxRetries r' \<noteq> 0 \<and> j_MaxRetries r' \<le> 10 \<and> j_Priority r' \<noteq> 0"
proof -
  have "j_MaxRetries (apply_update req h) \<le> 10"
    using assms(2,3) by (cases "ur_MaxRetries req") (simp_all add: too_many_retries_def row_ok_def)
  moreover have "j_MaxRetries r \<le> 10" "j_MaxRetries r \<noteq> 0" "j_Priority r \<noteq> 0" using assms(1) by (simp_all add: row_ok_def)
  ultimately show ?thesis by (simp add: Let_def nz_nonzero nz_cases [where P = "\<lambda>x. x \<le> 10"])
qed

lemma row_ok_status:
  assumes "row_ok r"
  shows "j_Status r \<noteq> ''''"
proof -
  have "j_Status r \<in> {JobStatusPending, JobStatusRunning, JobStatusCompleted, JobStatusFailed}" using assms by (simp only: row_ok_def)
  then show ?thesis by (auto simp: job_constants)
qed

lemma update_stamps:
  fixes req h r
  defines "r' \<equiv> job_nonzero_update (apply_update req h) r"
  assumes "row_ok h" and "row_ok r"
  shows "j_Status r' = j_Status h" "started h \<or> started r \<Longrightarrow> started r'" "0 \<le> j_Attempts r'"
    "j_CompletedAt h \<noteq> None \<Longrightarrow> j_CompletedAt r' \<noteq> None" "j_ErrorMsg h \<noteq> None \<Longrightarrow> j_ErrorMsg r' \<noteq> None"
    "j_QueuedAt r \<noteq> None \<Longrightarrow> j_QueuedAt r' \<noteq> None" "j_Payload r' \<noteq> None"
proof -
  have att: "0 \<le> j_Attempts h" "0 \<le> j_Attempts r" using assms(2,3) by (simp_all add: row_ok_def)
  from row_ok_status [OF assms(2)] show "j_Status r' = j_Status h" by (simp add: r'_def nonzero_sel nz_def)
  show "0 \<le> j_Attempts r'" using att by (simp add: r'_def nonzero_sel apply_update_keeps nz_cases)
  have "1 \<le> j_Attempts h \<or> 1 \<le> j_Attempts r \<Longrightarrow> 1 \<le> nz 0 (j_Attempts h) (j_Attempts r)" using att by (auto simp: nz_def)
  then show "started h \<or> started r \<Longrightarrow> started r'" unfolding started_def r'_def nonzero_sel apply_update_keeps nz_none by blast
qed (use assms(2,3) in \<open>simp_all add: r'_def nonzero_sel apply_update_keeps row_ok_def\<close>)

lemma update_ok:
  assumes "row_ok r" and "job_live r" and "row_ok h" and "job_live h" and "j_UserID r = j_UserID h" and "\<not> too_many_retries (ur_MaxRetries req)"
  shows "row_ok (job_nonzero_update (apply_update req h) r) \<and> job_evolves False r (job_nonzero_update (apply_update req h) r)"
proof -
  let ?r = "job_nonzero_update (apply_update req h) r"
  note stamps = update_stamps [OF assms(3,1), of req] and limits = update_limits [OF assms(1,3,6), unfolded Let_def]
  have "j_UserID ?r = j_UserID r" using assms(5) by (simp add: nonzero_sel nz_def)
  then have "job_evolves False r ?r" unfolding job_evolves_def using assms(2) stamps by blast
  moreover have "row_ok ?r"
    unfolding row_ok_def stamps(1)
  proof (intro conjI impI)
    show "j_Status h \<in> {JobStatusPending, JobStatusRunning, JobStatusCompleted, JobStatusFailed}" using assms(3) by (simp add: row_ok_def)
    show "started ?r" if "j_Status h \<noteq> JobStatusPending" using that assms(3) by (intro stamps(2)) (simp add: row_ok_def)
    show "j_CompletedAt ?r \<noteq> None" if "j_Status h \<in> {JobStatusCompleted, JobStatusFailed}"
      using that assms(3) unfolding row_ok_def by (intro stamps(4)) blast
    show "j_ErrorMsg ?r \<noteq> None" if "j_Status h = JobStatusFailed" using that assms(3) unfolding row_ok_def by (intro stamps(5)) blast
  qed (use limits stamps(3,7) in auto)
  ultimately show ?thesis by simp
qed

lemma created_ok:
  assumes "job_filled (job_of_request u req) j" and "\<not> too_many_retries (cr_MaxRetries req)"
  shows "row_ok j \<and> job_live j"
proof -
  note fresh = filled_fresh_row(1) [OF assms(1)]
  show ?thesis using fresh assms(2)
    by (auto simp: fresh_row_def row_ok_def too_many_retries_def job_constants split: option.splits)
qed

section \<open>The calls\<close>

text \<open>What a step does to the table: rows stay and evolve, new rows are well formed and not of a job in progress.\<close>

definition table_step :: "bool \<Rightarrow> string set \<Rightarrow> (string \<Rightarrow> Job option) \<Rightarrow> (string \<Rightarrow> Job option) \<Rightarrow> bool" where
  "table_step quiet R ts ts' \<longleftrightarrow>
     (\<forall>k r. ts k = Some r \<longrightarrow> (\<exists>r'. ts' k = Some r' \<and> row_ok r' \<and> job_evolves quiet r r'))
   \<and> (\<forall>k r'. ts k = None \<longrightarrow> ts' k = Some r' \<longrightarrow> row_ok r' \<and> k \<notin> R)"

lemma table_step_same: "\<forall>k r. ts k = Some r \<longrightarrow> row_ok r \<Longrightarrow> ts' = ts \<Longrightarrow> table_step q R ts ts'"
  by (auto simp: table_step_def)

context jobs_store
begin

lemma row_update:
  assumes "gorm_Updates g db (\<lambda>j. j_ID j = i) f = (db', res)" and "\<forall>k r. tbl db k = Some r \<longrightarrow> row_ok r"
    and "\<And>r. tbl db i = Some r \<Longrightarrow> job_live r \<Longrightarrow> j_ID (f r) = i \<and> row_ok (f r) \<and> job_evolves q r (f r)"
  shows "table_step q R (tbl db) (tbl db')"
  unfolding table_step_def
proof (intro conjI allI impI)
  fix k r assume r: "tbl db k = Some r"
  show "\<exists>r'. tbl db' k = Some r' \<and> row_ok r' \<and> job_evolves q r r'"
  proof (cases "k = i \<and> job_live r")
    case True
    note good = assms(3) [of r]
    from updates_cases [OF assms(1) r] good True r consider "tbl db' k = Some r" | r' where "tbl db' k = Some r'" "job_tracked (f r) r'" by auto
    then show ?thesis using assms(2) r True good tracked_ok [of "f r"] by cases auto
  next
    case False
    have "tbl db' k = tbl db k" by (rule updates_frame [OF assms(1)]) (use False r key_tbl in auto)
    then show ?thesis using r assms(2) by auto
  qed
next
  fix k r' assume "tbl db k = None" "tbl db' k = Some r'"
  moreover have "tbl db' k = tbl db k" if "tbl db k = None" by (rule updates_frame [OF assms(1)]) (use that in simp)
  ultimately show "row_ok r'" "k \<notin> R" by simp_all
qed

lemma row_delete:
  assumes "gorm_Delete g db (\<lambda>j. j_ID j = i) = (db', res)" and "\<forall>k r. tbl db k = Some r \<longrightarrow> row_ok r"
  shows "table_step q R (tbl db) (tbl db')"
  unfolding table_step_def
proof (intro conjI allI impI)
  fix k r assume r: "tbl db k = Some r"
  have "tbl db' k = Some r \<or> job_live r \<and> (\<exists>t. tbl db' k = Some (r\<lparr>j_DeletedAt := Some t\<rparr>))"
  proof (cases "job_live r \<and> j_ID r = i")
    case True
    show ?thesis
    proof (cases res)
      case (Inl e)
      with delete_Inl assms(1) r show ?thesis by simp
    next
      case (Inr n)
      from delete_hit [OF assms(1) [unfolded Inr] r] True show ?thesis by (auto simp: job_marked_def)
    qed
  next
    case False
    with delete_frame [OF assms(1), of k] r show ?thesis by auto
  qed
  then show "\<exists>r'. tbl db' k = Some r' \<and> row_ok r' \<and> job_evolves q r r'"
    using assms(2) r by (auto simp: row_ok_def started_def job_evolves_def)
next
  fix k r' assume "tbl db k = None" "tbl db' k = Some r'"
  moreover have "tbl db' k = tbl db k" if "tbl db k = None" by (rule delete_frame [OF assms(1)]) (use that in simp)
  ultimately show "row_ok r'" "k \<notin> R" by simp_all
qed

lemma row_create:
  assumes "gorm_Create g db rs = (db', Inr rs')" and "\<forall>k r. tbl db k = Some r \<longrightarrow> row_ok r"
    and "\<And>r. r \<in> set rs' \<Longrightarrow> row_ok r \<and> j_ID r \<notin> R"
  shows "table_step q R (tbl db) (tbl db')"
  unfolding table_step_def
proof (intro conjI allI impI)
  fix k r assume "tbl db k = Some r"
  with create_old [OF assms(1)] assms(2) show "\<exists>r'. tbl db' k = Some r' \<and> row_ok r' \<and> job_evolves q r r'" by auto
next
  fix k r' assume k: "tbl db k = None" "tbl db' k = Some r'"
  with create_other [OF assms(1), of k] obtain r where r: "r \<in> set rs'" "j_ID r = k" by force
  with create_new [OF assms(1) r(1)] k(2) assms(3) [OF r(1)] show "row_ok r'" "k \<notin> R" by auto
qed

text \<open>The table after one call, by the call.\<close>

lemma CreateJob_table:
  assumes "CreateJob g (job_of_request u req) db = (db', Inr j)" and "\<not> too_many_retries (cr_MaxRetries req)" and "j_ID j \<notin> R"
    and rows: "\<forall>k r. tbl db k = Some r \<longrightarrow> row_ok r"
  shows "table_step q R (tbl db) (tbl db')"
proof -
  obtain js where js: "gorm_Create g db [job_of_request u req] = (db', Inr js)"
    using assms(1) by (auto simp: CreateJob_def split: prod.splits sum.splits)
  with create_one [OF js] assms(1) have "js = [j]" "job_filled (job_of_request u req) j" by (auto simp: CreateJob_def)
  with created_ok [of u req j] assms(2,3) show ?thesis by (intro row_create [OF js rows]) auto
qed

lemma CreateJobs_table:
  assumes "CreateJobs g (map (job_of_request u) reqs) db = (db', Inr js)"
    and "\<not> list_ex (\<lambda>r. too_many_retries (cr_MaxRetries r)) reqs" and "j_ID ` set js \<inter> R = {}"
    and rows: "\<forall>k r. tbl db k = Some r \<longrightarrow> row_ok r"
  shows "table_step q R (tbl db) (tbl db')"
proof -
  have made: "gorm_Create g db (map (job_of_request u) reqs) = (db', Inr js)" using assms(1) by (simp add: CreateJobs_def)
  have "row_ok j" if "j \<in> set js" for j
  proof -
    from that obtain n where n: "n < length js" "js ! n = j" by (auto simp: in_set_conv_nth)
    with create_fresh(1) [OF made] have "job_filled (job_of_request u (reqs ! n)) j" "reqs ! n \<in> set reqs"
      by (auto simp: list_all2_conv_all_nth)
    with assms(2) created_ok [of u "reqs ! n" j] show ?thesis by (auto simp: list_ex_iff)
  qed
  with assms(3) show ?thesis by (intro row_create [OF made rows]) auto
qed

lemma UpdateJob_table:
  assumes "UpdateJob g (j_ID held) (apply_update req held) db = (db', res)" and "\<not> too_many_retries (ur_MaxRetries req)"
    and held: "row_ok held" "job_live held" "tbl db (j_ID held) = Some r0" "j_UserID r0 = j_UserID held"
    and rows: "\<forall>k r. tbl db k = Some r \<longrightarrow> row_ok r"
  shows "table_step False R (tbl db) (tbl db')"
proof -
  obtain n where "gorm_Updates g db (\<lambda>j. j_ID j = j_ID held) (job_nonzero_update (apply_update req held)) = (db', n)"
    using assms(1) by (auto simp: UpdateJob_def split: prod.splits sum.splits)
  then show ?thesis
  proof (rule row_update [OF _ rows], goal_cases)
    case (1 r)
    have "j_ID (job_nonzero_update (apply_update req held) r) = j_ID held" using key_tbl [OF 1(1)] by (simp add: nz_def)
    moreover have "row_ok r" "j_UserID r = j_UserID held" using 1(1) rows held(3,4) by auto
    ultimately show ?case using update_ok [OF _ 1(2) held(1,2) _ assms(2)] by simp
  qed
qed

lemma marks_table:
  assumes rows: "\<forall>k r. tbl db k = Some r \<longrightarrow> row_ok r"
  shows "DeleteJob g i db = (db', e) \<Longrightarrow> table_step q R (tbl db) (tbl db')"
    and "MarkQueued g i t db = (db', e) \<Longrightarrow> table_step True R (tbl db) (tbl db')"
    and "MarkRunning g i wid t db = (db', e) \<Longrightarrow> table_step True R (tbl db) (tbl db')"
proof -
  show "table_step q R (tbl db) (tbl db')" if "DeleteJob g i db = (db', e)"
    using that row_delete [OF _ rows] by (auto simp: DeleteJob_def elim!: gorm_errE)
  show "table_step True R (tbl db) (tbl db')" if "MarkQueued g i t db = (db', e)"
    using that row_update [OF _ rows, of i "\<lambda>j. j\<lparr>j_QueuedAt := Some t\<rparr>" db' _ True R] rows
    by (auto simp: MarkQueued_def queued_ok key_tbl elim!: gorm_errE)
  show "table_step True R (tbl db) (tbl db')" if "MarkRunning g i wid t db = (db', e)"
    using that row_update [OF _ rows, of i "running_row wid t" db' _ True R] rows
    by (auto simp: MarkRunning_def running_ok key_tbl elim!: gorm_errE)
qed

lemma finals_table:
  assumes rows: "\<forall>k r. tbl db k = Some r \<longrightarrow> row_ok r" and active: "\<And>r. tbl db i = Some r \<Longrightarrow> job_live r \<Longrightarrow> started r"
  shows "MarkCompleted g i t db = (db', e) \<Longrightarrow> table_step True R (tbl db) (tbl db')"
    and "MarkFailed g i msg t db = (db', e) \<Longrightarrow> table_step True R (tbl db) (tbl db')"
proof -
  show "table_step True R (tbl db) (tbl db')" if "MarkCompleted g i t db = (db', e)"
    using that row_update [OF _ rows, of i "completed_row t" db' _ True R] rows active
    by (auto simp: MarkCompleted_def completed_ok key_tbl elim!: gorm_errE)
  show "table_step True R (tbl db) (tbl db')" if "MarkFailed g i msg t db = (db', e)"
    using that row_update [OF _ rows, of i "failed_row msg t" db' _ True R] rows active
    by (auto simp: MarkFailed_def failed_ok key_tbl elim!: gorm_errE)
qed

lemma step_table:
  assumes "job_step g (R, S, db) l (R', S', db')" and "sys_ok tbl (R, S, db)"
  shows "table_step (l \<noteq> JbUpdate) R (tbl db) (tbl db')"
proof -
  have rows: "\<forall>k r. tbl db k = Some r \<longrightarrow> row_ok r" using assms(2) by (simp add: sys_ok_def)
  have active: "started r" if "tbl db k = Some r" "k \<in> R" "job_live r" for k r using assms(2) that by (auto simp: sys_ok_def)
  note same = table_step_same [OF rows]
  from assms(1) show ?thesis
  proof cases
    case (create_many_failed jobs e)
    then show ?thesis by (intro same create_Inl) (simp add: CreateJobs_def)
  next
    case (read_all u found)
    then show ?thesis by (intro same find_tbl) (simp add: GetAllJobs_def)
  next
    case (update held req res)
    then obtain r0 where "row_ok held" "job_live held" "tbl db (j_ID held) = Some r0" "j_UserID r0 = j_UserID held"
      using assms(2) by (auto simp: sys_ok_def)
    from UpdateJob_table [OF update(6,5) this rows] show ?thesis by (simp add: update(1))
  next
    case (completed i t e)
    with finals_table(1) [OF rows active] show ?thesis by simp
  next
    case (failed i msg t e)
    with finals_table(2) [OF rows active] show ?thesis by simp
  qed (use rows in \<open>simp_all add: CreateJob_table CreateJobs_table marks_table same CreateJob_Inl GetJobByID_frame GetUnqueuedPendingJobs_frame\<close>)
qed

text \<open>The invariant and the evolution of the rows along a step and along a run.\<close>

lemma table_step_sys:
  assumes "sys_ok tbl (R, S, db)" and "table_step q R (tbl db) (tbl db')"
  shows "sys_ok tbl (R, S, db')"
proof -
  have "row_ok r' \<and> (k \<in> R \<longrightarrow> job_live r' \<longrightarrow> started r')" if r': "tbl db' k = Some r'" for k r'
  proof (cases "tbl db k")
    case None
    with assms(2) r' show ?thesis unfolding table_step_def by blast
  next
    case (Some r)
    with assms(2) r' have "row_ok r'" "job_evolves q r r'" unfolding table_step_def by fastforce+
    moreover have "k \<in> R \<Longrightarrow> job_live r \<Longrightarrow> started r" using assms(1) Some unfolding sys_ok_def by blast
    ultimately show ?thesis unfolding job_evolves_def by blast
  qed
  moreover have "\<exists>r'. tbl db' (j_ID h) = Some r' \<and> j_UserID r' = j_UserID h" if "h \<in> S" for h
    using assms that unfolding sys_ok_def table_step_def job_evolves_def by fastforce
  moreover have "\<forall>h\<in>S. row_ok h \<and> job_live h" using assms(1) by (simp add: sys_ok_def)
  ultimately show ?thesis by (simp add: sys_ok_def)
qed

lemma MarkRunning_active:
  assumes "MarkRunning g i wid t db = (db', None)" and "\<forall>k r. tbl db k = Some r \<longrightarrow> row_ok r" and "tbl db' i = Some r'" and "job_live r'"
  shows "started r'"
proof -
  obtain n where upd: "gorm_Updates g db (\<lambda>j. j_ID j = i) (running_row wid t) = (db', Inr n)"
    using assms(1) by (auto simp: MarkRunning_def elim!: gorm_errE)
  with updates_None assms(3) obtain r where r: "tbl db i = Some r" by (metis not_None_eq)
  have live: "job_live r" using updates_miss [OF upd r] assms(3,4) by auto
  from updates_hit [OF upd r live] key_tbl [OF r] assms(3) have "job_tracked (running_row wid t r) r'" by auto
  with tracked_ok(2) running_ok [OF _ live] assms(2) r show ?thesis by blast
qed

lemma step_ok:
  assumes "job_step g (R, S, db) l (R', S', db')" and "sys_ok tbl (R, S, db)"
  shows "sys_ok tbl (R', S', db')"
proof -
  note kept = table_step_sys [OF assms(2) step_table [OF assms]]
  from assms(1) show ?thesis
  proof cases
    case (read i j)
    with GetJobByID_Inr [OF read(4)] GetJobByID_frame [OF read(4)] assms(2) show ?thesis by (auto simp: sys_ok_def)
  next
    case (running i wid t)
    have "\<forall>k r. tbl db k = Some r \<longrightarrow> row_ok r" using assms(2) by (simp add: sys_ok_def)
    with MarkRunning_active [OF running(4)] kept running(2,3) show ?thesis by (auto simp: sys_ok_def)
  qed (use kept in simp_all)
qed

lemma run_ok:
  "job_run g s ls s' \<Longrightarrow> sys_ok tbl s \<Longrightarrow>
     sys_ok tbl s' \<and> rows_evolve (JbUpdate \<notin> set ls) (tbl (snd (snd s))) (tbl (snd (snd s')))"
proof (induction rule: job_run.induct)
  case (run_cons s l s1 ls s2)
  obtain R S db R1 S1 db1 where eq: "s = (R, S, db)" "s1 = (R1, S1, db1)" by (cases s, cases s1)
  have "rows_evolve (l \<noteq> JbUpdate) (tbl db) (tbl db1)"
    using step_table [of R S db l R1 S1 db1] run_cons eq unfolding table_step_def rows_evolve_def by blast
  moreover have "sys_ok tbl s1" using step_ok [of R S db l R1 S1 db1] run_cons eq by simp
  ultimately have "sys_ok tbl s2 \<and> rows_evolve (l \<noteq> JbUpdate \<and> JbUpdate \<notin> set ls) (tbl db) (tbl (snd (snd s2)))"
    using run_cons.IH rows_evolve_trans [of "l \<noteq> JbUpdate" "tbl db" "tbl db1"] eq(2) by simp
  moreover have "JbUpdate \<notin> set (l # ls) \<longleftrightarrow> l \<noteq> JbUpdate \<and> JbUpdate \<notin> set ls" by auto
  ultimately show ?case by (simp only: eq(1) snd_conv)
qed simp

end
section \<open>Properties\<close>

text \<open>
  C7. Job rows stay well formed however the calls of requests, the reconciler and the workers interleave: starting from well-formed rows, every row of the table has one
  of the four states, a non-negative number of attempts, a retry limit that is not zero and at most ten, a priority, a payload; a row that is not pending has a start time, a worker and at least one
  attempt; a completed or failed one has a completion time, a failed one its message. No row disappears, its owner stays, a deleted row is frozen and stamps are never withdrawn; as long as no update
  request writes, a job that left pending never goes back to it.
\<close>

theorem job_rows_well_typed:
  assumes "jobs_store g tbl" and "\<forall>k r. tbl db k = Some r \<longrightarrow> row_ok r" and "job_run g ({}, {}, db) ls (R, S, db')"
  shows "(\<forall>k r. tbl db' k = Some r \<longrightarrow> row_ok r)
    \<and> (\<forall>k r. tbl db k = Some r \<longrightarrow> (\<exists>r'. tbl db' k = Some r' \<and> job_evolves (JbUpdate \<notin> set ls) r r'))"
proof -
  have "sys_ok tbl ({}, {}, db)" using assms(2) by (simp add: sys_ok_def)
  from jobs_store.run_ok [OF assms(1,3) this] show ?thesis by (simp add: sys_ok_def rows_evolve_def)
qed

definition ready_row :: Job where
  "ready_row = (queued_row ''j1'')\<lparr>j_Payload := Some ''{}'', j_Priority := 5, j_MaxRetries := 3\<rparr>"

definition ready_db :: "Job mem_db" where
  "ready_db = \<lparr>mem_rows = [ready_row], mem_faults = [], mem_supply = 0\<rparr>"

lemma ready_ok: "\<forall>k r. mem_tbl j_ID ready_db k = Some r \<longrightarrow> row_ok r"
  by (auto simp: ready_db_def mem_tbl_def ready_row_def queued_row_def zeroJob_def row_ok_def job_constants split: if_splits)

definition ended_db :: "Job mem_db" where
  "ended_db = ready_db\<lparr>mem_rows := [completed_row 6 (running_row ''w'' 5 ready_row)]\<rparr>"

lemma ready_run: "job_run mem_jobs ({}, {}, ready_db) [JbCall, JbCall] ({''j1''}, {}, ended_db)"
proof -
  let ?mid = "ready_db\<lparr>mem_rows := [running_row ''w'' 5 ready_row]\<rparr>"
  have 1: "MarkRunning mem_jobs ''j1'' ''w'' 5 ready_db = (?mid, None)" and 2: "MarkCompleted mem_jobs ''j1'' 6 ?mid = (ended_db, None)"
    by (simp_all add: worker_eval ready_db_def ready_row_def ended_db_def gorm_err_def)
  show ?thesis
    by (rule job_run.run_cons [OF job_step.running [OF 1]], rule job_run.run_cons [OF job_step.completed [OF _ 2]]) (simp_all add: job_run.run_nil)
qed

theorem job_rows_well_typed_witness:
  "job_run mem_jobs ({}, {}, ready_db) [JbCall, JbCall] ({''j1''}, {}, ended_db)
   \<and> row_ok (completed_row 6 (running_row ''w'' 5 ready_row))"
proof -
  have "mem_tbl j_ID ended_db ''j1'' = Some (completed_row 6 (running_row ''w'' 5 ready_row))"
    by (simp add: ended_db_def mem_tbl_def ready_db_def ready_row_def queued_row_def zeroJob_def completed_row_def running_row_def)
  with ready_run job_rows_well_typed [OF mem_jobs.jobs_store_axioms ready_ok ready_run] show ?thesis by blast
qed

text \<open>
  C21. An update request reads the row, changes the copy and writes the whole copy back, status included. When a worker runs the job to its end in between, the write
  takes the job back to pending: the row then says pending although it has a completion time, an attempt and its worker, and since it is marked as queued no reconciler sweep ever picks it up.
\<close>

theorem concurrent_update_reverts_completion:
  assumes "worker_env w tbl published" and "wk_unmarshal w body = Inr m" and "known_type (m_Type m)"
    and "GetJobByID (wk_repo w) (m_ID m) db = (ws_db st, Inr held)" and "j_Status held = JobStatusPending" and "j_Attempts held = 0" and "j_QueuedAt held \<noteq> None"
    and "handleJob w body st = (st', None)"
    and "UpdateJob (wk_repo w) (m_ID m) (apply_update req held) (ws_db st') = (db', Inr j)"
  shows "(\<exists>r. tbl (ws_db st') (m_ID m) = Some r \<and> j_Status r = final_status (m_Type m))
    \<and> (\<exists>r'. tbl db' (m_ID m) = Some r' \<and> j_Status r' = JobStatusPending \<and> j_CompletedAt r' \<noteq> None \<and> j_Attempts r' = 1
          \<and> j_WorkerID r' \<noteq> None \<and> (\<forall>t. \<not> unqueued_pending t r'))"
proof -
  from assms(1) have store: "jobs_store (wk_repo w) tbl" by (simp add: worker_env_def)
  note found = jobs_store.GetJobByID_Inr [OF store assms(4)]
  have row: "tbl (ws_db st) (m_ID m) = Some held" "job_live held"
    using found jobs_store.GetJobByID_frame [OF store assms(4)] by auto
  from worker_env.handleJob_done(2) [OF assms(1,2,3,8) row] obtain r
    where r: "tbl (ws_db st') (m_ID m) = Some r" "was_finished (wk_workerID w) (m_Type m) held r" by blast
  note fin = was_finished_sel [OF r(2)]
  have "job_live r" using fin(5) row(2) by (simp add: job_live_def)
  with jobs_store.UpdateJob_Inr [OF store assms(9) r(1)] found obtain r'
    where r': "tbl db' (m_ID m) = Some r'" "job_tracked (job_nonzero_update (apply_update req held) r) r'" by auto
  note sel = job_tracked_sel [OF r'(2)]
  have "j_Status r' = JobStatusPending" "j_CompletedAt r' \<noteq> None" "j_Attempts r' = 1" "j_WorkerID r' \<noteq> None" "j_QueuedAt r' \<noteq> None"
    using fin assms(5-7) by (auto simp: sel nonzero_sel apply_update_keeps nz_def job_constants)
  with r(1) fin(1) r'(1) show ?thesis by (auto simp: unqueued_pending_def)
qed

definition raise_request :: UpdateJobRequest where
  "raise_request = \<lparr>ur_UserID = ''ann'', ur_Type = '''', ur_Payload = None, ur_Priority = Some 1, ur_MaxRetries = None, ur_ScheduledAt = None\<rparr>"

theorem concurrent_update_reverts_completion_witness:
  "\<exists>r'. mem_tbl j_ID (fst (UpdateJob mem_jobs ''j1'' (apply_update raise_request (queued_row ''j1''))
       (ws_db (fst (handleJob (mem_worker JobEmail) ''j1'' (mem_ws [queued_row ''j1''] [])))))) ''j1'' = Some r'
     \<and> j_Status r' = JobStatusPending \<and> j_CompletedAt r' \<noteq> None"
proof -
  let ?st = "mem_ws [queued_row ''j1''] []" and ?m = "projr (wk_unmarshal (mem_worker JobEmail) ''j1'')"
  obtain st' where run: "handleJob (mem_worker JobEmail) ''j1'' ?st = (st', None)" and rows: "mem_faults (ws_db st') = []"
    by (simp add: worker_eval job_constants)
  have read: "GetJobByID mem_jobs ''j1'' (ws_db ?st) = (ws_db ?st, Inr (queued_row ''j1''))"
    by (simp add: GetJobByID_def worker_eval)
  obtain db' j where upd: "UpdateJob mem_jobs ''j1'' (apply_update raise_request (queued_row ''j1'')) (ws_db st') = (db', Inr j)"
    using rows by (simp add: UpdateJob_def mem_jobs_def mem_defs Let_def list_all_iff queued_row_def zeroJob_def nz_def)
  have fresh: "j_Status (queued_row ''j1'') = JobStatusPending" "j_Attempts (queued_row ''j1'') = 0" "j_QueuedAt (queued_row ''j1'') \<noteq> None"
    by (simp_all add: queued_row_def zeroJob_def)
  note reverted = concurrent_update_reverts_completion [OF mem_worker.worker_env_axioms mem_worker_sel(3), of "''j1''" JobEmail "ws_db ?st" ?st "queued_row ''j1''" st' raise_request db' j]
  show ?thesis using reverted read fresh run upd by (auto simp: known_type_def)
qed

end
