(* ===== verification/Job_Board.thy ===== *)
theory Job_Board
  imports Job_Lifecycle
begin

text \<open>
  What the table of jobs is for its users: a board of entries, each with its owner and its phase. The abstract machine posts, starts, ends, edits and removes entries;
  the repository calls of \<^verbatim>\<open>internal/jobs\<close> and \<^verbatim>\<open>internal/worker\<close>, interleaved as in \<open>Job_Lifecycle\<close>, refine it.
\<close>

section \<open>The abstract machine\<close>

datatype phase = Waiting | Active | Ended bool | Removed

type_synonym board = "string \<Rightarrow> (string \<times> phase) option"
type_synonym board_state = "string set \<times> (string \<times> phase) set \<times> board"

text \<open>An entry that is still on the board changes its phase; its owner stays.\<close>

definition move :: "string \<Rightarrow> phase \<Rightarrow> board \<Rightarrow> board" where
  "move k p b = (case b k of Some (u, q) \<Rightarrow> if q = Removed then b else b(k \<mapsto> (u, p)) | None \<Rightarrow> b)"

text \<open>
  The state holds the jobs that a worker has started and the phases that update requests have read. An update puts back the phase it has read, which is the one weakness of the
  protocol that the board makes visible.
\<close>

inductive board_step :: "board_state \<Rightarrow> job_label \<Rightarrow> board_state \<Rightarrow> bool" where
  post: "(\<And>k. new k \<noteq> None \<Longrightarrow> b k = None \<and> k \<notin> R) \<Longrightarrow> ran new \<subseteq> {(u, Waiting)} \<Longrightarrow> board_step (R, H, b) JbCall (R, H, b ++ new)"
| look: "b k = Some (u, p) \<Longrightarrow> p \<noteq> Removed \<Longrightarrow> board_step (R, H, b) JbCall (R, insert (k, p) H, b)"
| begin_work: "board_step (R, H, b) JbCall (insert k R, H, move k Active b)"
| end_work: "k \<in> R \<Longrightarrow> board_step (R, H, b) JbCall (R, H, move k (Ended ok) b)"
| remove: "board_step (R, H, b) JbCall (R, H, move k Removed b)"
| edit: "(k, p) \<in> H \<Longrightarrow> board_step (R, H, b) JbUpdate (R, H, move k p b)"
| idle: "board_step (R, H, b) l (R, H, b)"

inductive board_run :: "board_state \<Rightarrow> job_label list \<Rightarrow> board_state \<Rightarrow> bool" where
  run_nil: "board_run s [] s"
| run_cons: "board_step s l s1 \<Longrightarrow> board_run s1 ls s2 \<Longrightarrow> board_run s (l # ls) s2"

text \<open>What the abstract machine guarantees: work ends only on jobs that were started, a removed entry is gone, and without edits no job waits a second time.\<close>

definition board_ok :: "board_state \<Rightarrow> bool" where
  "board_ok s = (case s of (R, H, b) \<Rightarrow>
     (\<forall>k u p. b k = Some (u, p) \<longrightarrow> p = Active \<or> (\<exists>ok. p = Ended ok) \<longrightarrow> k \<in> R)
   \<and> (\<forall>k p. (k, p) \<in> H \<longrightarrow> p \<noteq> Removed \<and> (p \<noteq> Waiting \<longrightarrow> k \<in> R)))"

definition entry_evolves :: "bool \<Rightarrow> string \<times> phase \<Rightarrow> string \<times> phase \<Rightarrow> bool" where
  "entry_evolves quiet e e' \<longleftrightarrow> fst e' = fst e \<and> (snd e = Removed \<longrightarrow> e' = e) \<and> (quiet \<longrightarrow> snd e \<noteq> Waiting \<longrightarrow> snd e' \<noteq> Waiting)"

lemma entry_evolves_refl [simp]: "entry_evolves q e e"
  by (simp add: entry_evolves_def)

lemma move_apply: "move k p b x = (if x = k then map_option (\<lambda>(u, q). (u, if q = Removed then q else p)) (b k) else b x)"
  by (cases "b k") (auto simp: move_def)

lemma move_evolves:
  "b x = Some e \<Longrightarrow> p \<noteq> Waiting \<or> \<not> quiet \<Longrightarrow> \<exists>e'. move k p b x = Some e' \<and> entry_evolves quiet e e'"
  by (cases e; cases "x = k"; cases "snd e = Removed") (auto simp: move_apply entry_evolves_def)

lemma move_ok: "board_ok (R, H, b) \<Longrightarrow> p \<in> {Waiting, Removed} \<or> k \<in> R \<Longrightarrow> board_ok (R, H, move k p b)"
  by (auto simp: board_ok_def move_apply split: if_splits)

lemma board_step_ok: "board_step (R, H, b) l (R', H', b') \<Longrightarrow> board_ok (R, H, b) \<Longrightarrow> board_ok (R', H', b')"
proof (induction "(R, H, b)" l "(R', H', b')" rule: board_step.induct)
  case (post new u)
  then show ?case by (auto simp: board_ok_def map_add_Some_iff ran_def)
next
  case (begin_work k)
  then have "board_ok (insert k R, H, b)" by (auto simp: board_ok_def)
  from move_ok [OF this, of Active k] begin_work show ?case by auto
next
  case (look k u p)
  then have "p \<noteq> Waiting \<Longrightarrow> k \<in> R" by (cases p) (auto simp: board_ok_def)
  with look.prems look.hyps(2) have "board_ok (R, insert (k, p) H, b)" by (simp add: board_ok_def)
  with look show ?case by simp
next
  case (edit k p)
  then have "p \<in> {Waiting, Removed} \<or> k \<in> R" by (auto simp: board_ok_def)
  from move_ok [OF edit.prems this] edit show ?case by simp
qed (auto intro: move_ok)

lemma board_step_evolves:
  "board_step (R, H, b) l (R', H', b') \<Longrightarrow> b k = Some e \<Longrightarrow> \<exists>e'. b' k = Some e' \<and> entry_evolves (l \<noteq> JbUpdate) e e'"
proof (induction "(R, H, b)" l "(R', H', b')" rule: board_step.induct)
  case (post new u)
  then have "new k = None" by (metis option.distinct(1))
  with post.prems have "(b ++ new) k = Some e" by (simp add: map_add_def)
  with post show ?case by (simp add: entry_evolves_def)
qed (auto simp del: split_paired_Ex intro: move_evolves)

lemma board_run_ok: "board_run s ls s' \<Longrightarrow> board_ok s \<Longrightarrow> board_ok s'"
proof (induction rule: board_run.induct)
  case (run_cons s l s1 ls s2)
  obtain R H b R1 H1 b1 where "s = (R, H, b)" "s1 = (R1, H1, b1)" by (metis prod_cases3)
  with run_cons board_step_ok [of R H b l R1 H1 b1] show ?case by simp
qed

lemma board_run_evolves:
  "board_run s ls s' \<Longrightarrow> snd (snd s) k = Some e \<Longrightarrow> \<exists>e'. snd (snd s') k = Some e' \<and> entry_evolves (JbUpdate \<notin> set ls) e e'"
proof (induction arbitrary: e rule: board_run.induct)
  case (run_cons s l s1 ls s2)
  obtain R H b R1 H1 b1 where "s = (R, H, b)" "s1 = (R1, H1, b1)" by (metis prod_cases3)
  with run_cons.hyps(1) run_cons.prems board_step_evolves [of R H b l R1 H1 b1 k e]
  obtain e1 where e1: "snd (snd s1) k = Some e1" "entry_evolves (l \<noteq> JbUpdate) e e1" by auto
  from run_cons.IH [OF e1(1)] e1(2) show ?case by (fastforce simp: entry_evolves_def)
qed simp

section \<open>The abstraction\<close>

definition phase_of :: "Job \<Rightarrow> phase" where
  "phase_of r = (if \<not> job_live r then Removed else if j_Status r = JobStatusPending then Waiting
     else if j_Status r = JobStatusRunning then Active else Ended (j_Status r = JobStatusCompleted))"

definition entry :: "Job \<Rightarrow> string \<times> phase" where
  "entry r = (j_UserID r, phase_of r)"

definition board_of :: "(string \<Rightarrow> Job option) \<Rightarrow> board" where
  "board_of ts = (\<lambda>k. map_option entry (ts k))"

definition abs_sys :: "('db \<Rightarrow> string \<Rightarrow> Job option) \<Rightarrow> 'db job_sys \<Rightarrow> board_state" where
  "abs_sys tbl s = (case s of (R, S, db) \<Rightarrow> (R, (\<lambda>h. (j_ID h, phase_of h)) ` S, board_of (tbl db)))"

lemma phase_live: "phase_of r = Removed \<longleftrightarrow> \<not> job_live r"
  by (simp add: phase_of_def)

lemma entry_tracked: "job_tracked r r' \<Longrightarrow> entry r' = entry r"
  by (simp add: entry_def phase_of_def job_live_def job_tracked_sel)

lemma board_of_same: "(\<And>k. k \<noteq> i \<Longrightarrow> ts' k = ts k) \<Longrightarrow> ts' i = ts i \<Longrightarrow> board_of ts' = board_of ts"
  by (rule ext) (metis board_of_def)

lemma board_of_move:
  assumes "\<And>k. k \<noteq> i \<Longrightarrow> ts' k = ts k" and "ts i = Some r" and "job_live r" and "ts' i = Some r'" and "entry r' = (j_UserID r, p)"
  shows "board_of ts' = move i p (board_of ts)"
proof
  fix k show "board_of ts' k = move i p (board_of ts) k"
    using assms by (cases "k = i") (auto simp: board_of_def move_apply entry_def phase_live)
qed

lemma move_dead: "(\<And>r. ts i = Some r \<Longrightarrow> \<not> job_live r) \<Longrightarrow> move i p (board_of ts) = board_of ts"
  by (cases "ts i") (auto simp: move_def board_of_def entry_def phase_live)

text \<open>The assignments move an entry to its new phase.\<close>

lemma entry_moves:
  assumes "job_live r"
  shows "entry (r\<lparr>j_QueuedAt := q\<rparr>) = entry r" "entry (running_row wid t r) = (j_UserID r, Active)"
    "entry (completed_row t r) = (j_UserID r, Ended True)" "entry (failed_row msg t r) = (j_UserID r, Ended False)"
    "entry (r\<lparr>j_DeletedAt := Some t\<rparr>) = (j_UserID r, Removed)"
  using assms by (simp_all add: entry_def phase_of_def job_live_def running_row_def completed_row_def failed_row_def job_constants)

lemma entry_update:
  assumes "row_ok h" and "row_ok r" and "job_live h" and "job_live r" and "j_UserID r = j_UserID h"
  shows "entry (job_nonzero_update (apply_update req h) r) = (j_UserID r, phase_of h)"
proof -
  let ?r = "job_nonzero_update (apply_update req h) r"
  have "j_UserID ?r = j_UserID r" "job_live ?r" using assms(3-5) by (simp_all add: nonzero_sel nz_def job_live_def)
  with update_stamps(1) [OF assms(1,2), of req] assms(3) show ?thesis by (simp add: entry_def phase_of_def)
qed

section \<open>The refinement\<close>

context jobs_store
begin

lemma updates_board:
  assumes "gorm_err (gorm_Updates g db (\<lambda>j. j_ID j = i) f) = (db', e)"
    and "\<And>r. tbl db i = Some r \<Longrightarrow> job_live r \<Longrightarrow> j_ID (f r) = i \<and> entry (f r) = (j_UserID r, p)"
  shows "board_of (tbl db') = board_of (tbl db) \<or> board_of (tbl db') = move i p (board_of (tbl db))"
    and "e = None \<Longrightarrow> board_of (tbl db') = move i p (board_of (tbl db))"
proof -
  obtain res where upd: "gorm_Updates g db (\<lambda>j. j_ID j = i) f = (db', res)" and e: "e = None \<longleftrightarrow> (\<exists>n. res = Inr n)"
    using assms(1) by (auto elim!: gorm_errE)
  have other: "tbl db' k = tbl db k" if "k \<noteq> i" for k
    by (rule updates_frame [OF upd]) (use that key_tbl in auto)
  have dead: "board_of (tbl db') = move i p (board_of (tbl db)) \<and> board_of (tbl db') = board_of (tbl db)"
    if none: "\<And>r. tbl db i = Some r \<Longrightarrow> \<not> job_live r"
  proof -
    have "tbl db' i = tbl db i" by (rule updates_frame [OF upd]) (use none in auto)
    with board_of_same [of i "tbl db'" "tbl db"] other move_dead [OF none] show ?thesis by simp
  qed
  have hit: "board_of (tbl db') = move i p (board_of (tbl db))" if r: "tbl db i = Some r" "job_live r" and n: "res = Inr n" for r n
  proof -
    from updates_hit [OF upd [unfolded n] r] assms(2) [OF r] key_tbl [OF r(1)] obtain r' where r': "tbl db' i = Some r'" "job_tracked (f r) r'" by auto
    with entry_tracked [OF r'(2)] assms(2) [OF r] show ?thesis by (intro board_of_move [of i "tbl db'" "tbl db" r r'] other r r'(1)) auto
  qed
  show ok: "board_of (tbl db') = move i p (board_of (tbl db))" if "e = None"
  proof (cases "\<exists>r. tbl db i = Some r \<and> job_live r")
    case True
    with hit e that show ?thesis by blast
  next
    case False
    with dead show ?thesis by blast
  qed
  show "board_of (tbl db') = board_of (tbl db) \<or> board_of (tbl db') = move i p (board_of (tbl db))"
  proof (cases res)
    case (Inl x)
    with updates_Inl [OF upd [unfolded Inl]] show ?thesis by simp
  next
    case (Inr n)
    with ok e show ?thesis by simp
  qed
qed

lemma DeleteJob_board:
  assumes "DeleteJob g i db = (db', e)"
  shows "board_of (tbl db') = board_of (tbl db) \<or> board_of (tbl db') = move i Removed (board_of (tbl db))"
proof (cases e)
  case (Some x)
  with DeleteJob_Some assms show ?thesis by metis
next
  case None
  note del = assms [unfolded None]
  have other: "tbl db' k = tbl db k" if "k \<noteq> i" for k by (rule DeleteJob_other [OF assms that])
  show ?thesis
  proof (cases "\<exists>r. tbl db i = Some r \<and> job_live r")
    case True
    then obtain r where r: "tbl db i = Some r" "job_live r" by blast
    from DeleteJob_None [OF del r] obtain t where "tbl db' i = Some (r\<lparr>j_DeletedAt := Some t\<rparr>)" by (auto simp: job_marked_def)
    from board_of_move [of i "tbl db'" "tbl db" r, OF other r this] entry_moves(5) [OF r(2)] show ?thesis by blast
  next
    case False
    obtain n where "gorm_Delete g db (\<lambda>j. j_ID j = i) = (db', n)" using assms by (auto simp: DeleteJob_def elim!: gorm_errE)
    from delete_frame [OF this, of i] False have "tbl db' i = tbl db i" by auto
    with board_of_same [of i "tbl db'" "tbl db"] other show ?thesis by blast
  qed
qed

lemma create_board:
  assumes "gorm_Create g db rs = (db', Inr rs')" and "\<And>r. r \<in> set rs' \<Longrightarrow> entry r = (u, Waiting) \<and> j_ID r \<notin> R"
  shows "board_step (R, H, board_of (tbl db)) JbCall (R, H, board_of (tbl db'))"
proof -
  let ?new = "\<lambda>k. if tbl db k = None then board_of (tbl db') k else None"
  have fresh: "entry r' = (u, Waiting) \<and> k \<notin> R" if k: "tbl db k = None" "tbl db' k = Some r'" for k r'
  proof -
    from create_other [OF assms(1), of k] k obtain r where r: "r \<in> set rs'" "j_ID r = k" by force
    with create_new [OF assms(1) r(1)] k(2) assms(2) [OF r(1)] show ?thesis by auto
  qed
  have "board_of (tbl db') = board_of (tbl db) ++ ?new"
  proof
    fix k show "board_of (tbl db') k = (board_of (tbl db) ++ ?new) k"
      using create_old [OF assms(1), of k] by (cases "tbl db k") (auto simp: board_of_def map_add_def split: option.splits)
  qed
  moreover have "ran ?new \<subseteq> {(u, Waiting)}" using fresh by (auto simp: ran_def board_of_def split: if_splits)
  moreover have "board_of (tbl db) k = None \<and> k \<notin> R" if "?new k \<noteq> None" for k
    using that fresh [of k] by (auto simp: board_of_def split: if_splits)
  ultimately show ?thesis using board_step.post [of ?new "board_of (tbl db)" R u H] by metis
qed

end

lemma created_entry:
  assumes "job_filled (job_of_request u req) j"
  shows "entry j = (u, Waiting)"
  using filled_fresh_row(1) [OF assms] by (simp add: entry_def phase_of_def fresh_row_def)

context jobs_store
begin

text \<open>One lemma per kind of call.\<close>

lemma CreateJob_board:
  assumes "CreateJob g (job_of_request u req) db = (db', Inr j)" and "j_ID j \<notin> R"
  shows "board_step (R, H, board_of (tbl db)) JbCall (R, H, board_of (tbl db'))"
proof -
  obtain js where js: "gorm_Create g db [job_of_request u req] = (db', Inr js)"
    using assms(1) by (auto simp: CreateJob_def split: prod.splits sum.splits)
  with create_one [OF js] assms(1) have "js = [j]" "job_filled (job_of_request u req) j" by (auto simp: CreateJob_def)
  with created_entry assms(2) show ?thesis by (intro create_board [OF js]) auto
qed

lemma CreateJobs_board:
  assumes "CreateJobs g (map (job_of_request u) reqs) db = (db', Inr js)" and "j_ID ` set js \<inter> R = {}"
  shows "board_step (R, H, board_of (tbl db)) JbCall (R, H, board_of (tbl db'))"
proof -
  have made: "gorm_Create g db (map (job_of_request u) reqs) = (db', Inr js)" using assms(1) by (simp add: CreateJobs_def)
  have "entry j = (u, Waiting)" if "j \<in> set js" for j
    using create_fresh(1) [OF made] that created_entry by (auto simp: list_all2_conv_all_nth in_set_conv_nth)
  with assms(2) show ?thesis by (intro create_board [OF made]) auto
qed

lemma UpdateJob_board:
  assumes "UpdateJob g (j_ID h) (apply_update req h) db = (db', res)" and "row_ok h" and "job_live h"
    and "tbl db (j_ID h) = Some r" and "row_ok r" and "j_UserID r = j_UserID h"
  shows "board_of (tbl db') = board_of (tbl db) \<or> board_of (tbl db') = move (j_ID h) (phase_of h) (board_of (tbl db))"
proof -
  obtain e where "gorm_err (gorm_Updates g db (\<lambda>j. j_ID j = j_ID h) (job_nonzero_update (apply_update req h))) = (db', e)"
    using assms(1) by (auto simp: UpdateJob_def gorm_err_def split: prod.splits sum.splits)
  then show ?thesis
  proof (rule updates_board(1))
    fix r' assume r': "tbl db (j_ID h) = Some r'" "job_live r'"
    with assms(4) have "r' = r" by simp
    with entry_update [OF assms(2,5,3) _ assms(6)] key_tbl [OF assms(4)] r'(2)
    show "j_ID (job_nonzero_update (apply_update req h) r') = j_ID h \<and> entry (job_nonzero_update (apply_update req h) r') = (j_UserID r', phase_of h)"
      by (simp add: nz_def)
  qed
qed

lemma marks_board:
  shows "MarkRunning g i wid t db = (db', None) \<Longrightarrow> board_of (tbl db') = move i Active (board_of (tbl db))"
    and "MarkCompleted g i t db = (db', e) \<Longrightarrow>
      board_of (tbl db') = board_of (tbl db) \<or> board_of (tbl db') = move i (Ended True) (board_of (tbl db))"
    and "MarkFailed g i msg t db = (db', e) \<Longrightarrow>
      board_of (tbl db') = board_of (tbl db) \<or> board_of (tbl db') = move i (Ended False) (board_of (tbl db))"
proof -
  show "board_of (tbl db') = move i Active (board_of (tbl db))" if "MarkRunning g i wid t db = (db', None)"
    by (rule updates_board(2) [OF that [unfolded MarkRunning_def]]) (simp_all add: entry_moves key_tbl)
  show "board_of (tbl db') = board_of (tbl db) \<or> board_of (tbl db') = move i (Ended True) (board_of (tbl db))"
    if "MarkCompleted g i t db = (db', e)"
    by (rule updates_board(1) [OF that [unfolded MarkCompleted_def]]) (simp add: entry_moves key_tbl)
  show "board_of (tbl db') = board_of (tbl db) \<or> board_of (tbl db') = move i (Ended False) (board_of (tbl db))"
    if "MarkFailed g i msg t db = (db', e)"
    by (rule updates_board(1) [OF that [unfolded MarkFailed_def]]) (simp add: entry_moves key_tbl)
qed

lemma MarkQueued_board:
  assumes "MarkQueued g i t db = (db', e)"
  shows "board_of (tbl db') = board_of (tbl db)"
proof
  fix k
  obtain res where upd: "gorm_Updates g db (\<lambda>j. j_ID j = i) (\<lambda>j. j\<lparr>j_QueuedAt := Some t\<rparr>) = (db', res)"
    using assms by (auto simp: MarkQueued_def elim!: gorm_errE)
  show "board_of (tbl db') k = board_of (tbl db) k"
  proof (cases "tbl db k")
    case None
    then have "tbl db' k = tbl db k" by (intro updates_frame [OF upd]) simp
    then show ?thesis by (simp add: board_of_def)
  next
    case (Some r)
    with updates_cases [OF upd Some] key_tbl [OF Some] entry_moves(1) show ?thesis
      by (auto simp: board_of_def dest!: entry_tracked)
  qed
qed

lemma job_step_refines:
  assumes "job_step g (R, S, db) l (R', S', db')" and "sys_ok tbl (R, S, db)"
  shows "board_step (abs_sys tbl (R, S, db)) l (abs_sys tbl (R', S', db'))"
proof -
  let ?H = "(\<lambda>h. (j_ID h, phase_of h)) ` S"
  have same: "board_step (abs_sys tbl (R, S, db)) l (abs_sys tbl (R, S, db'))" if "board_of (tbl db') = board_of (tbl db)" for l
    using that by (simp add: abs_sys_def board_step.idle)
  from assms(1) show ?thesis
  proof cases
    case (create u req j)
    with CreateJob_board [OF create(4,6)] show ?thesis by (simp add: abs_sys_def)
  next
    case (create_many u reqs js)
    with CreateJobs_board [OF create_many(4,6)] show ?thesis by (simp add: abs_sys_def)
  next
    case (read i j)
    note found = GetJobByID_Inr [OF read(4)] and tbl = GetJobByID_frame [OF read(4)]
    have "board_of (tbl db) i = Some (j_UserID j, phase_of j)" "phase_of j \<noteq> Removed"
      using found by (simp_all add: board_of_def entry_def phase_live)
    from board_step.look [of "board_of (tbl db)" i "j_UserID j" "phase_of j" R ?H, OF this] read tbl found show ?thesis by (simp add: abs_sys_def)
  next
    case (update held req res)
    then obtain r where r: "row_ok held" "job_live held" "tbl db (j_ID held) = Some r" "row_ok r" "j_UserID r = j_UserID held"
      using assms(2) by (auto simp: sys_ok_def)
    have "(j_ID held, phase_of held) \<in> ?H" using update(4) by blast
    from board_step.edit [OF this, of R "board_of (tbl db)"] UpdateJob_board [OF update(6) r] same update show ?thesis by (auto simp: abs_sys_def)
  next
    case (delete i e)
    with DeleteJob_board [OF delete(4)] same board_step.remove [of R ?H "board_of (tbl db)" i] show ?thesis by (auto simp: abs_sys_def)
  next
    case (running i wid t)
    with marks_board(1) [OF running(4)] board_step.begin_work [of R ?H "board_of (tbl db)" i] show ?thesis by (simp add: abs_sys_def)
  next
    case (completed i t e)
    with marks_board(2) [OF completed(5)] same board_step.end_work [OF completed(4)] show ?thesis by (auto simp: abs_sys_def)
  next
    case (failed i msg t e)
    with marks_board(3) [OF failed(5)] same board_step.end_work [OF failed(4)] show ?thesis by (auto simp: abs_sys_def)
  next
    case (running_failed i wid t e)
    then show ?thesis by (auto simp: MarkRunning_def elim!: gorm_errE dest: updates_Inl intro!: same)
  next
    case (create_many_failed jobs e)
    then show ?thesis by (auto simp: CreateJobs_def dest: create_Inl intro!: same)
  next
    case (read_all u found)
    then show ?thesis by (auto simp: GetAllJobs_def dest: find_tbl intro!: same)
  qed (auto intro!: same dest: CreateJob_Inl GetJobByID_frame GetUnqueuedPendingJobs_frame MarkQueued_board)
qed

lemma job_run_refines: "job_run g s ls s' \<Longrightarrow> sys_ok tbl s \<Longrightarrow> board_run (abs_sys tbl s) ls (abs_sys tbl s')"
proof (induction rule: job_run.induct)
  case (run_cons s l s1 ls s2)
  obtain R S db R1 S1 db1 where eq: "s = (R, S, db)" "s1 = (R1, S1, db1)" by (cases s, cases s1)
  from job_step_refines [of R S db l R1 S1 db1] step_ok [of R S db l R1 S1 db1] run_cons eq show ?case
    by (auto intro: board_run.run_cons)
qed (rule board_run.run_nil)

end

section \<open>Properties\<close>

text \<open>
  C6. The jobs table implements the board. Whatever the interleaving of repository calls by requests, the reconciler and the workers, it is a run of the abstract machine on the board that the table
  shows, step by step and with the same labels: jobs are posted as waiting under new identifiers, work on a job begins and ends, an entry is removed, an update puts back the phase it has read;
  nothing else happens to the owner or the phase of a job.
\<close>

theorem job_table_refines_board:
  assumes "jobs_store g tbl" and "\<forall>k r. tbl db k = Some r \<longrightarrow> row_ok r" and "job_run g ({}, {}, db) ls (R, S, db')"
  shows "board_run ({}, {}, board_of (tbl db)) ls (R, (\<lambda>h. (j_ID h, phase_of h)) ` S, board_of (tbl db'))"
proof -
  have "sys_ok tbl ({}, {}, db)" using assms(2) by (simp add: sys_ok_def)
  from jobs_store.job_run_refines [OF assms(1,3) this] show ?thesis by (simp add: abs_sys_def)
qed

theorem job_table_refines_board_witness:
  "board_run ({}, {}, board_of (mem_tbl j_ID ready_db)) [JbCall, JbCall] ({''j1''}, {}, board_of (mem_tbl j_ID ended_db))
   \<and> board_of (mem_tbl j_ID ready_db) ''j1'' = Some (''ann'', Waiting) \<and> board_of (mem_tbl j_ID ended_db) ''j1'' = Some (''ann'', Ended True)"
proof -
  have "board_run ({}, {}, board_of (mem_tbl j_ID ready_db)) [JbCall, JbCall] ({''j1''}, {}, board_of (mem_tbl j_ID ended_db))"
    using job_table_refines_board [OF mem_jobs.jobs_store_axioms ready_ok ready_run] by simp
  moreover have "board_of (mem_tbl j_ID ready_db) ''j1'' = Some (''ann'', Waiting)" "board_of (mem_tbl j_ID ended_db) ''j1'' = Some (''ann'', Ended True)"
    by (simp_all add: board_of_def entry_def phase_of_def mem_tbl_def ended_db_def ready_db_def ready_row_def queued_row_def zeroJob_def
        completed_row_def running_row_def job_live_def job_constants)
  ultimately show ?thesis by simp
qed

text \<open>
  Work ends only where it has begun: from a table of waiting jobs, a job that is running, completed or failed after any interleaving has been marked running by a worker.
\<close>

corollary no_end_without_begin:
  assumes "jobs_store g tbl" and "\<forall>k r. tbl db k = Some r \<longrightarrow> row_ok r \<and> phase_of r \<in> {Waiting, Removed}"
    and "job_run g ({}, {}, db) ls (R, S, db')" and "tbl db' k = Some r" and "job_live r" and "j_Status r \<noteq> JobStatusPending"
  shows "k \<in> R"
proof -
  have "sys_ok tbl ({}, {}, db)" using assms(2) by (simp add: sys_ok_def)
  note run = jobs_store.job_run_refines [OF assms(1,3) this]
  have "board_ok (abs_sys tbl ({}, {}, db))" using assms(2) by (fastforce simp: board_ok_def abs_sys_def board_of_def entry_def)
  note reached = board_run_ok [OF run this]
  have "board_of (tbl db') k = Some (j_UserID r, phase_of r)" using assms(4) by (simp add: board_of_def entry_def)
  moreover have "phase_of r = Active \<or> (\<exists>ok. phase_of r = Ended ok)" using assms(5,6) by (simp add: phase_of_def)
  ultimately show ?thesis using reached by (simp add: board_ok_def abs_sys_def) blast
qed

end
