(* ===== verification/Worker_Liveness.thy ===== *)
theory Worker_Liveness
  imports Worker
begin

text \<open>
  What the retries of \<^verbatim>\<open>consume.go\<close> buy: a worker whose database fails only for a while finishes every job that is delivered to it. The duration of an outage is measured in failing calls,
  \<open>faults db\<close> bounds the \<^verbatim>\<open>Updates\<close> calls that can still fail from the state \<open>db\<close> on.
\<close>

section \<open>A database with transient faults\<close>

locale flaky_worker = worker_env w tbl published
  for w :: "('db, 'rd) Worker" and tbl :: "'db \<Rightarrow> string \<Rightarrow> Job option" and published :: "'rd \<Rightarrow> (string \<times> string) list" +
  fixes faults :: "'db \<Rightarrow> nat"
  assumes updates_fault: "gorm_Updates (wk_repo w) db P f = (db', Inl e) \<Longrightarrow> (\<And>j. j_ID (f j) = j_ID j) \<Longrightarrow> faults db' < faults db"
    and updates_pass: "gorm_Updates (wk_repo w) db P f = (db', Inr n) \<Longrightarrow> faults db' \<le> faults db"

definition job_finished :: "string \<Rightarrow> JobType \<Rightarrow> nat \<Rightarrow> Job \<Rightarrow> Job \<Rightarrow> bool" where
  "job_finished wid ty n r r' \<longleftrightarrow> j_Status r' = final_status ty \<and> j_Attempts r + 1 \<le> j_Attempts r' \<and> j_Attempts r' \<le> j_Attempts r + 1 + int n
     \<and> j_CompletedAt r' \<noteq> None \<and> j_WorkerID r' = Some wid \<and> j_UserID r' = j_UserID r \<and> j_DeletedAt r' = j_DeletedAt r"

lemma was_finished_finished: "was_finished wid ty r r' \<Longrightarrow> job_finished wid ty n r r'"
  by (simp add: job_finished_def was_finished_sel)

lemma job_finished_later:
  assumes "r1 = r \<or> was_started wid r r1" and "job_finished wid ty n r1 r'" and "n < n'"
  shows "job_finished wid ty n' r r'"
  using assms was_started_sel(2,4,5) [of wid r r1] by (auto simp: job_finished_def)

lemma job_finished_mono: "job_finished wid ty n r r' \<Longrightarrow> n \<le> n' \<Longrightarrow> job_finished wid ty n' r r'"
  by (auto simp: job_finished_def)

definition delivered :: "string \<Rightarrow> JobMessage \<Rightarrow> nat \<Rightarrow> (string \<Rightarrow> Job option) \<Rightarrow> (string \<Rightarrow> Job option) \<Rightarrow> bool" where
  "delivered wid m n ts ts' \<longleftrightarrow> (\<forall>k. k \<noteq> m_ID m \<longrightarrow> ts' k = ts k)
     \<and> (\<forall>r. ts (m_ID m) = Some r \<longrightarrow> job_live r \<longrightarrow> (\<exists>r'. ts' (m_ID m) = Some r' \<and> job_finished wid (m_Type m) n r r'))"

lemma delivered_other: "delivered wid m n ts ts' \<Longrightarrow> k \<noteq> m_ID m \<Longrightarrow> ts' k = ts k"
  by (simp add: delivered_def)

definition acked :: "consume_action list \<Rightarrow> nat" where
  "acked acts = length (filter (\<lambda>x. x = MsgAck) acts)"

lemma acked_one:
  assumes "settled acts = 1" and "MsgAck \<in> set acts"
  shows "acked acts = 1"
proof -
  have "acked acts \<le> settled acts" unfolding acked_def settled_def by (induction acts) auto
  moreover have "acked acts \<noteq> 0" using assms(2) by (simp add: acked_def filter_empty_conv)
  ultimately show ?thesis using assms(1) by simp
qed

context flaky_worker
begin

lemma update_faults:
  assumes "gorm_err (gorm_Updates (wk_repo w) db P f) = (db', e)" and "\<And>j. j_ID (f j) = j_ID j"
  shows "if e = None then faults db' \<le> faults db else faults db' < faults db"
  using assms updates_fault updates_pass by (auto elim!: gorm_errE)

lemma handleJob_faults:
  assumes "wk_unmarshal w body = Inr m" and "known_type (m_Type m)" and "handleJob w body st = (st', err)"
  shows "if err = None then faults (ws_db st') \<le> faults (ws_db st) else faults (ws_db st') < faults (ws_db st)"
proof -
  obtain kind pause ferr where run: "run_handler kind pause
      (\<lambda>now db. gorm_err (gorm_Updates (wk_repo w) db (\<lambda>j. j_ID j = m_ID m) (final_row (m_Type m) now)))
      ferr (final_status (m_Type m)) w m st = (st', err)"
    using handleJob_known [OF assms(1,2), of st] assms(3) by auto
  obtain t clk where t: "time_Now (ws_clock st) = (t, clk)" by (cases "time_Now (ws_clock st)")
  obtain u clk1 where u: "time_Now clk = (u, clk1)" by (cases "time_Now clk")
  obtain t' clk2 where t': "time_Now clk1 = (t', clk2)" by (cases "time_Now clk1")
  obtain db1 e1 where m: "gorm_err (gorm_Updates (wk_repo w) (ws_db st) (\<lambda>j. j_ID j = m_ID m) (running_row (wk_workerID w) t)) = (db1, e1)"
    by (cases "gorm_err (gorm_Updates (wk_repo w) (ws_db st) (\<lambda>j. j_ID j = m_ID m) (running_row (wk_workerID w) t))")
  obtain db2 e2 where f: "gorm_err (gorm_Updates (wk_repo w) db1 (\<lambda>j. j_ID j = m_ID m) (final_row (m_Type m) t')) = (db2, e2)"
    by (cases "gorm_err (gorm_Updates (wk_repo w) db1 (\<lambda>j. j_ID j = m_ID m) (final_row (m_Type m) t'))")
  note less = update_faults [OF m row_update_ids(1)] update_faults [OF f final_row_ID]
  have "ws_db (publishStatusEvent w m s x) = ws_db x" for s x by (rule publishStatusEvent_effect(1)) simp
  with run t u t' m f less show ?thesis
    by (cases e1; cases e2) (auto simp: run_handler_def MarkRunning_def Let_def)
qed

text \<open>Every failing attempt uses up a fault, so an attempt within the budget succeeds.\<close>

lemma handled_delivered:
  assumes "wk_unmarshal w body = Inr m" and "known_type (m_Type m)" and "handleJob w body st = (st', None)"
  shows "delivered (wk_workerID w) m n (tbl (ws_db st)) (tbl (ws_db st'))"
  using handleJob_frame(1) [OF assms(1,3)] handleJob_done(2) [OF assms] was_finished_finished unfolding delivered_def by blast

lemma retried_delivered:
  assumes "wk_unmarshal w body = Inr m" and "handleJob w body st = (st1, Some e)"
    and "delivered (wk_workerID w) m n (tbl (ws_db st1)) ts" and "n < n'"
  shows "delivered (wk_workerID w) m n' (tbl (ws_db st)) ts"
  unfolding delivered_def
proof (intro conjI allI impI)
  show "ts k = tbl (ws_db st) k" if "k \<noteq> m_ID m" for k
    using handleJob_frame(1) [OF assms(1,2) that] delivered_other [OF assms(3) that] by simp
next
  fix r assume r: "tbl (ws_db st) (m_ID m) = Some r" "job_live r"
  from handleJob_failed(2) [OF assms(1,2) r] obtain r1
    where r1: "tbl (ws_db st1) (m_ID m) = Some r1" "r1 = r \<or> was_started (wk_workerID w) r r1" by blast
  have "job_live r1" using r1(2) r(2) was_started_sel(5) by (auto simp: job_live_def)
  with assms(3) r1(1) obtain r' where "ts (m_ID m) = Some r'" "job_finished (wk_workerID w) (m_Type m) n r1 r'" unfolding delivered_def by blast
  with job_finished_later [OF r1(2) _ assms(4)] show "\<exists>r'. ts (m_ID m) = Some r' \<and> job_finished (wk_workerID w) (m_Type m) n' r r'" by blast
qed

lemma attempts_finish:
  assumes "wk_unmarshal w body = Inr m" and "known_type (m_Type m)" and "a + int (faults (ws_db st)) \<le> mr"
  shows "\<exists>st' acts. consume_attempts (handleJob w) body mr a l st = (st', None, acts) \<and> faults (ws_db st') \<le> faults (ws_db st)
     \<and> delivered (wk_workerID w) m (faults (ws_db st)) (tbl (ws_db st)) (tbl (ws_db st'))"
  using assms(3)
proof (induction "faults (ws_db st)" arbitrary: a l st rule: less_induct)
  case less
  obtain st1 e where run: "handleJob w body st = (st1, e)" by (cases "handleJob w body st")
  have a: "a \<le> mr" using less.prems by simp
  show ?case
  proof (cases e)
    case None
    then have "consume_attempts (handleJob w) body mr a l st = (st1, None, pre_sleep a @ [HandlerCall])"
      using run a by (subst consume_attempts.simps) simp
    moreover have "faults (ws_db st1) \<le> faults (ws_db st)" using handleJob_faults [OF assms(1,2) run] None by simp
    ultimately show ?thesis using handled_delivered [OF assms(1,2) run [unfolded None]] by blast
  next
    case (Some x)
    have fewer: "faults (ws_db st1) < faults (ws_db st)" using handleJob_faults [OF assms(1,2) run] Some by simp
    with less.prems have "a + 1 + int (faults (ws_db st1)) \<le> mr" by simp
    from less.hyps [OF fewer this, of "Some x"] obtain st' acts where
      rest: "consume_attempts (handleJob w) body mr (a + 1) (Some x) st1 = (st', None, acts)" "faults (ws_db st') \<le> faults (ws_db st1)"
        "delivered (wk_workerID w) m (faults (ws_db st1)) (tbl (ws_db st1)) (tbl (ws_db st'))" by blast
    have "consume_attempts (handleJob w) body mr a l st = (st', None, pre_sleep a @ HandlerCall # acts)"
      using run Some a rest(1) by (subst consume_attempts.simps) simp
    moreover have "faults (ws_db st') \<le> faults (ws_db st)" using rest(2) fewer by simp
    ultimately show ?thesis using retried_delivered [OF assms(1) run [unfolded Some] rest(3) fewer] by blast
  qed
qed

lemma message_finishes:
  assumes "wk_unmarshal w body = Inr m" and "known_type (m_Type m)" and "int (faults (ws_db st)) \<le> m_MaxRetries m"
  shows "\<exists>st' acts. process_message (jobMaxRetries (wk_unmarshal w)) (handleJob w) body st = (st', acts) \<and> settled acts = 1 \<and> MsgAck \<in> set acts
     \<and> faults (ws_db st') \<le> faults (ws_db st) \<and> delivered (wk_workerID w) m (faults (ws_db st)) (tbl (ws_db st)) (tbl (ws_db st'))"
proof -
  have mr: "jobMaxRetries (wk_unmarshal w) body = m_MaxRetries m" by (simp add: jobMaxRetries_def assms(1))
  from attempts_finish [OF assms(1,2), of 0 st "m_MaxRetries m" None] assms(3) obtain st' acts where
    run: "consume_attempts (handleJob w) body (m_MaxRetries m) 0 None st = (st', None, acts)"
    and rest: "faults (ws_db st') \<le> faults (ws_db st)" "delivered (wk_workerID w) m (faults (ws_db st)) (tbl (ws_db st)) (tbl (ws_db st'))"
    by auto
  have "process_message (jobMaxRetries (wk_unmarshal w)) (handleJob w) body st = (st', WgAdd # acts @ [WgDone, MsgAck])"
    by (simp add: process_message_def mr run)
  with rest process_message_settles [OF this] show ?thesis by (intro exI conjI) auto
qed

text \<open>Failing attempts announce nothing, so one delivery announces at most one end.\<close>

lemma attempts_announce:
  assumes "wk_unmarshal w body = Inr m" and "known_type (m_Type m)" and "consume_attempts (handleJob w) body mr a l st = (st', None, acts)" and "a \<le> mr"
    and "tbl (ws_db st) (m_ID m) = Some r" and "job_live r"
  shows "published (ws_rdb st') \<in> {published (ws_rdb st), published (ws_rdb st) @ [status_event m (final_status (m_Type m))]}"
  using assms(3-6)
proof (induction "nat (mr - a)" arbitrary: a l st r acts)
  case 0
  then show ?case using handleJob_done(1) [OF assms(1,2), of st]
    by (subst (asm) consume_attempts.simps, subst (asm) consume_attempts.simps) (auto split: prod.splits option.splits)
next
  case (Suc n)
  obtain st1 e where run: "handleJob w body st = (st1, e)" by (cases "handleJob w body st")
  show ?case
  proof (cases e)
    case None
    with Suc.prems(1,2) run have "st' = st1" by (subst (asm) consume_attempts.simps) simp
    with handleJob_done(1) [OF assms(1,2) run [unfolded None]] show ?thesis by simp
  next
    case (Some x)
    note failed = handleJob_failed [OF assms(1) run [unfolded Some] Suc.prems(3,4)]
    from failed(2) obtain r1 where r1: "tbl (ws_db st1) (m_ID m) = Some r1" "r1 = r \<or> was_started (wk_workerID w) r r1" by blast
    have "job_live r1" using r1(2) Suc.prems(4) was_started_sel(5) by (auto simp: job_live_def)
    moreover obtain acts' where "consume_attempts (handleJob w) body mr (a + 1) (Some x) st1 = (st', None, acts')"
      using Suc.prems(1,2) run Some by (subst (asm) consume_attempts.simps) (auto split: prod.splits)
    ultimately show ?thesis using Suc.hyps(1) [of "a + 1" "Some x" st1 acts' r1] Suc.hyps(2) r1(1) failed(1) by simp
  qed
qed

lemma message_announces:
  assumes "wk_unmarshal w body = Inr m" and "known_type (m_Type m)" and "0 \<le> m_MaxRetries m"
    and "process_message (jobMaxRetries (wk_unmarshal w)) (handleJob w) body st = (st', acts)" and "MsgAck \<in> set acts"
    and "tbl (ws_db st) (m_ID m) = Some r" and "job_live r"
  shows "published (ws_rdb st') \<in> {published (ws_rdb st), published (ws_rdb st) @ [status_event m (final_status (m_Type m))]}"
proof -
  have mr: "jobMaxRetries (wk_unmarshal w) body = m_MaxRetries m" by (simp add: jobMaxRetries_def assms(1))
  obtain e as where run: "consume_attempts (handleJob w) body (m_MaxRetries m) 0 None st = (st', e, as)"
    and acts: "acts = WgAdd # as @ [WgDone, if e \<noteq> None then MsgNack False False else MsgAck]"
    using assms(4) by (auto simp: process_message_def mr split: prod.splits)
  have "settled as = 0" using attempts_neutral [OF run] by simp
  then have "MsgAck \<notin> set as" by (auto simp: settled_def filter_empty_conv)
  with acts assms(5) have "e = None" by (auto split: if_splits)
  with attempts_announce [OF assms(1,2) _ assms(3,6,7)] run show ?thesis by blast
qed

text \<open>A sequence of deliveries.\<close>

lemma deliveries_finish:
  assumes "list_all2 (\<lambda>b m. wk_unmarshal w b = Inr m) bodies ms" and "distinct (map m_ID ms)"
    and "\<forall>m\<in>set ms. known_type (m_Type m) \<and> int (faults (ws_db st)) \<le> m_MaxRetries m"
  shows "\<exists>st' acts. consumer_goroutine w (map Msg bodies) st = (st', acts) \<and> acked acts = length bodies \<and> settled acts = length bodies
     \<and> (\<forall>k. k \<notin> m_ID ` set ms \<longrightarrow> tbl (ws_db st') k = tbl (ws_db st) k)
     \<and> (\<forall>m r. m \<in> set ms \<longrightarrow> tbl (ws_db st) (m_ID m) = Some r \<longrightarrow> job_live r \<longrightarrow>
          (\<exists>r'. tbl (ws_db st') (m_ID m) = Some r' \<and> job_finished (wk_workerID w) (m_Type m) (faults (ws_db st)) r r'))"
  using assms
proof (induction bodies ms arbitrary: st rule: list_all2_induct)
  case Nil
  then show ?case by (simp add: consumer_goroutine_def acked_def)
next
  case (Cons b bs m ms)
  from Cons.prems message_finishes [OF Cons.hyps(1), of st] obtain st1 acts1 where
    one: "process_message (jobMaxRetries (wk_unmarshal w)) (handleJob w) b st = (st1, acts1)" "settled acts1 = 1" "MsgAck \<in> set acts1"
      "faults (ws_db st1) \<le> faults (ws_db st)" "delivered (wk_workerID w) m (faults (ws_db st)) (tbl (ws_db st)) (tbl (ws_db st1))" by auto
  have "\<forall>m\<in>set ms. known_type (m_Type m) \<and> int (faults (ws_db st1)) \<le> m_MaxRetries m" using Cons.prems(2) one(4) by fastforce
  with Cons.IH [of st1] Cons.prems(1) obtain st' acts where
    rest: "consumer_goroutine w (map Msg bs) st1 = (st', acts)" "acked acts = length bs" "settled acts = length bs"
      "\<And>k. k \<notin> m_ID ` set ms \<Longrightarrow> tbl (ws_db st') k = tbl (ws_db st1) k"
    and rows: "\<And>m r. m \<in> set ms \<Longrightarrow> tbl (ws_db st1) (m_ID m) = Some r \<Longrightarrow> job_live r \<Longrightarrow>
          \<exists>r'. tbl (ws_db st') (m_ID m) = Some r' \<and> job_finished (wk_workerID w) (m_Type m) (faults (ws_db st1)) r r'" by auto
  have m: "m_ID m \<notin> m_ID ` set ms" using Cons.prems(1) by simp
  have "consumer_goroutine w (map Msg (b # bs)) st = (st', acts1 @ acts)" using one(1) rest(1) by (simp add: consumer_goroutine_def)
  moreover have "acked (acts1 @ acts) = length (b # bs)" "settled (acts1 @ acts) = length (b # bs)"
    using rest(2,3) one(2) acked_one [OF one(2,3)] by (simp_all add: acked_def)
  moreover have "tbl (ws_db st') k = tbl (ws_db st) k" if "k \<notin> m_ID ` set (m # ms)" for k
    using that rest(4) delivered_other [OF one(5)] by simp
  moreover have "\<exists>r'. tbl (ws_db st') (m_ID x) = Some r' \<and> job_finished (wk_workerID w) (m_Type x) (faults (ws_db st)) r r'"
    if x: "x \<in> set (m # ms)" and r: "tbl (ws_db st) (m_ID x) = Some r" "job_live r" for x r
  proof (cases "x = m")
    case True
    with one(5) r rest(4) [OF m] show ?thesis unfolding delivered_def by auto
  next
    case False
    with x m have "x \<in> set ms" "m_ID x \<noteq> m_ID m" by (auto simp: image_iff)
    with rows [of x r] delivered_other [OF one(5)] r job_finished_mono [OF _ one(4)] show ?thesis by auto
  qed
  ultimately show ?case by blast
qed

end

section \<open>The reference store\<close>

text \<open>The faults of the reference store are a list of outcomes, one per call.\<close>

definition mem_outage :: "Job mem_db \<Rightarrow> nat" where
  "mem_outage db = length (filter (\<lambda>x. x \<noteq> None) (mem_faults db))"

lemma mem_outage_laws:
  shows "gorm_Updates mem_jobs db P f = (db', Inl e) \<Longrightarrow> (\<And>j. j_ID (f j) = j_ID j) \<Longrightarrow> mem_outage db' < mem_outage db"
    and "gorm_Updates mem_jobs db P f = (db', Inr n) \<Longrightarrow> mem_outage db' \<le> mem_outage db"
  by (auto simp: mem_jobs_def mem_defs mem_outage_def Let_def list_all_iff split: list.splits option.splits if_splits)

interpretation mem_flaky: flaky_worker "mem_worker ty" "mem_tbl j_ID" rr_log mem_outage for ty
  by unfold_locales (simp_all add: mem_outage_laws)

section \<open>Properties\<close>

text \<open>
  C2. A consumer finishes what it is given. Take any sequence of deliveries for different jobs of known types, and a database whose outage is short: the number of calls that still fail
  is at most the retry limit of each message. Then the consumer goroutine comes to the end of the sequence, every delivery is acknowledged and none is rejected, every live row ends in
  the final state of its type with a completion time and this worker's id, after one attempt plus at most one for each failing call, and no other row changes.
\<close>

theorem transient_outage_loses_no_job:
  assumes "flaky_worker w tbl published faults" and "list_all2 (\<lambda>b m. wk_unmarshal w b = Inr m) bodies ms" and "distinct (map m_ID ms)"
    and "\<forall>m\<in>set ms. known_type (m_Type m) \<and> int (faults (ws_db st)) \<le> m_MaxRetries m"
  shows "\<exists>st' acts. consumer_goroutine w (map Msg bodies) st = (st', acts) \<and> acked acts = length bodies \<and> settled acts = length bodies
     \<and> (\<forall>k. k \<notin> m_ID ` set ms \<longrightarrow> tbl (ws_db st') k = tbl (ws_db st) k)
     \<and> (\<forall>m r. m \<in> set ms \<longrightarrow> tbl (ws_db st) (m_ID m) = Some r \<longrightarrow> job_live r \<longrightarrow>
          (\<exists>r'. tbl (ws_db st') (m_ID m) = Some r' \<and> j_Status r' = final_status (m_Type m) \<and> j_CompletedAt r' \<noteq> None \<and> j_WorkerID r' = Some (wk_workerID w)
             \<and> j_UserID r' = j_UserID r \<and> j_Attempts r + 1 \<le> j_Attempts r' \<and> j_Attempts r' \<le> j_Attempts r + 1 + int (faults (ws_db st))))"
  using flaky_worker.deliveries_finish [OF assms] unfolding job_finished_def by blast

theorem transient_outage_loses_no_job_witness:
  "\<exists>st' acts r'. consumer_goroutine (mem_worker JobEmail) [Msg ''j1''] (mem_ws [queued_row ''j1''] [None, Some ''connection reset'']) = (st', acts)
     \<and> acked acts = 1 \<and> mem_tbl j_ID (ws_db st') ''j1'' = Some r' \<and> j_Status r' = JobStatusCompleted \<and> 1 \<le> j_Attempts r'"
proof -
  let ?m = "projr (wk_unmarshal (mem_worker JobEmail) ''j1'')" and ?st = "mem_ws [queued_row ''j1''] [None, Some ''connection reset'']"
  have outage: "mem_outage (ws_db ?st) = 1" by (simp add: mem_outage_def mem_ws_def)
  have "j_Attempts (queued_row ''j1'') = 0" by (simp add: queued_row_def zeroJob_def)
  with transient_outage_loses_no_job [OF mem_flaky.flaky_worker_axioms, of JobEmail "[''j1'']" "[?m]" ?st] mem_ws_row [of "''j1''"] outage
  show ?thesis by (fastforce simp: known_type_def final_status_def job_constants)
qed

end
