(* ===== verification/Sse_Registry.thy ===== *)
theory Sse_Registry
  imports Sse
begin

text \<open>
  The life of an event stream in \<^verbatim>\<open>internal/sse/handler.go\<close> and what it leaves behind: the loop over the inputs of \<^verbatim>\<open>c.Stream\<close>, the deferred \<^verbatim>\<open>RemoveClient\<close>, and the registry as
  a set of open connections, which the manager's maps and channels implement exactly.
\<close>

section \<open>The stream and its end\<close>

text \<open>\<^verbatim>\<open>c.Stream\<close> calls its step until it answers false; the events written and whether the stream has ended.\<close>

fun stream_loop :: "stream_input list \<Rightarrow> (string \<times> string) list \<times> bool" where
  "stream_loop [] = ([], False)"
| "stream_loop (inp # inps) = (case stream_step inp of
      None \<Rightarrow> ([], True)
    | Some ev \<Rightarrow> (case stream_loop inps of (evs, ended) \<Rightarrow> (ev # evs, ended)))"

definition SSEStream_return :: "gin_context \<Rightarrow> string \<Rightarrow> ClientManager \<Rightarrow> ClientManager option" where
  "SSEStream_return c connID m = RemoveClient (gc_Param c ''userId'') connID m"

lemma stream_loop_messages: "stream_loop (map StreamMsg xs @ inps) = (map (Pair ''job'') xs @ fst (stream_loop inps), snd (stream_loop inps))"
  by (induction xs) (auto simp: stream_step_def split: prod.splits)

lemma stream_loop_ends: "snd (stream_loop inps) \<longleftrightarrow> (\<exists>inp\<in>set inps. \<forall>x. inp \<noteq> StreamMsg x)"
  by (induction inps) (auto simp: stream_step_def split: stream_input.splits prod.splits)

section \<open>The registry as a set\<close>

definition registered :: "ClientManager \<Rightarrow> (string \<times> string) set" where
  "registered m = {(u, c). conns_of m u c \<noteq> None}"

fun reg_event :: "sse_event \<Rightarrow> (string \<times> string) set \<Rightarrow> (string \<times> string) set" where
  "reg_event (EvAdd u c ch) A = insert (u, c) A"
| "reg_event (EvRemove u c) A = A - {(u, c)}"
| "reg_event _ A = A"

text \<open>No open channel is left without its registration.\<close>

definition no_orphan :: "ClientManager \<Rightarrow> bool" where
  "no_orphan m \<longleftrightarrow> (\<forall>ch k. cm_chans m ch = Some k \<longrightarrow> \<not> ch_closed k \<longrightarrow> (\<exists>u c. conns_of m u c = Some ch))"

lemma no_orphan_frame:
  assumes "no_orphan m" and "conns_of m' = conns_of m"
    and "\<And>ch k'. cm_chans m' ch = Some k' \<Longrightarrow> \<exists>k. cm_chans m ch = Some k \<and> ch_closed k = ch_closed k'"
  shows "no_orphan m'"
  using assms unfolding no_orphan_def by metis

lemma add_registers:
  assumes "cm_ok used m" and "no_orphan m" and "connID \<notin> used" and "AddClient connID userID m = (m', cid, ch)"
  shows "registered m' = insert (userID, connID) (registered m) \<and> no_orphan m'"
proof -
  note add = AddClient_conns [OF assms(4)]
  have "registered m' = insert (userID, connID) (registered m)" by (auto simp: registered_def add(4))
  moreover have "no_orphan m'" unfolding no_orphan_def
  proof (intro allI impI)
    fix x k assume x: "cm_chans m' x = Some k" "\<not> ch_closed k"
    show "\<exists>u c. conns_of m' u c = Some x"
    proof (cases "x = ch")
      case True
      then show ?thesis using add(4) [of userID connID] by auto
    next
      case False
      with x(1) have "cm_chans m x = Some k" by (simp add: add(5))
      with x(2) assms(2) obtain u c where c: "conns_of m u c = Some x" unfolding no_orphan_def by blast
      with cm_okD(1) [OF assms(1) c] assms(3) have "conns_of m' u c = Some x" by (auto simp: add(4))
      then show ?thesis by blast
    qed
  qed
  ultimately show ?thesis ..
qed

lemma remove_unregisters:
  assumes "cm_ok used m" and "no_orphan m" and "RemoveClient userID connID m = Some m'"
  shows "registered m' = registered m - {(userID, connID)} \<and> no_orphan m'"
proof (cases "conns_of m userID connID")
  case None
  with RemoveClient_absent [OF assms(1) None] assms(3) have same: "cm_clients m' = cm_clients m" "cm_chans m' = cm_chans m" by auto
  then have "conns_of m' = conns_of m" by (simp add: conns_of_def fun_eq_iff)
  with same no_orphan_frame [OF assms(2), of m'] None show ?thesis by (auto simp: registered_def)
next
  case (Some ch)
  from RemoveClient_present [OF assms(1) Some] assms(3) obtain k where
    k: "cm_chans m' = (cm_chans m)(ch \<mapsto> k\<lparr>ch_closed := True\<rparr>)"
    and conns: "\<And>u c. conns_of m' u c = (if u = userID \<and> c = connID then None else conns_of m u c)" by auto
  have "\<exists>u c. conns_of m' u c = Some x" if x: "cm_chans m' x = Some y" "\<not> ch_closed y" for x y
  proof -
    from x have "x \<noteq> ch" by (auto simp: k)
    with x(1) have "cm_chans m x = Some y" by (simp add: k)
    with x(2) assms(2) obtain u c where c: "conns_of m u c = Some x" unfolding no_orphan_def by blast
    with \<open>x \<noteq> ch\<close> Some have "conns_of m' u c = Some x" by (auto simp: conns)
    then show ?thesis by blast
  qed
  then show ?thesis by (auto simp: registered_def no_orphan_def conns split: if_splits)
qed

lemma send_keeps:
  assumes "cm_ok used m" and "no_orphan m" and "iteration order (conns_of m userID)" and "SendToClient order userID x m = Some m'"
  shows "registered m' = registered m \<and> no_orphan m'"
proof -
  note same = SendToClient_ok(2) [OF assms(1,3,4)]
  have "m' = m\<lparr>cm_chans := \<lambda>ch. if ch \<in> ran (conns_of m userID) then map_option (push x) (cm_chans m ch) else cm_chans m ch\<rparr>"
    using SendToClient_effect [OF assms(1,3)] assms(4) by simp
  then have "\<exists>k. cm_chans m ch = Some k \<and> ch_closed k = ch_closed k'" if "cm_chans m' ch = Some k'" for ch k'
    using that by (auto split: if_splits)
  with no_orphan_frame [OF assms(2) same] same show ?thesis by (simp add: registered_def)
qed

lemma receive_keeps:
  assumes "cm_ok used m" and "no_orphan m" and "receive ch m = Some (x, m')"
  shows "registered m' = registered m \<and> no_orphan m'"
proof -
  note same = receive_ok(2) [OF assms(1,3)]
  have "\<exists>k. cm_chans m y = Some k \<and> ch_closed k = ch_closed k'" if "cm_chans m' y = Some k'" for y k'
    using assms(3) that by (auto simp: receive_def split: option.splits list.splits if_splits)
  with no_orphan_frame [OF assms(2) same] same show ?thesis by (simp add: registered_def)
qed

lemma sse_step_registry:
  assumes "sse_step (used, m) ev (used', m')" and "cm_ok used m" and "no_orphan m"
  shows "registered m' = reg_event ev (registered m) \<and> no_orphan m'"
  using assms(1)
proof (cases rule: sse_step.cases)
  case (add connID userID ch)
  with add_registers [OF assms(2,3)] show ?thesis by auto
next
  case (remove userID connID)
  with remove_unregisters [OF assms(2,3)] show ?thesis by auto
next
  case (send order userID message)
  with send_keeps [OF assms(2,3)] show ?thesis by auto
next
  case (recv ch x)
  with receive_keeps [OF assms(2,3)] show ?thesis by auto
qed

lemma sse_run_registry:
  "sse_run s evs s' \<Longrightarrow> cm_ok (fst s) (snd s) \<Longrightarrow> no_orphan (snd s) \<Longrightarrow> registered (snd s') = fold reg_event evs (registered (snd s)) \<and> no_orphan (snd s')"
proof (induction rule: sse_run.induct)
  case (run_cons s ev s1 evs s2)
  from sse_step_registry [of "fst s" "snd s" ev "fst s1" "snd s1"] sse_step_ok [of "fst s" "snd s" ev "fst s1" "snd s1"] run_cons
  show ?case by simp
qed simp

lemma registered_empty:
  assumes "cm_ok used m" and "registered m = {}"
  shows "cm_clients m = Map.empty"
proof
  fix u
  have "conns_of m u = Map.empty" using assms(2) by (auto simp: registered_def fun_eq_iff)
  with cm_okD(4) [OF assms(1), of u] show "cm_clients m u = None" by (cases "cm_clients m u") (auto simp: conns_of_def)
qed

section \<open>Properties\<close>

text \<open>
  C24. The registry holds exactly the streams that are open. Whatever the interleaving of connects, disconnects, sends and reads, the registered connections are those that were
  added and not removed since, every channel that is still open belongs to a registered connection, so no reader waits on a channel that nobody will
  write to or close, and when all streams have ended the maps are empty again: nothing leaks.
\<close>

theorem sse_registry_exact:
  assumes "sse_run ({}, NewClientManager) evs (used, m)"
  shows "registered m = fold reg_event evs {}
    \<and> (\<forall>ch k. cm_chans m ch = Some k \<longrightarrow> \<not> ch_closed k \<longrightarrow> (\<exists>u c. conns_of m u c = Some ch))
    \<and> (fold reg_event evs {} = {} \<longrightarrow> cm_clients m = Map.empty)"
proof -
  have "no_orphan NewClientManager" "registered NewClientManager = {}"
    by (simp_all add: no_orphan_def registered_def NewClientManager_def conns_of_def)
  with sse_run_registry [OF assms] have "registered m = fold reg_event evs {}" "no_orphan m" by (simp_all add: cm_ok_new)
  moreover have "cm_ok used m" using sse_run_ok [OF assms] by (simp add: cm_ok_new)
  ultimately show ?thesis using registered_empty [of used m] by (simp add: no_orphan_def)
qed

theorem sse_registry_exact_witness:
  "\<exists>used m. sse_run ({}, NewClientManager) [EvAdd ''ann'' ''c1'' 0, EvSend ''ann'' ''done'', EvRemove ''ann'' ''c1''] (used, m) \<and> cm_clients m = Map.empty"
proof -
  obtain m1 where m1: "AddClient ''c1'' ''ann'' NewClientManager = (m1, ''c1'', 0)"
    by (simp add: AddClient_def NewClientManager_def Let_def)
  have 1: "sse_step ({}, NewClientManager) (EvAdd ''ann'' ''c1'' 0) ({''c1''}, m1)" using sse_step.add [OF _ m1, of "{}"] by simp
  have ok1: "cm_ok {''c1''} m1" using sse_step_ok [OF 1 cm_ok_new] .
  have it: "iteration [''c1''] (conns_of m1 ''ann'')"
    using AddClient_conns(4) [OF m1] by (auto simp: iteration_def dom_def NewClientManager_def conns_of_def)
  obtain m2 where m2: "SendToClient [''c1''] ''ann'' ''done'' m1 = Some m2" using SendToClient_effect [OF ok1 it] by blast
  have 2: "sse_step ({''c1''}, m1) (EvSend ''ann'' ''done'') ({''c1''}, m2)" by (rule sse_step.send [OF it m2])
  have ok2: "cm_ok {''c1''} m2" using sse_step_ok [OF 2 ok1] .
  obtain m3 where "RemoveClient ''ann'' ''c1'' m2 = Some m3"
    using RemoveClient_absent [OF ok2, of "''ann''" "''c1''"] RemoveClient_present [OF ok2, of "''ann''" "''c1''"] by (cases "conns_of m2 ''ann'' ''c1''") auto
  then have 3: "sse_step ({''c1''}, m2) (EvRemove ''ann'' ''c1'') ({''c1''}, m3)" by (rule sse_step.remove)
  have run: "sse_run ({}, NewClientManager) [EvAdd ''ann'' ''c1'' 0, EvSend ''ann'' ''done'', EvRemove ''ann'' ''c1''] ({''c1''}, m3)"
    by (rule sse_run.run_cons [OF 1], rule sse_run.run_cons [OF 2], rule sse_run.run_cons [OF 3], rule sse_run.run_nil)
  from sse_registry_exact [OF run] run show ?thesis by auto
qed

text \<open>A connection stays registered until it is removed.\<close>

lemma sse_step_keeps:
  assumes "sse_step (used, m) ev (used', m')" and "cm_ok used m" and "conns_of m u c = Some ch" and "ev \<noteq> EvRemove u c"
  shows "conns_of m' u c = Some ch"
  using assms(1)
proof (cases rule: sse_step.cases)
  case (add connID userID x)
  with AddClient_conns(4) [OF add(4), of u c] cm_okD(1) [OF assms(2,3)] assms(3) show ?thesis by auto
next
  case (remove userID connID)
  show ?thesis
  proof (cases "conns_of m userID connID")
    case None
    with RemoveClient_absent [OF assms(2) None] remove have "cm_clients m' = cm_clients m" by auto
    with assms(3) show ?thesis by (simp add: conns_of_def)
  next
    case (Some x)
    with RemoveClient_present [OF assms(2) Some] remove assms(3,4) show ?thesis by auto
  qed
next
  case (send order userID message)
  with SendToClient_ok(2) [OF assms(2) send(3,4)] assms(3) show ?thesis by simp
next
  case (recv x msg)
  with receive_ok(2) [OF assms(2) recv(3)] assms(3) show ?thesis by simp
qed

lemma sse_run_keeps:
  "sse_run s evs s' \<Longrightarrow> cm_ok (fst s) (snd s) \<Longrightarrow> conns_of (snd s) u c = Some ch \<Longrightarrow> EvRemove u c \<notin> set evs \<Longrightarrow> conns_of (snd s') u c = Some ch"
proof (induction rule: sse_run.induct)
  case (run_cons s ev s1 evs s2)
  from sse_step_keeps [of "fst s" "snd s" ev "fst s1" "snd s1" u c ch] sse_step_ok [of "fst s" "snd s" ev "fst s1" "snd s1"] run_cons
  show ?case by auto
qed

text \<open>
  One stream from its request to its end. Its connection is removed by its own handler only, so when the handler returns, the connection is still registered with the stream's channel; the deferred call
  takes it out, closes that channel and leaves every other connection alone.
\<close>

theorem sse_stream_cleans_up:
  assumes "cm_ok used m" and "connID \<notin> used" and "SSEStream connID c m = (m1, Streaming cid ch)"
    and "sse_run (insert connID used, m1) evs (used2, m2)" and "EvRemove (gc_Param c ''userId'') connID \<notin> set evs"
  shows "\<exists>m3. SSEStream_return c cid m2 = Some m3 \<and> (\<exists>k. cm_chans m3 ch = Some k \<and> ch_closed k)
    \<and> registered m3 = registered m2 - {(gc_Param c ''userId'', connID)} \<and> (gc_Param c ''userId'', connID) \<in> registered m2"
proof -
  have made: "AddClient connID (gc_Param c ''userId'') m = (m1, cid, ch)"
    using assms(3) by (auto simp: SSEStream_def Let_def split: prod.splits if_splits)
  note add = AddClient_conns [OF made] and ok1 = AddClient_ok [OF assms(1,2) made]
  have ok2: "cm_ok used2 m2" using sse_run_ok [OF assms(4)] ok1 by simp
  have ch: "conns_of m2 (gc_Param c ''userId'') connID = Some ch"
    using sse_run_keeps [OF assms(4), of "gc_Param c ''userId''" connID ch] ok1 add(4) assms(5) by simp
  from RemoveClient_present [OF ok2 ch] obtain m3 k where m3: "RemoveClient (gc_Param c ''userId'') connID m2 = Some m3"
    "cm_chans m3 = (cm_chans m2)(ch \<mapsto> k\<lparr>ch_closed := True\<rparr>)"
    and conns: "\<And>u x. conns_of m3 u x = (if u = gc_Param c ''userId'' \<and> x = connID then None else conns_of m2 u x)" by auto
  have "registered m3 = registered m2 - {(gc_Param c ''userId'', connID)}" by (auto simp: registered_def conns split: if_splits)
  moreover have "(gc_Param c ''userId'', connID) \<in> registered m2" using ch by (simp add: registered_def)
  ultimately show ?thesis using m3 add(1) by (simp add: SSEStream_return_def)
qed

end
