(* ===== verification/Email.thy ===== *)
theory Email
  imports Config
begin

text \<open>
  Package \<^verbatim>\<open>internal/email\<close>: the scaffold of the email module. \<^verbatim>\<open>Service\<close> has no fields, its only method panics, and no other package calls it: the worker's
  \<^verbatim>\<open>handleSendEmail\<close> only sleeps.
\<close>

record SendEmailRequest =
  se_To :: string
  se_Subject :: string
  se_Body :: string

record SendEmailResult =
  sr_MessageID :: string

datatype email_error = ErrInvalidRecipient | ErrSendFailed

definition email_error_text :: "email_error \<Rightarrow> string" where
  "email_error_text e = (case e of ErrInvalidRecipient \<Rightarrow> ''invalid recipient address'' | ErrSendFailed \<Rightarrow> ''failed to send email'')"

text \<open>The interface \<^verbatim>\<open>Sender\<close>, and its only implementation.\<close>

type_synonym Sender = "SendEmailRequest \<Rightarrow> (email_error + SendEmailResult) go_panic"

datatype Service = Service

definition NewService :: Service where
  "NewService = Service"

definition Send :: "Service \<Rightarrow> Sender" where
  "Send s req = Panic ''not implemented''"

lemma email_error_text_inject: "email_error_text e = email_error_text e' \<longleftrightarrow> e = e'"
  by (cases e; cases e') (simp_all add: email_error_text_def)

end
