(* ===== verification/Spec2Isabelle.thy ===== *)
theory Spec2Isabelle
  imports Server Session_Refinement Job_Board Worker_Liveness Sse_Registry Email
begin

text \<open>
  Jobflow is a job queue written in Go: a server that takes jobs over HTTP, stores them in Postgres and hands them to RabbitMQ, a worker process that
  runs them, and a push channel over Redis and server-sent events on which the owner of a job learns of its end. This development models the two
  processes and proves what their parts promise. It is a shallow embedding: every operation is a function that takes the state it works on and returns it changed, with its result
  or its error as a value.

  \<^bold>\<open>The parts and their theories.\<close>

  \<^item> \<open>Jobflow_Prelude\<close>: the standard library the code uses (time and durations, UTF-8, string splitting and trimming, JSON quoting) and generic lemmas.
  \<^item> \<open>Gorm\<close>: the interface of the ORM as a record of calls, its contracts as the locales \<open>gorm_model\<close>, \<open>gorm_soft_delete\<close> and \<open>gorm_hard_delete\<close>, and an
    in-memory table that satisfies them.
  \<^item> \<open>Rabbitmq\<close> and \<open>Consumer\<close>: \<^verbatim>\<open>internal/rabbitmq\<close>. Queue declaration, the connect loop, publishing with confirmations (\<^verbatim>\<open>publisher.go\<close>); the consumer goroutine with
    its retries and backoff at 64 bits (\<^verbatim>\<open>consume.go\<close>). Contracts \<open>amqp_confirms\<close> and \<open>amqp_topology\<close>, interpreted on a reference broker.
  \<^item> \<open>Jobs_Model\<close>, \<open>Jobs_Service\<close>, \<open>Jobs_Handler\<close>: \<^verbatim>\<open>internal/jobs\<close>. Rows, requests and repository; the service with the write to the database and the publish to the broker, the
    reconciler's sweep, update and delete; the HTTP handlers. Locales \<open>jobs_store\<close> and \<open>jobs_service\<close>.
  \<^item> \<open>Redis\<close>, \<open>Worker\<close>: \<^verbatim>\<open>internal/redis\<close> and \<^verbatim>\<open>internal/worker\<close>. The handlers that move a row through its states and publish the status event; start and drain. Locale \<open>worker_env\<close>.
  \<^item> \<open>Job_Lifecycle\<close>, \<open>Job_Board\<close> and \<open>Worker_Liveness\<close>: the repository calls on job rows of concurrent requests, workers and the reconciler as a state machine with its row
    invariant; an abstract board of jobs with owner and phase, which that machine refines step by step; and what the retries achieve when the database fails for a while, on the locale \<open>flaky_worker\<close>, whose \<open>faults\<close> bounds the calls that can still fail.
  \<^item> \<open>Sse\<close>: \<^verbatim>\<open>internal/sse\<close>. The registry of connections with its Go channels, the relay, the stream; interleavings as the step relation \<open>sse_step\<close>.
    \<open>Sse_Registry\<close>: a stream from its request to the deferred removal, and the registry as the set of open connections.
  \<^item> \<open>Rate_Limit\<close>: \<^verbatim>\<open>internal/ratelimit\<close> and its middleware; the bucket as the step relation \<open>tb_step\<close>, the contract \<open>limiter\<close>.
  \<^item> \<open>Config\<close>: \<^verbatim>\<open>internal/config\<close> and \<^verbatim>\<open>internal/database\<close>. \<open>Email\<close>: the scaffold \<^verbatim>\<open>internal/email\<close>.
  \<^item> \<open>Auth_Validation\<close>, \<open>Auth_Token\<close>, \<open>Auth_Model\<close>, \<open>Auth_Service\<close>, \<open>Auth_Handler\<close>: \<^verbatim>\<open>internal/auth\<close> and \<^verbatim>\<open>internal/middleware/auth.go\<close>. The email expression and its matcher,
    passwords over runes, SHA-256, access tokens and the denylist; users and refresh tokens with their transactions; sign-up, login, refresh with rotation and reuse detection, logout; the
    handlers and the middleware. Locales \<open>jwt_lib\<close>, \<open>auth_store\<close> and \<open>auth_service\<close>.
  \<^item> \<open>Token_Lifecycle\<close> and \<open>Session_Refinement\<close>: the repository calls on refresh tokens of concurrent requests and of the sweep as a state machine, and its refinement of an
    abstract registry of sessions.
  \<^item> \<open>Cron\<close>: \<^verbatim>\<open>internal/cron\<close>. \<open>Httpx\<close>: \<^verbatim>\<open>internal/httpx\<close> and the request context. \<open>Health\<close>: \<^verbatim>\<open>internal/health\<close>, contract \<open>probe_connection\<close>.
  \<^item> \<open>Routes\<close>: \<^verbatim>\<open>internal/routes\<close> and the passage of a request through limiter, router, authentication and handler on one shared state. \<open>Server\<close>: \<^verbatim>\<open>internal/bootstrap\<close> and
    both \<^verbatim>\<open>main\<close> functions.
  \<^item> This theory: the path of a job through both processes, for the types the worker knows and for the others.

  \<^bold>\<open>What the properties show.\<close> A created job is in the database and either at the broker or eligible for the reconciler, a sweep of the reconciler leaves none behind while the services answer, and a
  job that a worker has handled is in its final state with its owner notified. Every delivery is settled once, and as long as the database does not fail more often than a message may be retried, no job is lost. Job rows stay well formed under any
  interleaving, and to its users the table is a board of jobs. Tenants are isolated at the HTTP boundary, and every
  route that should be is behind authentication. A refresh token is exchanged at most once under any interleaving, a replay kills its family, a dead family stays dead, and a
  logout locks the access token out. The stream registry never panics, delivers in order and leaks nothing. Some theorems record behaviour that is probably not meant, such as
  \<open>publish_after_timeout_misattributed\<close>, \<open>rejected_job_never_marked_failed\<close>, \<open>concurrent_update_reverts_completion\<close>, \<open>unknown_type_dropped\<close> and \<open>get_job_by_id_ignores_caller\<close>.

  \<^bold>\<open>Parameters.\<close> The ORM and the database, the AMQP client and the broker, the Redis client, the JWT and bcrypt packages, viper, the JSON decoders, the path matching of the web framework
  and the Unicode tables are arguments of the definitions. What the code relies on is stated as locales, each of them interpreted on an executable reference instance,
  on which the witnesses evaluate.

  \<^bold>\<open>Time, randomness, loops.\<close> The clock is a stream of readings and the random source a stream of bytes, consumed in the order of the code's calls. Loops are structural recursion
  or have a termination proof; the connect loop runs over its remaining attempts (30), so nothing depends on fuel. Loops that run for the life of
  the process (consumer, relay, sweeps) take the list of events they have received so far. A Go \<^verbatim>\<open>range\<close> over a map takes its order as an argument.

  \<^bold>\<open>Not modelled.\<close> \<^verbatim>\<open>internal/auth/token_store.go\<close> is commented out as a whole. Log lines, signals, the HTTP listener, the response
  headers of the event stream and the deadlines that handlers put on their calls are left out: a call that misses its deadline is one of the errors the parameter may return.
\<close>

section \<open>A job from request to notification\<close>

lemma fresh_row_live: "fresh_row u req r \<Longrightarrow> job_live r"
  by (simp add: fresh_row_def)

text \<open>A created job whose row is stamped as queued has its message at the broker.\<close>

lemma queued_job_message:
  assumes "jobs_service s tbl sent seen accepted" and "seen (js_mq st) = length (sent (js_mq st))"
    and "CreateJobService s req st = (st1, Inr job)" and "j_QueuedAt job \<noteq> None"
  shows "\<exists>r body mid d. tbl (js_db st1) (j_ID job) = Some r \<and> fresh_row (cr_UserID req) req r \<and> j_QueuedAt r \<noteq> None \<and> svc_marshal s (message_of r) = Inr body
     \<and> (delayedExchange QueueJobs, QueueJobs, json_publishing mid [''x-delay'' \<mapsto> ArgInt (xdelay d)] body) \<in> accepted (js_mq st1)
     \<and> m_ID (message_of r) = j_ID job \<and> m_Type (message_of r) = cr_Type req \<and> m_UserID (message_of r) = cr_UserID req
     \<and> m_MaxRetries (message_of r) = j_MaxRetries job"
proof -
  from jobs_service.CreateJobService_sync [OF assms(1-3)] obtain r where
    r: "tbl (js_db st1) (j_ID job) = Some r" "job_tracked job r" "fresh_row (cr_UserID req) req r"
    and broker: "j_QueuedAt r \<noteq> None \<Longrightarrow> job_in_broker (svc_marshal s) (accepted (js_mq st1)) r"
    unfolding created_row_def by blast
  have queued: "j_QueuedAt r \<noteq> None" using assms(4) job_tracked_sel(12) [OF r(2)] by simp
  have "m_ID (message_of r) = j_ID job" "m_Type (message_of r) = cr_Type req" "m_UserID (message_of r) = cr_UserID req" "m_MaxRetries (message_of r) = j_MaxRetries job"
    using job_tracked_sel [OF r(2)] r(3) by (simp_all add: message_of_def fresh_row_def)
  with r queued broker show ?thesis unfolding job_in_broker_def by blast
qed


definition mail_message :: JobMessage where
  "mail_message = \<lparr>m_ID = ''id-'', m_UserID = ''ann'', m_Type = JobEmail, m_Payload = Some ''{}'', m_Priority = 5, m_MaxRetries = 3, m_ScheduledAt = 0\<rparr>"

definition mail_service :: "(Job mem_db, ref_broker) JobsService" where
  "mail_service = mem_service\<lparr>svc_marshal := (\<lambda>m. if m = mail_message then Inr ''mail'' else Inl ''unsupported'')\<rparr>"

definition mail_worker :: "(Job mem_db, ref_redis) Worker" where
  "mail_worker = New_Worker mem_jobs ref_client (\<lambda>b. if b = ''mail'' then Inr mail_message else Inl ''unsupported'') ''host'' 7"

lemma mail_sel [simp]:
  "svc_repo mail_service = mem_jobs" "svc_mq mail_service = ref_amqp" "wk_repo mail_worker = mem_jobs" "wk_rdb mail_worker = ref_client"
  "svc_marshal mail_service = (\<lambda>m. if m = mail_message then Inr ''mail'' else Inl ''unsupported'')"
  "wk_unmarshal mail_worker = (\<lambda>b. if b = ''mail'' then Inr mail_message else Inl ''unsupported'')"
  by (simp_all add: mail_service_def mail_worker_def New_Worker_def)

interpretation mail_service: jobs_service mail_service "mem_tbl j_ID" rb_sent rb_seen rb_accepted
  unfolding jobs_service_def by (simp add: mem_jobs.jobs_store_axioms ref.amqp_confirms_axioms)

interpretation mail_worker: worker_env mail_worker "mem_tbl j_ID" rr_log
  unfolding worker_env_def by (simp add: mem_jobs.jobs_store_axioms rr.redis_pubsub_axioms)

interpretation mail_flaky: flaky_worker mail_worker "mem_tbl j_ID" rr_log mem_outage
  by unfold_locales (simp_all add: mem_outage_laws)

definition sent_bodies :: "ref_broker \<Rightarrow> string list" where
  "sent_bodies b = map (pub_Body \<circ> snd \<circ> snd) (rb_sent b)"

lemma rb_accepted_body: "(ex, rk, p) \<in> rb_accepted b \<Longrightarrow> pub_Body p \<in> set (sent_bodies b)"
  by (auto simp: rb_accepted_def sent_bodies_def image_iff) (metis nth_mem snd_conv)

lemma mail_created:
  "\<exists>st1 job. CreateJobService mail_service (plain_request ''ann'') (mem_state []) = (st1, Inr job) \<and> j_QueuedAt job \<noteq> None
     \<and> sent_bodies (js_mq st1) = [''mail''] \<and> j_MaxRetries job = 3"
  by (simp add: CreateJobService_def service_eval mail_message_def mail_service_def sent_bodies_def)



definition odd_request :: CreateJobRequest where
  "odd_request = (plain_request ''ann'')\<lparr>cr_Type := ''send_email''\<rparr>"

definition odd_service :: "(Job mem_db, ref_broker) JobsService" where
  "odd_service = mem_service\<lparr>svc_marshal := (\<lambda>m. if m = mail_message\<lparr>m_Type := ''send_email''\<rparr> then Inr ''odd'' else Inl ''unsupported'')\<rparr>"

definition odd_worker :: "(Job mem_db, ref_redis) Worker" where
  "odd_worker = mail_worker\<lparr>wk_unmarshal := (\<lambda>b. Inr (mail_message\<lparr>m_Type := ''send_email''\<rparr>))\<rparr>"

lemma odd_created:
  "\<exists>st1 job. CreateJobService odd_service odd_request (mem_state []) = (st1, Inr job) \<and> j_QueuedAt job \<noteq> None
     \<and> sent_bodies (js_mq st1) = [''odd'']"
  by (simp add: CreateJobService_def service_eval mail_message_def odd_service_def odd_request_def sent_bodies_def)


end
